theory Spec2Isabelle
  imports Main
begin

section \<open>Raw storage and element lifetimes\<close>

text \<open>
  The repository is a single header, \<^verbatim>\<open>vector.h\<close>, with two class templates:
  \<^verbatim>\<open>RawMemory<T>\<close> (a block of uninitialised storage for a fixed number of elements) and
  \<^verbatim>\<open>Vector<T>\<close> (a length plus a \<^verbatim>\<open>RawMemory<T>\<close>, with the element lifetimes managed by
  placement new and explicit destructor calls).

  The embedding keeps the two layers apart, as the code does.  The free store is an
  explicit value: a list of blocks indexed by block address.  A block is a list of
  slots; a slot is \<open>None\<close> while it is raw storage and \<open>Some x\<close> while an element with
  value \<open>x\<close> lives in it.  A released block stays in the list as \<open>None\<close>, so addresses
  are never reused and a dangling pointer stays recognisable.  A \<^verbatim>\<open>T*\<close> is the null
  pointer or a block address with an element offset.

  The class member names \<^verbatim>\<open>buffer_\<close>, \<^verbatim>\<open>capacity_\<close>, \<^verbatim>\<open>data_\<close>, \<^verbatim>\<open>size_\<close> are written
  \<open>m_buffer\<close>, \<open>m_capacity\<close>, \<open>m_data\<close>, \<open>m_size\<close>.
\<close>

type_synonym addr = nat

datatype ptr = Null | Ptr addr nat

text \<open>Pointer arithmetic \<^verbatim>\<open>p + n\<close>. Adding to the null pointer gives the null pointer
  (only \<^verbatim>\<open>nullptr + 0\<close> is ever formed by a well-formed vector; every access through
  the null pointer is undefined behaviour below).\<close>

fun ptr_add :: "ptr \<Rightarrow> nat \<Rightarrow> ptr" where
  "ptr_add Null n = Null"
| "ptr_add (Ptr a i) n = Ptr a (i + n)"

text \<open>Pointer arithmetic \<^verbatim>\<open>p - n\<close>: defined only inside the block.\<close>

fun ptr_sub :: "ptr \<Rightarrow> nat \<Rightarrow> ptr option" where
  "ptr_sub Null n = (if n = 0 then Some Null else None)"
| "ptr_sub (Ptr a i) n = (if n \<le> i then Some (Ptr a (i - n)) else None)"

text \<open>Every element operation on a slot of a buffer is recorded, in order.\<close>

datatype op_kind = FromArgs | ValueInit | Copy | Move

datatype event = Ctor op_kind ptr | Assign op_kind ptr | Dtor ptr

record 'a mem =
  blocks :: "'a option list option list"
  journal :: "event list"

text \<open>Outcomes. A C++ exception unwinds with the state it leaves behind; undefined
  behaviour (and a failed \<^verbatim>\<open>assert\<close>) stops the execution at the state where it
  happens.  \<open>Inl\<close> is the failure, \<open>Inr\<close> the normal return with its value.\<close>

datatype exn = BadAlloc | ElemThrow

datatype ub = InvalidPointer ptr | NotAlive ptr | InvalidFree ptr | InvalidRange | AssertFailed

datatype 's error = Throw exn 's | UB ub 's

type_synonym ('s, 'r) result = "'s error + 'r \<times> 's"

definition and_then :: "('s, 'r) result \<Rightarrow> ('r \<Rightarrow> 's \<Rightarrow> ('s, 'q) result) \<Rightarrow> ('s, 'q) result" where
  "and_then r f = (case r of Inl e \<Rightarrow> Inl e | Inr (x, s) \<Rightarrow> f x s)"

text \<open>An operation on the store, run on behalf of an object \<open>v\<close> that it leaves as it is.\<close>

definition in_obj :: "'o \<Rightarrow> ('m, 'r) result \<Rightarrow> ('o \<times> 'm, 'r) result" where
  "in_obj v r = (case r of Inl e \<Rightarrow> Inl (map_error (Pair v) e) | Inr (x, m) \<Rightarrow> Inr (x, (v, m)))"

text \<open>Stack unwinding: while an exception passes, the destructor of a local object runs;
  the exception then goes on.\<close>

definition unwind :: "('s \<Rightarrow> ('s, unit) result) \<Rightarrow> 's error \<Rightarrow> 's error" where
  "unwind cleanup e =
     (case e of
        Throw x s \<Rightarrow> (case cleanup s of Inl err \<Rightarrow> err | Inr (u, s') \<Rightarrow> Throw x s')
      | UB u s \<Rightarrow> UB u s)"

text \<open>\<^verbatim>\<open>try { body } catch (...) { handler }\<close> with a handler that does not rethrow.\<close>

definition catch_all :: "('s, unit) result \<Rightarrow> ('s \<Rightarrow> ('s, unit) result) \<Rightarrow> ('s, unit) result" where
  "catch_all body handler =
     (case body of
        Inl (Throw x s) \<Rightarrow> handler s
      | Inl (UB u s) \<Rightarrow> Inl (UB u s)
      | Inr r \<Rightarrow> Inr r)"

subsection \<open>Slots\<close>

definition block_at :: "'a mem \<Rightarrow> addr \<Rightarrow> 'a option list option" where
  "block_at m a = (if a < length (blocks m) then blocks m ! a else None)"

text \<open>The slot a pointer designates: \<open>None\<close> when there is none (null, released block,
  offset outside the block), \<open>Some None\<close> for raw storage, \<open>Some (Some x)\<close> for a live
  element.\<close>

definition slot :: "'a mem \<Rightarrow> ptr \<Rightarrow> 'a option option" where
  "slot m p =
     (case p of
        Null \<Rightarrow> None
      | Ptr a i \<Rightarrow>
          (case block_at m a of
             None \<Rightarrow> None
           | Some ss \<Rightarrow> if i < length ss then Some (ss ! i) else None))"

definition set_slot :: "ptr \<Rightarrow> 'a option \<Rightarrow> 'a mem \<Rightarrow> 'a mem" where
  "set_slot p s m =
     (case p of
        Null \<Rightarrow> m
      | Ptr a i \<Rightarrow>
          (case block_at m a of
             None \<Rightarrow> m
           | Some ss \<Rightarrow> m\<lparr>blocks := (blocks m)[a := Some (ss[i := s])]\<rparr>))"

definition record_event :: "event \<Rightarrow> 'a mem \<Rightarrow> 'a mem" where
  "record_event ev m = m\<lparr>journal := journal m @ [ev]\<rparr>"

text \<open>Reading \<^verbatim>\<open>*p\<close>: the slot must hold a live element.\<close>

definition load :: "ptr \<Rightarrow> 'a mem \<Rightarrow> ('a mem, 'a) result" where
  "load p m =
     (case slot m p of
        None \<Rightarrow> Inl (UB (InvalidPointer p) m)
      | Some None \<Rightarrow> Inl (UB (NotAlive p) m)
      | Some (Some x) \<Rightarrow> Inr (x, m))"

text \<open>Placement new of a value into the storage at \<open>p\<close>. The storage must exist; what it
  held before is overwritten without a destructor call.\<close>

definition construct_at :: "op_kind \<Rightarrow> ptr \<Rightarrow> 'a \<Rightarrow> 'a mem \<Rightarrow> ('a mem, unit) result" where
  "construct_at k p x m =
     (case slot m p of
        None \<Rightarrow> Inl (UB (InvalidPointer p) m)
      | Some old \<Rightarrow> Inr ((), record_event (Ctor k p) (set_slot p (Some x) m)))"

text \<open>Assignment to the element at \<open>p\<close>: there must be a live element to assign to.\<close>

definition assign_at :: "op_kind \<Rightarrow> ptr \<Rightarrow> 'a \<Rightarrow> 'a mem \<Rightarrow> ('a mem, unit) result" where
  "assign_at k p x m =
     (case slot m p of
        None \<Rightarrow> Inl (UB (InvalidPointer p) m)
      | Some None \<Rightarrow> Inl (UB (NotAlive p) m)
      | Some (Some old) \<Rightarrow> Inr ((), record_event (Assign k p) (set_slot p (Some x) m)))"

text \<open>The destructor call \<^verbatim>\<open>p->~T()\<close>: there must be a live element to destroy.\<close>

definition destroy_at :: "ptr \<Rightarrow> 'a mem \<Rightarrow> ('a mem, unit) result" where
  "destroy_at p m =
     (case slot m p of
        None \<Rightarrow> Inl (UB (InvalidPointer p) m)
      | Some None \<Rightarrow> Inl (UB (NotAlive p) m)
      | Some (Some old) \<Rightarrow> Inr ((), record_event (Dtor p) (set_slot p None m)))"

subsection \<open>The element type\<close>

text \<open>
  The template parameter \<^verbatim>\<open>T\<close>. An element is a value of type \<open>'a\<close>; copying and moving
  carry the value over.  What the code asks of \<^verbatim>\<open>T\<close> is given by a record: the two
  traits of the \<^verbatim>\<open>if constexpr\<close>, for each operation the values on which it throws, the
  outcome of \<^verbatim>\<open>T()\<close>, and the value a moved-from element is left with.
  \<open>sizeof\<close> is \<^verbatim>\<open>sizeof(T)\<close> in bytes.  \<open>alloc_limit\<close> is the largest number of bytes
  for which \<^verbatim>\<open>operator new\<close> returns storage; asked for more, it throws
  \<^verbatim>\<open>std::bad_alloc\<close>.

  The arguments of \<^verbatim>\<open>T(std::forward<Args>(args)...)\<close>, where they do not refer to an
  element of a buffer, are given by what the constructor call does with them: it yields
  a value, or it throws.
\<close>

datatype 'a ctor_args = Yields 'a | Throwing

record 'a elem_type =
  is_nothrow_move_constructible :: bool
  is_copy_constructible :: bool
  copy_ctor_throws :: "'a \<Rightarrow> bool"
  move_ctor_throws :: "'a \<Rightarrow> bool"
  copy_assign_throws :: "'a \<Rightarrow> bool"
  move_assign_throws :: "'a \<Rightarrow> bool"
  value_init :: "'a ctor_args"
  moved_from :: "'a \<Rightarrow> 'a"
  sizeof :: nat
  alloc_limit :: nat

text \<open>The move constructor of a nothrow-move-constructible type does not throw.\<close>

definition move_throws :: "'a elem_type \<Rightarrow> 'a \<Rightarrow> bool" where
  "move_throws E x = (\<not> is_nothrow_move_constructible E \<and> move_ctor_throws E x)"

text \<open>\<^verbatim>\<open>size_t\<close> is 64 bits wide.\<close>

definition SIZE_MOD :: nat where
  "SIZE_MOD = 2 ^ 64"

text \<open>\<^verbatim>\<open>new (p) T(args...)\<close>\<close>

definition construct_from :: "'a ctor_args \<Rightarrow> ptr \<Rightarrow> 'a mem \<Rightarrow> ('a mem, unit) result" where
  "construct_from args p m =
     (case args of
        Throwing \<Rightarrow> Inl (Throw ElemThrow m)
      | Yields x \<Rightarrow> construct_at FromArgs p x m)"

text \<open>\<^verbatim>\<open>T(value)\<close> for a \<^verbatim>\<open>const T&\<close> and for a \<^verbatim>\<open>T&&\<close> of the caller, as constructor
  arguments.\<close>

definition copy_of :: "'a elem_type \<Rightarrow> 'a \<Rightarrow> 'a ctor_args" where
  "copy_of E x = (if copy_ctor_throws E x then Throwing else Yields x)"

definition move_of :: "'a elem_type \<Rightarrow> 'a \<Rightarrow> 'a ctor_args" where
  "move_of E x = (if move_throws E x then Throwing else Yields x)"

text \<open>\<^verbatim>\<open>new (p) T()\<close>\<close>

definition value_construct :: "'a elem_type \<Rightarrow> ptr \<Rightarrow> ptr \<Rightarrow> 'a mem \<Rightarrow> ('a mem, unit) result" where
  "value_construct E unused p m =
     (case value_init E of
        Throwing \<Rightarrow> Inl (Throw ElemThrow m)
      | Yields x \<Rightarrow> construct_at ValueInit p x m)"

text \<open>\<^verbatim>\<open>new (dst) T(*src)\<close>\<close>

definition copy_construct :: "'a elem_type \<Rightarrow> ptr \<Rightarrow> ptr \<Rightarrow> 'a mem \<Rightarrow> ('a mem, unit) result" where
  "copy_construct E src dst m =
     and_then (load src m) (\<lambda>x m1.
       if copy_ctor_throws E x then Inl (Throw ElemThrow m1)
       else construct_at Copy dst x m1)"

text \<open>\<^verbatim>\<open>new (dst) T(std::move(*src))\<close>: the source stays alive, in its moved-from state.\<close>

definition move_construct :: "'a elem_type \<Rightarrow> ptr \<Rightarrow> ptr \<Rightarrow> 'a mem \<Rightarrow> ('a mem, unit) result" where
  "move_construct E src dst m =
     and_then (load src m) (\<lambda>x m1.
       if move_throws E x then Inl (Throw ElemThrow m1)
       else and_then (construct_at Move dst x m1) (\<lambda>u m2.
              Inr ((), set_slot src (Some (moved_from E x)) m2)))"

text \<open>\<^verbatim>\<open>*dst = *src\<close>\<close>

definition copy_assign :: "'a elem_type \<Rightarrow> ptr \<Rightarrow> ptr \<Rightarrow> 'a mem \<Rightarrow> ('a mem, unit) result" where
  "copy_assign E src dst m =
     and_then (load src m) (\<lambda>x m1.
       if copy_assign_throws E x then Inl (Throw ElemThrow m1)
       else assign_at Copy dst x m1)"

text \<open>\<^verbatim>\<open>*dst = std::move(*src)\<close>\<close>

definition move_assign :: "'a elem_type \<Rightarrow> ptr \<Rightarrow> ptr \<Rightarrow> 'a mem \<Rightarrow> ('a mem, unit) result" where
  "move_assign E src dst m =
     and_then (load src m) (\<lambda>x m1.
       if move_assign_throws E x then Inl (Throw ElemThrow m1)
       else and_then (assign_at Move dst x m1) (\<lambda>u m2.
              Inr ((), set_slot src (Some (moved_from E x)) m2)))"

text \<open>\<^verbatim>\<open>*dst = T(args...)\<close>: the temporary is built (this may throw), move-assigned and
  destroyed. The temporary is no slot of a buffer and leaves no event.\<close>

definition assign_from :: "'a elem_type \<Rightarrow> 'a ctor_args \<Rightarrow> ptr \<Rightarrow> 'a mem \<Rightarrow> ('a mem, unit) result" where
  "assign_from E args dst m =
     (case args of
        Throwing \<Rightarrow> Inl (Throw ElemThrow m)
      | Yields x \<Rightarrow>
          if move_assign_throws E x then Inl (Throw ElemThrow m)
          else assign_at Move dst x m)"

text \<open>
  A \<^verbatim>\<open>const T&\<close> or \<^verbatim>\<open>T&&\<close> parameter refers to an object outside every buffer, given by
  its value, or to an element of a buffer, given by its address: the caller may pass an
  element of the vector itself, as in \<^verbatim>\<open>v.Insert(pos, v[2])\<close>.
\<close>

datatype 'a reference = Object 'a | Element ptr

text \<open>
  What \<^verbatim>\<open>Emplace\<close> forwards to the constructor of \<^verbatim>\<open>T\<close>: arguments that do not refer to
  an element of a buffer, a \<^verbatim>\<open>const T&\<close> to the element at an address, or a \<^verbatim>\<open>T&&\<close> to
  it. A reference is read when the constructor runs, not when the function is called.
\<close>

datatype 'a forwarded = Args "'a ctor_args" | Lvalue ptr | Rvalue ptr

text \<open>\<^verbatim>\<open>new (p) T(std::forward<Args>(args)...)\<close>\<close>

definition construct_fwd ::
  "'a elem_type \<Rightarrow> 'a forwarded \<Rightarrow> ptr \<Rightarrow> 'a mem \<Rightarrow> ('a mem, unit) result" where
  "construct_fwd E args p m =
     (case args of
        Args a \<Rightarrow> construct_from a p m
      | Lvalue src \<Rightarrow> copy_construct E src p m
      | Rvalue src \<Rightarrow> move_construct E src p m)"

text \<open>\<^verbatim>\<open>*dst = T(std::forward<Args>(args)...)\<close>: the temporary is copied or moved from the
  element referred to, then move-assigned.\<close>

definition assign_fwd ::
  "'a elem_type \<Rightarrow> 'a forwarded \<Rightarrow> ptr \<Rightarrow> 'a mem \<Rightarrow> ('a mem, unit) result" where
  "assign_fwd E args dst m =
     (case args of
        Args a \<Rightarrow> assign_from E a dst m
      | Lvalue src \<Rightarrow> and_then (load src m) (\<lambda>x. assign_from E (copy_of E x) dst)
      | Rvalue src \<Rightarrow>
          and_then (load src m) (\<lambda>x m1.
            if move_throws E x then Inl (Throw ElemThrow m1)
            else assign_from E (Yields x) dst (set_slot src (Some (moved_from E x)) m1)))"

subsection \<open>The standard algorithms the header calls\<close>

text \<open>
  These are library functions, modelled after their specification in the C++ standard:
  each walks its range in order; the \<^verbatim>\<open>uninitialized_\<close> algorithms destroy what they have
  constructed when a constructor throws and rethrow; \<^verbatim>\<open>copy_n\<close>, \<^verbatim>\<open>move\<close> and
  \<^verbatim>\<open>move_backward\<close> assign element by element and let an exception through.
\<close>

fun for_each :: "(nat \<Rightarrow> 's \<Rightarrow> ('s, unit) result) \<Rightarrow> nat list \<Rightarrow> 's \<Rightarrow> ('s, unit) result" where
  "for_each f [] s = Inr ((), s)"
| "for_each f (i # is) s =
     (case f i s of Inl e \<Rightarrow> Inl e | Inr (u, s') \<Rightarrow> for_each f is s')"

definition destroy_n :: "ptr \<Rightarrow> nat \<Rightarrow> 'a mem \<Rightarrow> ('a mem, unit) result" where
  "destroy_n first n m = for_each (\<lambda>i. destroy_at (ptr_add first i)) [0..<n] m"

definition copy_n :: "'a elem_type \<Rightarrow> ptr \<Rightarrow> nat \<Rightarrow> ptr \<Rightarrow> 'a mem \<Rightarrow> ('a mem, unit) result" where
  "copy_n E first n d_first m =
     for_each (\<lambda>i. copy_assign E (ptr_add first i) (ptr_add d_first i)) [0..<n] m"

text \<open>\<^verbatim>\<open>std::move(first, first + n, d_first)\<close>\<close>

definition move_range :: "'a elem_type \<Rightarrow> ptr \<Rightarrow> nat \<Rightarrow> ptr \<Rightarrow> 'a mem \<Rightarrow> ('a mem, unit) result" where
  "move_range E first n d_first m =
     for_each (\<lambda>i. move_assign E (ptr_add first i) (ptr_add d_first i)) [0..<n] m"

text \<open>\<^verbatim>\<open>std::move_backward(first, first + n, d_last)\<close>: the last element first.\<close>

definition move_backward :: "'a elem_type \<Rightarrow> ptr \<Rightarrow> nat \<Rightarrow> ptr \<Rightarrow> 'a mem \<Rightarrow> ('a mem, unit) result" where
  "move_backward E first n d_last m =
     (case ptr_sub d_last n of
        None \<Rightarrow> Inl (UB InvalidRange m)
      | Some d_first \<Rightarrow>
          for_each (\<lambda>i. move_assign E (ptr_add first i) (ptr_add d_first i)) (rev [0..<n]) m)"

text \<open>The loop of the \<^verbatim>\<open>uninitialized_\<close> algorithms: \<open>cnt\<close> elements are constructed so
  far, \<open>k\<close> are left.\<close>

fun uninitialized_loop ::
  "(ptr \<Rightarrow> ptr \<Rightarrow> 'a mem \<Rightarrow> ('a mem, unit) result) \<Rightarrow> ptr \<Rightarrow> ptr \<Rightarrow> nat \<Rightarrow> nat \<Rightarrow> 'a mem
     \<Rightarrow> ('a mem, unit) result" where
  "uninitialized_loop ctor first d_first cnt 0 m = Inr ((), m)"
| "uninitialized_loop ctor first d_first cnt (Suc k) m =
     (case ctor (ptr_add first cnt) (ptr_add d_first cnt) m of
        Inl (Throw x m') \<Rightarrow>
          (case destroy_n d_first cnt m' of
             Inl err \<Rightarrow> Inl err
           | Inr (u, m'') \<Rightarrow> Inl (Throw x m''))
      | Inl (UB u m') \<Rightarrow> Inl (UB u m')
      | Inr (u, m') \<Rightarrow> uninitialized_loop ctor first d_first (Suc cnt) k m')"

definition uninitialized_copy_n ::
  "'a elem_type \<Rightarrow> ptr \<Rightarrow> nat \<Rightarrow> ptr \<Rightarrow> 'a mem \<Rightarrow> ('a mem, unit) result" where
  "uninitialized_copy_n E first n d_first m =
     uninitialized_loop (copy_construct E) first d_first 0 n m"

definition uninitialized_move_n ::
  "'a elem_type \<Rightarrow> ptr \<Rightarrow> nat \<Rightarrow> ptr \<Rightarrow> 'a mem \<Rightarrow> ('a mem, unit) result" where
  "uninitialized_move_n E first n d_first m =
     uninitialized_loop (move_construct E) first d_first 0 n m"

definition uninitialized_value_construct_n ::
  "'a elem_type \<Rightarrow> ptr \<Rightarrow> nat \<Rightarrow> 'a mem \<Rightarrow> ('a mem, unit) result" where
  "uninitialized_value_construct_n E first n m =
     uninitialized_loop (value_construct E) Null first 0 n m"

section \<open>RawMemory\<close>

record raw_memory =
  m_buffer :: ptr
  m_capacity :: nat

text \<open>Where a member function takes another object of its own class by reference, the
  argument is the object itself (\<^verbatim>\<open>this == &rhs\<close>) or another object.\<close>

datatype 'o operand = This | Other 'o

text \<open>\<^verbatim>\<open>RawMemory() = default\<close>\<close>

definition RawMemory_default :: raw_memory where
  "RawMemory_default = \<lparr>m_buffer = Null, m_capacity = 0\<rparr>"

text \<open>\<^verbatim>\<open>operator new(bytes)\<close>: a new block of \<open>bytes\<close> bytes, which has room for
  \<open>bytes div sizeof(T)\<close> elements, or \<^verbatim>\<open>std::bad_alloc\<close>. A request for no bytes at all
  returns a block of its own without room for an element.\<close>

definition operator_new :: "'a elem_type \<Rightarrow> nat \<Rightarrow> 'a mem \<Rightarrow> ('a mem, ptr) result" where
  "operator_new E bytes m =
     (if alloc_limit E < bytes then Inl (Throw BadAlloc m)
      else Inr (Ptr (length (blocks m)) 0,
                m\<lparr>blocks := blocks m @ [Some (replicate (bytes div sizeof E) None)]\<rparr>))"

text \<open>\<^verbatim>\<open>static T* Allocate(size_t n)\<close>: the product \<^verbatim>\<open>n * sizeof(T)\<close> is computed in
  \<^verbatim>\<open>size_t\<close> and wraps around.\<close>

definition Allocate :: "'a elem_type \<Rightarrow> nat \<Rightarrow> 'a mem \<Rightarrow> ('a mem, ptr) result" where
  "Allocate E n m =
     (if n \<noteq> 0 then operator_new E ((n * sizeof E) mod SIZE_MOD) m
      else Inr (Null, m))"

text \<open>\<^verbatim>\<open>operator delete(buf)\<close>: nothing for the null pointer; otherwise \<open>buf\<close> must be the
  start of a block that has not been released.\<close>

definition Deallocate :: "ptr \<Rightarrow> 'a mem \<Rightarrow> ('a mem, unit) result" where
  "Deallocate buf m =
     (case buf of
        Null \<Rightarrow> Inr ((), m)
      | Ptr a i \<Rightarrow>
          if i = 0 \<and> block_at m a \<noteq> None then Inr ((), m\<lparr>blocks := (blocks m)[a := None]\<rparr>)
          else Inl (UB (InvalidFree buf) m))"

text \<open>\<^verbatim>\<open>explicit RawMemory(size_t capacity)\<close>\<close>

definition RawMemory_ctor :: "'a elem_type \<Rightarrow> nat \<Rightarrow> 'a mem \<Rightarrow> ('a mem, raw_memory) result" where
  "RawMemory_ctor E capacity m =
     and_then (Allocate E capacity m) (\<lambda>p m1.
       Inr (\<lparr>m_buffer = p, m_capacity = capacity\<rparr>, m1))"

text \<open>\<^verbatim>\<open>RawMemory(RawMemory&& other)\<close>: the new object and what is left of \<open>other\<close>.\<close>

definition RawMemory_move_ctor :: "raw_memory \<Rightarrow> raw_memory \<times> raw_memory" where
  "RawMemory_move_ctor other =
     (\<lparr>m_buffer = m_buffer other, m_capacity = m_capacity other\<rparr>,
      other\<lparr>m_buffer := Null, m_capacity := 0\<rparr>)"

definition RawMemory_Swap :: "raw_memory \<Rightarrow> raw_memory \<Rightarrow> raw_memory \<times> raw_memory" where
  "RawMemory_Swap this other =
     (this\<lparr>m_buffer := m_buffer other, m_capacity := m_capacity other\<rparr>,
      other\<lparr>m_buffer := m_buffer this, m_capacity := m_capacity this\<rparr>)"

text \<open>\<^verbatim>\<open>RawMemory& operator=(RawMemory&& rhs)\<close>: the state is the pair of \<^verbatim>\<open>*this\<close> and
  \<open>rhs\<close>.\<close>

definition RawMemory_move_assign ::
  "raw_memory \<Rightarrow> raw_memory operand \<Rightarrow> 'a mem
     \<Rightarrow> ((raw_memory \<times> raw_memory operand) \<times> 'a mem, unit) result" where
  "RawMemory_move_assign this rhs m =
     (case rhs of
        This \<Rightarrow> Inr ((), ((this, This), m))
      | Other r \<Rightarrow>
          (case RawMemory_Swap this r of
             (this1, r1) \<Rightarrow>
               and_then (in_obj (this1, Other r1) (Deallocate (m_buffer r1) m)) (\<lambda>u s.
                 Inr ((), ((this1, Other (r1\<lparr>m_capacity := 0\<rparr>)), snd s)))))"

text \<open>\<^verbatim>\<open>~RawMemory()\<close>\<close>

definition RawMemory_dtor :: "raw_memory \<Rightarrow> 'a mem \<Rightarrow> ('a mem, unit) result" where
  "RawMemory_dtor this m = Deallocate (m_buffer this) m"

text \<open>\<^verbatim>\<open>T* operator+(size_t offset)\<close> and \<^verbatim>\<open>T& operator[](size_t index)\<close>, each with its
  \<^verbatim>\<open>assert\<close>.\<close>

definition RawMemory_plus :: "raw_memory \<Rightarrow> nat \<Rightarrow> 'a mem \<Rightarrow> ('a mem, ptr) result" where
  "RawMemory_plus this offset m =
     (if offset \<le> m_capacity this then Inr (ptr_add (m_buffer this) offset, m)
      else Inl (UB AssertFailed m))"

definition RawMemory_index :: "raw_memory \<Rightarrow> nat \<Rightarrow> 'a mem \<Rightarrow> ('a mem, ptr) result" where
  "RawMemory_index this index m =
     (if index < m_capacity this then Inr (ptr_add (m_buffer this) index, m)
      else Inl (UB AssertFailed m))"

definition GetAddress :: "raw_memory \<Rightarrow> ptr" where
  "GetAddress this = m_buffer this"

definition RawMemory_Capacity :: "raw_memory \<Rightarrow> nat" where
  "RawMemory_Capacity this = m_capacity this"

section \<open>Vector\<close>

record vector =
  m_data :: raw_memory
  m_size :: nat

text \<open>\<^verbatim>\<open>Vector() = default\<close>\<close>

definition Vector_default :: vector where
  "Vector_default = \<lparr>m_data = RawMemory_default, m_size = 0\<rparr>"

definition Size :: "vector \<Rightarrow> nat" where
  "Size this = m_size this"

definition Capacity :: "vector \<Rightarrow> nat" where
  "Capacity this = RawMemory_Capacity (m_data this)"

text \<open>\<^verbatim>\<open>begin()\<close>, \<^verbatim>\<open>end()\<close> and their const twins.\<close>

definition Vector_begin :: "vector \<Rightarrow> ptr" where
  "Vector_begin this = GetAddress (m_data this)"

definition Vector_end :: "vector \<Rightarrow> ptr" where
  "Vector_end this = ptr_add (GetAddress (m_data this)) (m_size this)"

text \<open>The condition of the \<^verbatim>\<open>if constexpr\<close> that chooses between moving and copying.\<close>

definition nothrow_move_or_no_copy :: "'a elem_type \<Rightarrow> bool" where
  "nothrow_move_or_no_copy E = (is_nothrow_move_constructible E \<or> \<not> is_copy_constructible E)"

text \<open>\<^verbatim>\<open>explicit Vector(size_t size)\<close>. When the construction of the elements throws, the
  member \<^verbatim>\<open>data_\<close>, already constructed, is destroyed.\<close>

definition Vector_ctor :: "'a elem_type \<Rightarrow> nat \<Rightarrow> 'a mem \<Rightarrow> ('a mem, vector) result" where
  "Vector_ctor E sz m =
     and_then (RawMemory_ctor E sz m) (\<lambda>data m1.
       case uninitialized_value_construct_n E (GetAddress data) sz m1 of
         Inl e \<Rightarrow> Inl (unwind (RawMemory_dtor data) e)
       | Inr (u, m2) \<Rightarrow> Inr (\<lparr>m_data = data, m_size = sz\<rparr>, m2))"

text \<open>\<^verbatim>\<open>Vector(const Vector& other)\<close>\<close>

definition Vector_copy_ctor :: "'a elem_type \<Rightarrow> vector \<Rightarrow> 'a mem \<Rightarrow> ('a mem, vector) result" where
  "Vector_copy_ctor E other m =
     and_then (RawMemory_ctor E (m_size other) m) (\<lambda>data m1.
       case uninitialized_copy_n E (GetAddress (m_data other)) (m_size other) (GetAddress data) m1 of
         Inl e \<Rightarrow> Inl (unwind (RawMemory_dtor data) e)
       | Inr (u, m2) \<Rightarrow> Inr (\<lparr>m_data = data, m_size = m_size other\<rparr>, m2))"

text \<open>\<^verbatim>\<open>Vector(Vector&& other) noexcept\<close>: the new vector and what is left of \<open>other\<close>.\<close>

definition Vector_move_ctor :: "vector \<Rightarrow> vector \<times> vector" where
  "Vector_move_ctor other =
     (case RawMemory_move_ctor (m_data other) of
        (d, od) \<Rightarrow> (\<lparr>m_data = d, m_size = m_size other\<rparr>, other\<lparr>m_data := od, m_size := 0\<rparr>))"

definition Vector_Swap :: "vector \<Rightarrow> vector \<Rightarrow> vector \<times> vector" where
  "Vector_Swap this other =
     (case RawMemory_Swap (m_data this) (m_data other) of
        (d1, d2) \<Rightarrow>
          (this\<lparr>m_data := d1, m_size := m_size other\<rparr>, other\<lparr>m_data := d2, m_size := m_size this\<rparr>))"

text \<open>\<^verbatim>\<open>~Vector()\<close>, followed by the destructor of the member \<^verbatim>\<open>data_\<close>.\<close>

definition Vector_dtor :: "vector \<Rightarrow> 'a mem \<Rightarrow> ('a mem, unit) result" where
  "Vector_dtor this m =
     and_then (destroy_n (GetAddress (m_data this)) (m_size this) m) (\<lambda>u.
       RawMemory_dtor (m_data this))"

text \<open>\<^verbatim>\<open>Vector& operator=(const Vector& rhs)\<close>. \<open>rhs\<close> is not changed; the state is
  \<^verbatim>\<open>*this\<close>.\<close>

definition Vector_copy_assign ::
  "'a elem_type \<Rightarrow> vector \<Rightarrow> vector operand \<Rightarrow> 'a mem \<Rightarrow> (vector \<times> 'a mem, unit) result" where
  "Vector_copy_assign E this rhs m =
     (case rhs of
        This \<Rightarrow> Inr ((), (this, m))
      | Other r \<Rightarrow>
          if m_size r > RawMemory_Capacity (m_data this) then
            (case Vector_copy_ctor E r m of
               Inl e \<Rightarrow> Inl (map_error (Pair this) e)
             | Inr (rhs_copy, m1) \<Rightarrow>
                 (case Vector_Swap this rhs_copy of
                    (this1, rhs_copy1) \<Rightarrow> in_obj this1 (Vector_dtor rhs_copy1 m1)))
          else
            and_then
              (in_obj this
                (if m_size r \<ge> m_size this then
                   and_then
                     (copy_n E (GetAddress (m_data r)) (m_size this) (GetAddress (m_data this)) m)
                     (\<lambda>u. uninitialized_copy_n E
                             (ptr_add (GetAddress (m_data r)) (m_size this))
                             (m_size r - m_size this)
                             (ptr_add (GetAddress (m_data this)) (m_size this)))
                 else
                   and_then
                     (copy_n E (GetAddress (m_data r)) (m_size r) (GetAddress (m_data this)) m)
                     (\<lambda>u. destroy_n
                             (ptr_add (GetAddress (m_data this)) (m_size r))
                             (m_size this - m_size r))))
              (\<lambda>u s. Inr ((), ((fst s)\<lparr>m_size := m_size r\<rparr>, snd s))))"

text \<open>\<^verbatim>\<open>Vector& operator=(Vector&& rhs) noexcept\<close>: \<^verbatim>\<open>*this\<close> and \<open>rhs\<close> afterwards.\<close>

definition Vector_move_assign :: "vector \<Rightarrow> vector operand \<Rightarrow> vector \<times> vector operand" where
  "Vector_move_assign this rhs =
     (case rhs of
        This \<Rightarrow> (this, This)
      | Other r \<Rightarrow>
          (case RawMemory_Swap (m_data this) (m_data r) of
             (d1, d2) \<Rightarrow>
               (this\<lparr>m_data := d1, m_size := m_size r\<rparr>, Other (r\<lparr>m_data := d2, m_size := 0\<rparr>))))"

text \<open>The end of the scope of the local \<^verbatim>\<open>RawMemory<T> new_data\<close> after
  \<^verbatim>\<open>data_.Swap(new_data)\<close>: the vector takes the new block, the destructor of
  \<open>new_data\<close> releases the old one.\<close>

definition adopt :: "vector \<Rightarrow> raw_memory \<Rightarrow> 'a mem \<Rightarrow> (vector \<times> 'a mem, unit) result" where
  "adopt this new_data m =
     (case RawMemory_Swap (m_data this) new_data of
        (d, new_data1) \<Rightarrow> in_obj (this\<lparr>m_data := d\<rparr>) (RawMemory_dtor new_data1 m))"

text \<open>\<^verbatim>\<open>void Reserve(size_t new_capacity)\<close>\<close>

definition Reserve :: "'a elem_type \<Rightarrow> nat \<Rightarrow> vector \<Rightarrow> 'a mem \<Rightarrow> (vector \<times> 'a mem, unit) result" where
  "Reserve E new_capacity this m =
     (if new_capacity \<le> RawMemory_Capacity (m_data this) then Inr ((), (this, m))
      else
        (case RawMemory_ctor E new_capacity m of
           Inl e \<Rightarrow> Inl (map_error (Pair this) e)
         | Inr (new_data, m1) \<Rightarrow>
             (case and_then
                     (if nothrow_move_or_no_copy E
                      then uninitialized_move_n E (GetAddress (m_data this)) (m_size this)
                             (GetAddress new_data) m1
                      else uninitialized_copy_n E (GetAddress (m_data this)) (m_size this)
                             (GetAddress new_data) m1)
                     (\<lambda>u. destroy_n (GetAddress (m_data this)) (m_size this)) of
                Inl e \<Rightarrow> Inl (map_error (Pair this) (unwind (RawMemory_dtor new_data) e))
              | Inr (u, m2) \<Rightarrow> adopt this new_data m2)))"

text \<open>\<^verbatim>\<open>void Resize(size_t new_size)\<close>\<close>

definition Resize :: "'a elem_type \<Rightarrow> nat \<Rightarrow> vector \<Rightarrow> 'a mem \<Rightarrow> (vector \<times> 'a mem, unit) result" where
  "Resize E new_size this m =
     (if new_size = m_size this then Inr ((), (this, m))
      else if new_size < m_size this then
        and_then
          (in_obj this
             (destroy_n (ptr_add (GetAddress (m_data this)) new_size) (m_size this - new_size) m))
          (\<lambda>u s. Inr ((), ((fst s)\<lparr>m_size := new_size\<rparr>, snd s)))
      else
        and_then (Reserve E new_size this m) (\<lambda>u s.
          and_then
            (in_obj (fst s)
               (uninitialized_value_construct_n E
                  (ptr_add (GetAddress (m_data (fst s))) (m_size (fst s)))
                  (new_size - m_size this) (snd s)))
            (\<lambda>u s1. Inr ((), ((fst s1)\<lparr>m_size := new_size\<rparr>, snd s1)))))"

text \<open>The capacity the growth paths ask for: \<^verbatim>\<open>(size_ == 0) ? 1 : 2 * size_\<close>, in
  \<^verbatim>\<open>size_t\<close> arithmetic.\<close>

definition grown :: "nat \<Rightarrow> nat" where
  "grown sz = (if sz = 0 then 1 else (2 * sz) mod SIZE_MOD)"

text \<open>\<^verbatim>\<open>T& EmplaceBack(Args&&... args)\<close>. The result is the address of the new element,
  \<^verbatim>\<open>begin() + size_ - 1\<close>.\<close>

definition EmplaceBack ::
  "'a elem_type \<Rightarrow> 'a ctor_args \<Rightarrow> vector \<Rightarrow> 'a mem \<Rightarrow> (vector \<times> 'a mem, ptr) result" where
  "EmplaceBack E args this m =
     and_then
       (if m_size this = RawMemory_Capacity (m_data this) then
          (case RawMemory_ctor E (grown (m_size this)) m of
             Inl e \<Rightarrow> Inl (map_error (Pair this) e)
           | Inr (new_data, m1) \<Rightarrow>
               (case and_then
                       (construct_from args (ptr_add (GetAddress new_data) (m_size this)) m1)
                       (\<lambda>u m2.
                          and_then
                            (if nothrow_move_or_no_copy E
                             then uninitialized_move_n E (Vector_begin this) (m_size this)
                                    (GetAddress new_data) m2
                             else uninitialized_copy_n E (Vector_begin this) (m_size this)
                                    (GetAddress new_data) m2)
                            (\<lambda>u. destroy_n (Vector_begin this) (m_size this))) of
                  Inl e \<Rightarrow> Inl (map_error (Pair this) (unwind (RawMemory_dtor new_data) e))
                | Inr (u, m3) \<Rightarrow> adopt this new_data m3))
        else
          in_obj this (construct_from args (ptr_add (Vector_begin this) (m_size this)) m))
       (\<lambda>u s.
          (case s of
             (v, m4) \<Rightarrow>
               (case ptr_sub (ptr_add (Vector_begin v) ((m_size v + 1) mod SIZE_MOD)) 1 of
                  None \<Rightarrow> Inl (UB InvalidRange (v\<lparr>m_size := (m_size v + 1) mod SIZE_MOD\<rparr>, m4))
                | Some p \<Rightarrow> Inr (p, (v\<lparr>m_size := (m_size v + 1) mod SIZE_MOD\<rparr>, m4)))))"

text \<open>\<^verbatim>\<open>iterator Emplace(const_iterator pos, Args&&... args)\<close>. The position is given by
  its index \<^verbatim>\<open>std::distance(cbegin(), pos)\<close>, and so is the iterator returned. A position
  behind \<^verbatim>\<open>cend()\<close> makes \<^verbatim>\<open>std::distance(pos, cend())\<close> negative and every range of the
  function invalid.\<close>

definition Emplace ::
  "'a elem_type \<Rightarrow> nat \<Rightarrow> 'a forwarded \<Rightarrow> vector \<Rightarrow> 'a mem \<Rightarrow> (vector \<times> 'a mem, ptr) result" where
  "Emplace E index args this m =
     (if m_size this < index then Inl (UB InvalidRange (this, m))
      else
        and_then
          (if m_size this = RawMemory_Capacity (m_data this) then
             (case RawMemory_ctor E (grown (m_size this)) m of
                Inl e \<Rightarrow> Inl (map_error (Pair this) e)
              | Inr (new_data, m1) \<Rightarrow>
                  (case and_then
                          (construct_fwd E args (ptr_add (GetAddress new_data) index) m1)
                          (\<lambda>u m2.
                             and_then
                               (if nothrow_move_or_no_copy E then
                                  and_then
                                    (catch_all
                                       (uninitialized_move_n E (Vector_begin this) index
                                          (GetAddress new_data) m2)
                                       (destroy_n (Vector_begin this) index))
                                    (\<lambda>u m3.
                                       catch_all
                                         (uninitialized_move_n E
                                            (ptr_add (Vector_begin this) index)
                                            (m_size this - index)
                                            (ptr_add (ptr_add (GetAddress new_data) index) 1) m3)
                                         (destroy_n (ptr_add (Vector_begin this) index)
                                            (m_size this - index)))
                                else
                                  and_then
                                    (catch_all
                                       (uninitialized_copy_n E (Vector_begin this) index
                                          (GetAddress new_data) m2)
                                       (destroy_n (Vector_begin this) index))
                                    (\<lambda>u m3.
                                       catch_all
                                         (uninitialized_copy_n E
                                            (ptr_add (Vector_begin this) index)
                                            (m_size this - index)
                                            (ptr_add (ptr_add (GetAddress new_data) index) 1) m3)
                                         (destroy_n (ptr_add (Vector_begin this) index)
                                            (m_size this - index))))
                               (\<lambda>u. destroy_n (Vector_begin this) (m_size this))) of
                     Inl e \<Rightarrow> Inl (map_error (Pair this) (unwind (RawMemory_dtor new_data) e))
                   | Inr (u, m4) \<Rightarrow> adopt this new_data m4))
           else
             in_obj this
               (if m_size this \<noteq> index then
                  (case ptr_sub (Vector_end this) 1 of
                     None \<Rightarrow> Inl (UB InvalidRange m)
                   | Some back \<Rightarrow>
                       and_then (move_construct E back (Vector_end this) m) (\<lambda>u m1.
                         and_then
                           (move_backward E (ptr_add (Vector_begin this) index)
                              (m_size this - 1 - index) (Vector_end this) m1)
                           (\<lambda>u m2.
                              and_then (RawMemory_index (m_data this) index m2)
                                (assign_fwd E args))))
                else construct_fwd E args (ptr_add (Vector_begin this) index) m))
          (\<lambda>u s.
             (case s of
                (v, m5) \<Rightarrow>
                  Inr (ptr_add (Vector_begin v) index,
                       (v\<lparr>m_size := (m_size v + 1) mod SIZE_MOD\<rparr>, m5)))))"

text \<open>\<^verbatim>\<open>iterator Erase(const_iterator pos)\<close>, the position again by its index. With no
  element at \<open>pos\<close>, \<^verbatim>\<open>[begin() + index + 1, end())\<close> is not a range.\<close>

definition Erase ::
  "'a elem_type \<Rightarrow> nat \<Rightarrow> vector \<Rightarrow> 'a mem \<Rightarrow> (vector \<times> 'a mem, ptr) result" where
  "Erase E index this m =
     (if m_size this < index + 1 then Inl (UB InvalidRange (this, m))
      else
        and_then
          (in_obj this
             (and_then
                (move_range E (ptr_add (ptr_add (Vector_begin this) index) 1)
                   (m_size this - (index + 1)) (ptr_add (Vector_begin this) index) m)
                (\<lambda>u m1.
                   (case ptr_sub (Vector_end this) 1 of
                      None \<Rightarrow> Inl (UB InvalidRange m1)
                    | Some back \<Rightarrow> destroy_n back 1 m1))))
          (\<lambda>u s.
             (case s of
                (v, m2) \<Rightarrow>
                  Inr (ptr_add (Vector_begin v) index,
                       (v\<lparr>m_size := (m_size v + SIZE_MOD - 1) mod SIZE_MOD\<rparr>, m2)))))"

text \<open>\<^verbatim>\<open>iterator Insert(const_iterator pos, const T& value)\<close> and
  \<^verbatim>\<open>iterator Insert(const_iterator pos, T&& value)\<close>: \<^verbatim>\<open>Emplace(pos, value)\<close> and
  \<^verbatim>\<open>Emplace(pos, std::move(value))\<close>. The reference is passed on as it is.\<close>

definition Insert_copy ::
  "'a elem_type \<Rightarrow> nat \<Rightarrow> 'a reference \<Rightarrow> vector \<Rightarrow> 'a mem
     \<Rightarrow> (vector \<times> 'a mem, ptr) result" where
  "Insert_copy E index arg this m =
     Emplace E index
       (case arg of Object x \<Rightarrow> Args (copy_of E x) | Element p \<Rightarrow> Lvalue p) this m"

definition Insert_move ::
  "'a elem_type \<Rightarrow> nat \<Rightarrow> 'a reference \<Rightarrow> vector \<Rightarrow> 'a mem
     \<Rightarrow> (vector \<times> 'a mem, ptr) result" where
  "Insert_move E index arg this m =
     Emplace E index
       (case arg of Object x \<Rightarrow> Args (move_of E x) | Element p \<Rightarrow> Rvalue p) this m"

text \<open>The two overloads \<^verbatim>\<open>void PushBack(const T& value)\<close> and
  \<^verbatim>\<open>void PushBack(T&& value)\<close> have the same body but for the constructor call,
  \<^verbatim>\<open>T(value)\<close> or \<^verbatim>\<open>T(std::move(value))\<close>, which is the parameter here.\<close>

definition PushBack ::
  "'a elem_type \<Rightarrow> 'a ctor_args \<Rightarrow> vector \<Rightarrow> 'a mem \<Rightarrow> (vector \<times> 'a mem, unit) result" where
  "PushBack E args this m =
     and_then
       (if m_size this = Capacity this then
          (case RawMemory_ctor E
                  (if m_size this = 0 then 1 else (m_size this * 2) mod SIZE_MOD) m of
             Inl e \<Rightarrow> Inl (map_error (Pair this) e)
           | Inr (new_data, m1) \<Rightarrow>
               (case and_then (RawMemory_plus new_data (m_size this) m1) (\<lambda>p m2.
                       and_then (construct_from args p m2) (\<lambda>u m3.
                         and_then
                           (if nothrow_move_or_no_copy E
                            then uninitialized_move_n E (GetAddress (m_data this)) (m_size this)
                                   (GetAddress new_data) m3
                            else uninitialized_copy_n E (GetAddress (m_data this)) (m_size this)
                                   (GetAddress new_data) m3)
                           (\<lambda>u. destroy_n (GetAddress (m_data this)) (m_size this)))) of
                  Inl e \<Rightarrow> Inl (map_error (Pair this) (unwind (RawMemory_dtor new_data) e))
                | Inr (u, m4) \<Rightarrow> adopt this new_data m4))
        else
          in_obj this
            (and_then (RawMemory_plus (m_data this) (m_size this) m) (construct_from args)))
       (\<lambda>u s. Inr ((), ((fst s)\<lparr>m_size := (m_size (fst s) + 1) mod SIZE_MOD\<rparr>, snd s)))"

definition PushBack_copy ::
  "'a elem_type \<Rightarrow> 'a \<Rightarrow> vector \<Rightarrow> 'a mem \<Rightarrow> (vector \<times> 'a mem, unit) result" where
  "PushBack_copy E x this m = PushBack E (copy_of E x) this m"

definition PushBack_move ::
  "'a elem_type \<Rightarrow> 'a \<Rightarrow> vector \<Rightarrow> 'a mem \<Rightarrow> (vector \<times> 'a mem, unit) result" where
  "PushBack_move E x this m = PushBack E (move_of E x) this m"

text \<open>\<^verbatim>\<open>void PopBack()\<close>: \<^verbatim>\<open>data_[size_ - 1].~T(); size_--;\<close>\<close>

definition PopBack :: "vector \<Rightarrow> 'a mem \<Rightarrow> (vector \<times> 'a mem, unit) result" where
  "PopBack this m =
     and_then
       (in_obj this
          (and_then
             (RawMemory_index (m_data this) ((m_size this + SIZE_MOD - 1) mod SIZE_MOD) m)
             destroy_at))
       (\<lambda>u s. Inr ((), ((fst s)\<lparr>m_size := (m_size (fst s) + SIZE_MOD - 1) mod SIZE_MOD\<rparr>, snd s)))"

text \<open>\<^verbatim>\<open>T& operator[](size_t index)\<close>\<close>

definition Vector_index :: "vector \<Rightarrow> nat \<Rightarrow> 'a mem \<Rightarrow> ('a mem, ptr) result" where
  "Vector_index this index m =
     (if index < m_size this then RawMemory_index (m_data this) index m
      else Inl (UB AssertFailed m))"

section \<open>What a vector holds\<close>

text \<open>The slots of the block the vector's buffer points to, and the first \<open>Size\<close> of them.\<close>

definition slots_of :: "'a mem \<Rightarrow> raw_memory \<Rightarrow> 'a option list" where
  "slots_of m d =
     (case m_buffer d of
        Null \<Rightarrow> []
      | Ptr a i \<Rightarrow> (case block_at m a of None \<Rightarrow> [] | Some ss \<Rightarrow> drop i ss))"

definition elems :: "'a mem \<Rightarrow> vector \<Rightarrow> 'a option list" where
  "elems m v = take (m_size v) (slots_of m (m_data v))"

text \<open>The number of live elements in the vector's buffer.\<close>

definition live_count :: "'a mem \<Rightarrow> vector \<Rightarrow> nat" where
  "live_count m v = length (filter (\<lambda>s. s \<noteq> None) (slots_of m (m_data v)))"

text \<open>The invariant of \<^verbatim>\<open>RawMemory\<close>: no capacity and no block, or a block of its own with
  \<open>m_capacity\<close> slots.\<close>

definition raw_ok :: "'a mem \<Rightarrow> raw_memory \<Rightarrow> bool" where
  "raw_ok m d =
     (case m_buffer d of
        Null \<Rightarrow> m_capacity d = 0
      | Ptr a i \<Rightarrow>
          i = 0 \<and> m_capacity d \<noteq> 0 \<and>
          (case block_at m a of None \<Rightarrow> False | Some ss \<Rightarrow> length ss = m_capacity d))"

text \<open>\<^verbatim>\<open>PTRDIFF_MAX\<close>: no block has more bytes.\<close>

definition PTRDIFF_MAX :: nat where
  "PTRDIFF_MAX = 2 ^ 63 - 1"

text \<open>The invariant of \<^verbatim>\<open>Vector\<close>: the buffer is in order and its byte count is one that
  \<^verbatim>\<open>operator new\<close> grants, the first \<open>m_size\<close> slots hold live elements, the rest of the
  block is raw storage. \<^verbatim>\<open>sizeof(T)\<close> is a positive \<^verbatim>\<open>size_t\<close>.\<close>

definition wf :: "'a elem_type \<Rightarrow> 'a mem \<Rightarrow> vector \<Rightarrow> bool" where
  "wf E m v =
     (raw_ok m (m_data v) \<and>
      m_size v \<le> m_capacity (m_data v) \<and>
      m_capacity (m_data v) * sizeof E \<le> alloc_limit E \<and>
      alloc_limit E \<le> PTRDIFF_MAX \<and>
      0 < sizeof E \<and> sizeof E < SIZE_MOD \<and>
      list_all (\<lambda>s. s \<noteq> None) (take (m_size v) (slots_of m (m_data v))) \<and>
      list_all (\<lambda>s. s = None) (drop (m_size v) (slots_of m (m_data v))))"

text \<open>\<^verbatim>\<open>T = int\<close>: nothing throws, a moved-from \<^verbatim>\<open>int\<close> keeps its value, four bytes.
  The heap grants up to \<open>2 ^ 47\<close> bytes, the user address space of a 64-bit process.\<close>

definition int_type :: "int elem_type" where
  "int_type =
     \<lparr>is_nothrow_move_constructible = True, is_copy_constructible = True,
      copy_ctor_throws = (\<lambda>x. False), move_ctor_throws = (\<lambda>x. False),
      copy_assign_throws = (\<lambda>x. False), move_assign_throws = (\<lambda>x. False),
      value_init = Yields 0, moved_from = (\<lambda>x. x), sizeof = 4, alloc_limit = 2 ^ 47\<rparr>"

definition empty_mem :: "'a mem" where
  "empty_mem = \<lparr>blocks = [], journal = []\<rparr>"

text \<open>A type whose copy constructor throws when it is asked to copy the value 13, and
  whose move constructor is not \<^verbatim>\<open>noexcept\<close>: the \<^verbatim>\<open>if constexpr\<close> takes the copying
  branch.\<close>

definition unlucky_type :: "int elem_type" where
  "unlucky_type =
     \<lparr>is_nothrow_move_constructible = False, is_copy_constructible = True,
      copy_ctor_throws = (\<lambda>x. x = 13), move_ctor_throws = (\<lambda>x. False),
      copy_assign_throws = (\<lambda>x. False), move_assign_throws = (\<lambda>x. False),
      value_init = Yields 0, moved_from = (\<lambda>x. x), sizeof = 4, alloc_limit = 2 ^ 47\<rparr>"

text \<open>Running a member function on the vector and store a previous call has left.\<close>

definition then_do ::
  "(vector \<times> 'a mem, 'r) result \<Rightarrow> (vector \<Rightarrow> 'a mem \<Rightarrow> (vector \<times> 'a mem, 'q) result)
     \<Rightarrow> (vector \<times> 'a mem, 'q) result" where
  "then_do r f = and_then r (\<lambda>u s. f (fst s) (snd s))"

text \<open>The element sequence and the size a call has left, when it returned.\<close>

definition seq_after :: "(vector \<times> 'a mem, 'r) result \<Rightarrow> 'a option list option" where
  "seq_after r = (case r of Inl e \<Rightarrow> None | Inr (x, s) \<Rightarrow> Some (elems (snd s) (fst s)))"

definition size_after :: "(vector \<times> 'a mem, 'r) result \<Rightarrow> nat option" where
  "size_after r = (case r of Inl e \<Rightarrow> None | Inr (x, s) \<Rightarrow> Some (Size (fst s)))"

text \<open>The state a call leaves, whatever its outcome: where it returned, where the
  exception left it, or where the execution stopped.\<close>

definition outcome_state :: "('s, 'r) result \<Rightarrow> 's" where
  "outcome_state r =
     (case r of Inl (Throw x s) \<Rightarrow> s | Inl (UB u s) \<Rightarrow> s | Inr (x, s) \<Rightarrow> s)"

text \<open>The steps of the scenario of the specification, each run on what the step before has left.\<close>

definition scenario_appended :: "(vector \<times> int mem, ptr) result" where
  "scenario_appended =
     then_do (then_do (EmplaceBack int_type (Yields 1) Vector_default empty_mem)
                (EmplaceBack int_type (Yields 2)))
       (EmplaceBack int_type (Yields 3))"

definition scenario_pushed :: "(vector \<times> int mem, unit) result" where
  "scenario_pushed =
     then_do (then_do (PushBack_copy int_type 1 Vector_default empty_mem)
                (PushBack_copy int_type 2))
       (PushBack_copy int_type 3)"

definition scenario_inserted :: "(vector \<times> int mem, ptr) result" where
  "scenario_inserted = then_do scenario_appended (Insert_copy int_type 1 (Object 9))"

definition scenario_erased :: "(vector \<times> int mem, ptr) result" where
  "scenario_erased = then_do scenario_inserted (Erase int_type 0)"

definition scenario_resized :: "(vector \<times> int mem, unit) result" where
  "scenario_resized = then_do scenario_erased (Resize int_type 5)"

definition scenario_popped :: "(vector \<times> int mem, unit) result" where
  "scenario_popped = then_do (then_do scenario_resized PopBack) PopBack"

section \<open>Basic facts\<close>

lemma and_then_Inr [simp]: "and_then (Inr (x, s)) f = f x s"
  by (simp add: and_then_def)

lemma and_then_Inl [simp]: "and_then (Inl e) f = Inl e"
  by (simp add: and_then_def)

lemma in_obj_Inr [simp]: "in_obj v (Inr (x, m)) = Inr (x, (v, m))"
  by (simp add: in_obj_def)

lemma in_obj_Inl [simp]: "in_obj v (Inl e) = Inl (map_error (Pair v) e)"
  by (simp add: in_obj_def)

lemma unwind_simps [simp]:
  "unwind c (UB u s) = UB u s"
  "unwind c (Throw x s) = (case c s of Inl err \<Rightarrow> err | Inr (u, s') \<Rightarrow> Throw x s')"
  by (simp_all add: unwind_def)

lemma catch_all_simps [simp]:
  "catch_all (Inr r) h = Inr r"
  "catch_all (Inl (UB u s)) h = Inl (UB u s)"
  "catch_all (Inl (Throw x s)) h = h s"
  by (simp_all add: catch_all_def)

lemma outcome_state_simps [simp]:
  "outcome_state (Inr (x, s)) = s"
  "outcome_state (Inl (Throw e s)) = s"
  "outcome_state (Inl (UB u s)) = s"
  by (simp_all add: outcome_state_def)

lemma outcome_map_error [simp]: "fst (outcome_state (Inl (map_error (Pair v) e))) = v"
  by (cases e) simp_all

lemma outcome_in_obj [simp]: "fst (outcome_state (in_obj v r)) = v"
  by (cases r) (auto simp: in_obj_def)

lemma forwarded_Args [simp]:
  "construct_fwd E (Args a) = construct_from a"
  "assign_fwd E (Args a) = assign_from E a"
  by (rule ext, rule ext, simp add: construct_fwd_def assign_fwd_def)+

lemma SIZE_MOD_facts [simp]: "SIZE_MOD \<noteq> Suc 0" "SIZE_MOD \<noteq> 0" "0 < SIZE_MOD"
  "4 < SIZE_MOD"
  by (simp_all add: SIZE_MOD_def)

lemma size_mod_small: "n < 2 ^ 64 \<Longrightarrow> n mod SIZE_MOD = n"
  by (simp add: SIZE_MOD_def)

lemmas prim_defs = block_at_def slot_def set_slot_def record_event_def load_def construct_at_def
  assign_at_def destroy_at_def construct_from_def copy_of_def move_of_def value_construct_def
  copy_construct_def move_construct_def copy_assign_def move_assign_def assign_from_def
  construct_fwd_def assign_fwd_def
  move_throws_def

lemmas algo_defs = destroy_n_def copy_n_def move_range_def move_backward_def
  uninitialized_copy_n_def uninitialized_move_n_def uninitialized_value_construct_n_def

lemmas raw_defs = RawMemory_default_def operator_new_def Allocate_def Deallocate_def RawMemory_ctor_def
  RawMemory_move_ctor_def RawMemory_Swap_def RawMemory_move_assign_def RawMemory_dtor_def
  RawMemory_plus_def RawMemory_index_def GetAddress_def RawMemory_Capacity_def

lemmas vec_defs = Vector_default_def Size_def Capacity_def Vector_begin_def Vector_end_def
  nothrow_move_or_no_copy_def Vector_ctor_def Vector_copy_ctor_def Vector_move_ctor_def
  Vector_Swap_def Vector_dtor_def Vector_copy_assign_def Vector_move_assign_def adopt_def
  Reserve_def Resize_def grown_def EmplaceBack_def Emplace_def Erase_def Insert_copy_def
  Insert_move_def PushBack_def PushBack_copy_def PushBack_move_def PopBack_def Vector_index_def

lemmas obs_defs = slots_of_def elems_def live_count_def raw_ok_def wf_def PTRDIFF_MAX_def
  then_do_def seq_after_def size_after_def

subsection \<open>Evaluation on concrete stores\<close>

lemma replicate_numeral_unfold: "replicate (numeral k) x = x # replicate (pred_numeral k) x"
  by (simp add: numeral_eq_Suc)

lemma list_update_numeral_unfold: "(x # xs)[numeral k := y] = x # xs[pred_numeral k := y]"
  by (simp add: numeral_eq_Suc)

lemma uninitialized_loop_numeral:
  "uninitialized_loop ctor first d_first cnt (numeral k) m =
     (case ctor (ptr_add first cnt) (ptr_add d_first cnt) m of
        Inl (Throw x m') \<Rightarrow>
          (case destroy_n d_first cnt m' of
             Inl err \<Rightarrow> Inl err
           | Inr (u, m'') \<Rightarrow> Inl (Throw x m''))
      | Inl (UB u m') \<Rightarrow> Inl (UB u m')
      | Inr (u, m') \<Rightarrow> uninitialized_loop ctor first d_first (Suc cnt) (pred_numeral k) m')"
  by (simp add: numeral_eq_Suc)

lemma size_mod_Suc:
  "Suc SIZE_MOD mod SIZE_MOD = 1" "Suc (Suc SIZE_MOD) mod SIZE_MOD = 2"
  by (simp_all add: SIZE_MOD_def)

lemmas eval_simps = replicate_numeral_unfold list_update_numeral_unfold uninitialized_loop_numeral
  size_mod_small size_mod_Suc upt_conv_Cons

section \<open>The store under the algorithms\<close>

subsection \<open>Primitive operations on a known block\<close>

lemma block_at_Some_less: "block_at m a = Some ss \<Longrightarrow> a < length (blocks m)"
  by (simp add: block_at_def split: if_splits)

lemma block_at_set_block [simp]:
  "block_at (m\<lparr>blocks := (blocks m)[a := Some ss]\<rparr>) b =
     (if b = a \<and> a < length (blocks m) then Some ss else block_at m b)"
  by (simp add: block_at_def)

lemma block_at_journal_update [simp]: "block_at (m\<lparr>journal := j\<rparr>) b = block_at m b"
  by (simp add: block_at_def)

lemma load_block:
  "block_at m a = Some ss \<Longrightarrow> i < length ss \<Longrightarrow> ss ! i = Some x \<Longrightarrow> load (Ptr a i) m = Inr (x, m)"
  by (simp add: load_def slot_def)

lemma load_raw:
  "block_at m a = Some ss \<Longrightarrow> i < length ss \<Longrightarrow> ss ! i = None
     \<Longrightarrow> load (Ptr a i) m = Inl (UB (NotAlive (Ptr a i)) m)"
  by (simp add: load_def slot_def)

lemma set_slot_block:
  "block_at m a = Some ss \<Longrightarrow> set_slot (Ptr a i) s m = m\<lparr>blocks := (blocks m)[a := Some (ss[i := s])]\<rparr>"
  by (simp add: set_slot_def)

lemma construct_at_block:
  "block_at m a = Some ss \<Longrightarrow> i < length ss \<Longrightarrow>
   construct_at k (Ptr a i) x m =
     Inr ((), m\<lparr>blocks := (blocks m)[a := Some (ss[i := Some x])],
                journal := journal m @ [Ctor k (Ptr a i)]\<rparr>)"
  by (simp add: construct_at_def slot_def set_slot_def record_event_def)

lemma assign_at_block:
  "block_at m a = Some ss \<Longrightarrow> i < length ss \<Longrightarrow> ss ! i = Some old \<Longrightarrow>
   assign_at k (Ptr a i) x m =
     Inr ((), m\<lparr>blocks := (blocks m)[a := Some (ss[i := Some x])],
                journal := journal m @ [Assign k (Ptr a i)]\<rparr>)"
  by (simp add: assign_at_def slot_def set_slot_def record_event_def)

lemma destroy_at_block:
  "block_at m a = Some ss \<Longrightarrow> i < length ss \<Longrightarrow> ss ! i = Some old \<Longrightarrow>
   destroy_at (Ptr a i) m =
     Inr ((), m\<lparr>blocks := (blocks m)[a := Some (ss[i := None])],
                journal := journal m @ [Dtor (Ptr a i)]\<rparr>)"
  by (simp add: destroy_at_def slot_def set_slot_def record_event_def)

lemma destroy_at_raw:
  "block_at m a = Some ss \<Longrightarrow> i < length ss \<Longrightarrow> ss ! i = None \<Longrightarrow>
   destroy_at (Ptr a i) m = Inl (UB (NotAlive (Ptr a i)) m)"
  by (simp add: destroy_at_def slot_def)

lemma load_at:
  "block_at m a = Some (p @ Some x # s) \<Longrightarrow> c = length p \<Longrightarrow> load (Ptr a c) m = Inr (x, m)"
  by (simp add: load_block)

lemma load_at_raw:
  "block_at m a = Some (p @ None # s) \<Longrightarrow> c = length p
     \<Longrightarrow> load (Ptr a c) m = Inl (UB (NotAlive (Ptr a c)) m)"
  by (simp add: load_raw)

lemma set_slot_at:
  "block_at m a = Some (p @ old # s) \<Longrightarrow> c = length p \<Longrightarrow>
   set_slot (Ptr a c) new m = m\<lparr>blocks := (blocks m)[a := Some (p @ new # s)]\<rparr>"
  by (simp add: set_slot_block)

lemma construct_at_at:
  "block_at m a = Some (p @ old # s) \<Longrightarrow> c = length p \<Longrightarrow>
   construct_at k (Ptr a c) x m =
     Inr ((), m\<lparr>blocks := (blocks m)[a := Some (p @ Some x # s)],
                journal := journal m @ [Ctor k (Ptr a c)]\<rparr>)"
  by (simp add: construct_at_block)

lemma assign_at_at:
  "block_at m a = Some (p @ Some old # s) \<Longrightarrow> c = length p \<Longrightarrow>
   assign_at k (Ptr a c) x m =
     Inr ((), m\<lparr>blocks := (blocks m)[a := Some (p @ Some x # s)],
                journal := journal m @ [Assign k (Ptr a c)]\<rparr>)"
  by (simp add: assign_at_block)

lemma destroy_at_at:
  "block_at m a = Some (p @ Some old # s) \<Longrightarrow> c = length p \<Longrightarrow>
   destroy_at (Ptr a c) m =
     Inr ((), m\<lparr>blocks := (blocks m)[a := Some (p @ None # s)],
                journal := journal m @ [Dtor (Ptr a c)]\<rparr>)"
  by (simp add: destroy_at_block)

lemma destroy_at_at_raw:
  "block_at m a = Some (p @ None # s) \<Longrightarrow> c = length p \<Longrightarrow>
   destroy_at (Ptr a c) m = Inl (UB (NotAlive (Ptr a c)) m)"
  by (simp add: destroy_at_raw)

subsection \<open>destroy_n\<close>

lemma for_each_append:
  "for_each f (xs @ ys) s = (case for_each f xs s of Inl e \<Rightarrow> Inl e | Inr (u, s') \<Rightarrow> for_each f ys s')"
  by (induction xs arbitrary: s) (auto split: sum.splits)

lemma for_each_map: "for_each f (map g xs) s = for_each (\<lambda>i. f (g i)) xs s"
  by (induction xs arbitrary: s) (auto split: sum.splits)

lemma for_each_upt_Suc:
  "for_each f [0..<Suc n] s =
     (case f 0 s of Inl e \<Rightarrow> Inl e | Inr (u, s') \<Rightarrow> for_each (\<lambda>i. f (Suc i)) [0..<n] s')"
proof -
  have "[0..<Suc n] = 0 # map Suc [0..<n]"
    by (simp add: upt_conv_Cons map_Suc_upt del: upt_Suc)
  then show ?thesis
    by (simp add: for_each_map del: upt_Suc split: sum.splits)
qed

lemma set_block_same:
  "block_at m a = Some ss \<Longrightarrow> m\<lparr>blocks := (blocks m)[a := Some ss]\<rparr> = m"
  by (simp add: block_at_def list_update_same_conv split: if_splits)


lemma destroy_loop_ok:
  "block_at m a = Some (p @ map Some xs @ s) \<Longrightarrow>
   for_each (\<lambda>i. destroy_at (Ptr a (length p + i))) [0..<length xs] m =
     Inr ((), m\<lparr>blocks := (blocks m)[a := Some (p @ replicate (length xs) None @ s)],
                journal := journal m @ map (\<lambda>i. Dtor (Ptr a (length p + i))) [0..<length xs]\<rparr>)"
proof (induction xs arbitrary: p m)
  case Nil
  then show ?case 
    by (simp add: set_block_same)
next
  case (Cons x xs)
  let ?m1 = "m\<lparr>blocks := (blocks m)[a := Some ((p @ [None]) @ map Some xs @ s)],
                journal := journal m @ [Dtor (Ptr a (length p))]\<rparr>"
  have step: "destroy_at (Ptr a (length p)) m = Inr ((), ?m1)"
    using Cons.prems by (simp add: destroy_at_at [where old = x])
  have b1: "block_at ?m1 a = Some ((p @ [None]) @ map Some xs @ s)"
    using Cons.prems by (simp add: block_at_Some_less)
  have ev: "map (\<lambda>i. Dtor (Ptr a (length p + i))) [0..<Suc (length xs)]
        = Dtor (Ptr a (length p)) # map (\<lambda>i. Dtor (Ptr a (Suc (length p + i)))) [0..<length xs]"
    by (simp add: upt_conv_Cons map_Suc_upt [symmetric] del: upt_Suc) 
  show ?case
    using Cons.IH [OF b1] step ev
    by (simp add: for_each_upt_Suc replicate_append_same del: upt_Suc)
qed


lemma map_upt_Suc_shift: "map f [0..<Suc n] = f 0 # map (\<lambda>i. f (Suc i)) [0..<n]"
proof -
  have "[0..<Suc n] = 0 # map Suc [0..<n]"
    by (simp add: upt_conv_Cons map_Suc_upt del: upt_Suc)
  then show ?thesis
    by (simp del: upt_Suc)
qed

lemma destroy_n_ok:
  "block_at m a = Some (p @ map Some xs @ s) \<Longrightarrow> c = length p \<Longrightarrow> n = length xs \<Longrightarrow>
   destroy_n (Ptr a c) n m =
     Inr ((), m\<lparr>blocks := (blocks m)[a := Some (p @ replicate (length xs) None @ s)],
                journal := journal m @ map (\<lambda>i. Dtor (Ptr a (length p + i))) [0..<length xs]\<rparr>)"
  by (simp add: destroy_n_def destroy_loop_ok)

lemma destroy_n_0 [simp]: "destroy_n p 0 m = Inr ((), m)"
  by (simp add: destroy_n_def)

subsection \<open>The uninitialized algorithms\<close>

lemma uninitialized_loop_0 [simp]: "uninitialized_loop ctor first d_first cnt 0 m = Inr ((), m)"
  by simp

lemma copy_loop:
  assumes "block_at m a = Some (pa @ map Some xs @ sa)" "block_at m b = Some (pb @ old @ sb)"
    and "a \<noteq> b" "length old = length xs" "length pa = i + cnt" "length pb = j + cnt"
  shows "if list_all (\<lambda>x. \<not> copy_ctor_throws E x) xs
         then uninitialized_loop (copy_construct E) (Ptr a i) (Ptr b j) cnt (length xs) m =
                Inr ((), m\<lparr>blocks := (blocks m)[b := Some (pb @ map Some xs @ sb)],
                           journal := journal m @
                             map (\<lambda>t. Ctor Copy (Ptr b (length pb + t))) [0..<length xs]\<rparr>)
         else isl (uninitialized_loop (copy_construct E) (Ptr a i) (Ptr b j) cnt (length xs) m)"
  using assms
proof (induction xs arbitrary: pa pb old cnt m)
  case Nil
  then show ?case by (simp add: set_block_same)
next
  case (Cons x xs)
  obtain o' old' where old: "old = o' # old'"
    using Cons.prems(4) by (cases old) auto
  have ld: "load (Ptr a (i + cnt)) m = Inr (x, m)"
    using Cons.prems(1) Cons.prems(5) by (intro load_at [where p = pa and s = "map Some xs @ sa"]) simp_all
  show ?case
  proof (cases "copy_ctor_throws E x")
    case True
    then show ?thesis
      using ld by (simp add: copy_construct_def split: sum.splits prod.splits)
  next
    case False
    let ?m1 = "m\<lparr>blocks := (blocks m)[b := Some ((pb @ [Some x]) @ old' @ sb)],
                  journal := journal m @ [Ctor Copy (Ptr b (length pb))]\<rparr>"
    have cs: "construct_at Copy (Ptr b (j + cnt)) x m = Inr ((), ?m1)"
      using Cons.prems(2) Cons.prems(6) old
        construct_at_at [of m b pb o' "old' @ sb" "j + cnt" Copy x]
      by simp
    have step: "copy_construct E (Ptr a (i + cnt)) (Ptr b (j + cnt)) m = Inr ((), ?m1)"
      using ld cs False by (simp add: copy_construct_def)
    have a1: "block_at ?m1 a = Some ((pa @ [Some x]) @ map Some xs @ sa)"
      using Cons.prems(1) Cons.prems(3) by simp
    have b1: "block_at ?m1 b = Some ((pb @ [Some x]) @ old' @ sb)"
      using Cons.prems(2) by (simp add: block_at_Some_less)
    have IH: "if list_all (\<lambda>x. \<not> copy_ctor_throws E x) xs
         then uninitialized_loop (copy_construct E) (Ptr a i) (Ptr b j) (Suc cnt) (length xs) ?m1 =
                Inr ((), ?m1\<lparr>blocks := (blocks ?m1)[b := Some ((pb @ [Some x]) @ map Some xs @ sb)],
                           journal := journal ?m1 @
                             map (\<lambda>t. Ctor Copy (Ptr b (length (pb @ [Some x]) + t))) [0..<length xs]\<rparr>)
         else isl (uninitialized_loop (copy_construct E) (Ptr a i) (Ptr b j) (Suc cnt) (length xs) ?m1)"
      using Cons.prems(3,4,5,6) old
      by (intro Cons.IH [OF a1 b1]) simp_all
    show ?thesis
      using IH step False
      by (simp add: map_upt_Suc_shift del: upt_Suc split: if_splits)
  qed
qed


lemma list_update_pair_overwrite:
  "a \<noteq> b \<Longrightarrow> xs[b := x, a := y, b := x', a := y'] = xs[b := x', a := y']"
proof -
  assume ab: "a \<noteq> b"
  have "xs[b := x, a := y, b := x'] = xs[b := x', a := y]"
    using ab by (simp add: list_update_swap [of a b])
  then show ?thesis by simp
qed

lemma set_block_same2:
  "block_at m a = Some sa \<Longrightarrow> block_at m b = Some sb \<Longrightarrow>
   m\<lparr>blocks := (blocks m)[b := Some sb, a := Some sa]\<rparr> = m"
proof -
  assume a: "block_at m a = Some sa" and b: "block_at m b = Some sb"
  have "(blocks m)[b := Some sb] = blocks m"
    using b by (simp add: block_at_def list_update_same_conv split: if_splits)
  moreover have "(blocks m)[a := Some sa] = blocks m"
    using a by (simp add: block_at_def list_update_same_conv split: if_splits)
  ultimately show ?thesis by simp
qed

lemma move_construct_at:
  assumes "block_at m a = Some (pa @ Some x # sa)" "block_at m b = Some (pb @ old # sb)"
    and "a \<noteq> b" "ca = length pa" "cb = length pb" "\<not> move_throws E x"
  shows "move_construct E (Ptr a ca) (Ptr b cb) m =
           Inr ((), m\<lparr>blocks := (blocks m)[b := Some (pb @ Some x # sb),
                                             a := Some (pa @ Some (moved_from E x) # sa)],
                      journal := journal m @ [Ctor Move (Ptr b cb)]\<rparr>)"
proof -
  let ?m1 = "m\<lparr>blocks := (blocks m)[b := Some (pb @ Some x # sb)],
                journal := journal m @ [Ctor Move (Ptr b cb)]\<rparr>"
  have ld: "load (Ptr a ca) m = Inr (x, m)"
    using assms(1,4) by (rule load_at)
  have cs: "construct_at Move (Ptr b cb) x m = Inr ((), ?m1)"
    using assms(2,5) by (rule construct_at_at)
  have a1: "block_at ?m1 a = Some (pa @ Some x # sa)"
    using assms(1,3) by simp
  have "set_slot (Ptr a ca) (Some (moved_from E x)) ?m1 =
          ?m1\<lparr>blocks := (blocks ?m1)[a := Some (pa @ Some (moved_from E x) # sa)]\<rparr>"
    using a1 assms(4) by (rule set_slot_at)
  then show ?thesis
    using ld cs assms(6) by (simp add: move_construct_def)
qed

lemma move_construct_throws:
  assumes "block_at m a = Some (pa @ Some x # sa)" "ca = length pa" "move_throws E x"
  shows "move_construct E (Ptr a ca) dst m = Inl (Throw ElemThrow m)"
proof -
  have ld: "load (Ptr a ca) m = Inr (x, m)"
    using assms(1,2) by (rule load_at)
  then show ?thesis
    using assms(3) by (simp add: move_construct_def)
qed

lemma move_loop:
  assumes "block_at m a = Some (pa @ map Some xs @ sa)" "block_at m b = Some (pb @ old @ sb)"
    and "a \<noteq> b" "length old = length xs" "length pa = i + cnt" "length pb = j + cnt"
  shows "if list_all (\<lambda>x. \<not> move_throws E x) xs
         then uninitialized_loop (move_construct E) (Ptr a i) (Ptr b j) cnt (length xs) m =
                Inr ((), m\<lparr>blocks := (blocks m)[b := Some (pb @ map Some xs @ sb),
                             a := Some (pa @ map (\<lambda>x. Some (moved_from E x)) xs @ sa)],
                           journal := journal m @
                             map (\<lambda>t. Ctor Move (Ptr b (length pb + t))) [0..<length xs]\<rparr>)
         else isl (uninitialized_loop (move_construct E) (Ptr a i) (Ptr b j) cnt (length xs) m)"
  using assms
proof (induction xs arbitrary: pa pb old cnt m)
  case Nil
  then show ?case by (simp add: set_block_same2)
next
  case (Cons x xs)
  obtain o' old' where old: "old = o' # old'"
    using Cons.prems(4) by (cases old) auto
  have a0: "block_at m a = Some (pa @ Some x # map Some xs @ sa)"
    using Cons.prems(1) by simp
  have b0: "block_at m b = Some (pb @ o' # old' @ sb)"
    using Cons.prems(2) old by simp
  show ?case
  proof (cases "move_throws E x")
    case True
    have "move_construct E (Ptr a (i + cnt)) (Ptr b (j + cnt)) m = Inl (Throw ElemThrow m)"
      using a0 Cons.prems(5) [symmetric] True by (rule move_construct_throws)
    then show ?thesis
      using True by (simp split: sum.splits prod.splits)
  next
    case False
    let ?m1 = "m\<lparr>blocks := (blocks m)[b := Some ((pb @ [Some x]) @ old' @ sb),
                                       a := Some ((pa @ [Some (moved_from E x)]) @ map Some xs @ sa)],
                  journal := journal m @ [Ctor Move (Ptr b (length pb))]\<rparr>"
    have step: "move_construct E (Ptr a (i + cnt)) (Ptr b (j + cnt)) m = Inr ((), ?m1)"
      using move_construct_at [OF a0 b0 Cons.prems(3) _ _ False, of "i + cnt" "j + cnt"]
        Cons.prems(5,6) by simp
    have la: "a < length (blocks m)" and lb: "b < length (blocks m)"
      using a0 b0 by (simp_all add: block_at_Some_less)
    have a1: "block_at ?m1 a = Some ((pa @ [Some (moved_from E x)]) @ map Some xs @ sa)"
      using la by (simp add: block_at_def)
    have b1: "block_at ?m1 b = Some ((pb @ [Some x]) @ old' @ sb)"
      using lb Cons.prems(3) by (simp add: block_at_def)
    have IH: "if list_all (\<lambda>x. \<not> move_throws E x) xs
         then uninitialized_loop (move_construct E) (Ptr a i) (Ptr b j) (Suc cnt) (length xs) ?m1 =
                Inr ((), ?m1\<lparr>blocks := (blocks ?m1)[b := Some ((pb @ [Some x]) @ map Some xs @ sb),
                             a := Some ((pa @ [Some (moved_from E x)]) @
                                        map (\<lambda>x. Some (moved_from E x)) xs @ sa)],
                           journal := journal ?m1 @
                             map (\<lambda>t. Ctor Move (Ptr b (length (pb @ [Some x]) + t))) [0..<length xs]\<rparr>)
         else isl (uninitialized_loop (move_construct E) (Ptr a i) (Ptr b j) (Suc cnt) (length xs) ?m1)"
      using Cons.prems(3,4,5,6) old
      by (intro Cons.IH [OF a1 b1]) simp_all
    show ?thesis
      using IH step False Cons.prems(3)
      by (simp add: map_upt_Suc_shift list_update_pair_overwrite del: upt_Suc split: if_splits)
  qed
qed

lemma value_loop:
  assumes "block_at m b = Some (pb @ old @ sb)" "length pb = j + cnt"
  shows "case value_init E of
           Yields d \<Rightarrow>
             uninitialized_loop (value_construct E) Null (Ptr b j) cnt (length old) m =
                Inr ((), m\<lparr>blocks := (blocks m)[b := Some (pb @ replicate (length old) (Some d) @ sb)],
                           journal := journal m @
                             map (\<lambda>t. Ctor ValueInit (Ptr b (length pb + t))) [0..<length old]\<rparr>)
         | Throwing \<Rightarrow>
             old \<noteq> [] \<longrightarrow>
             isl (uninitialized_loop (value_construct E) Null (Ptr b j) cnt (length old) m)"
  using assms
proof (induction old arbitrary: pb cnt m)
  case Nil
  then show ?case by (simp add: set_block_same split: ctor_args.splits)
next
  case (Cons o' old)
  show ?case
  proof (cases "value_init E")
    case Throwing
    then show ?thesis
      by (simp add: value_construct_def split: sum.splits prod.splits)
  next
    case (Yields d)
    let ?m1 = "m\<lparr>blocks := (blocks m)[b := Some ((pb @ [Some d]) @ old @ sb)],
                  journal := journal m @ [Ctor ValueInit (Ptr b (length pb))]\<rparr>"
    have cs: "construct_at ValueInit (Ptr b (j + cnt)) d m = Inr ((), ?m1)"
      using Cons.prems construct_at_at [of m b pb o' "old @ sb" "j + cnt" ValueInit d]
      by simp
    have b1: "block_at ?m1 b = Some ((pb @ [Some d]) @ old @ sb)"
      using Cons.prems(1) by (simp add: block_at_Some_less)
    have IH: "uninitialized_loop (value_construct E) Null (Ptr b j) (Suc cnt) (length old) ?m1 =
                Inr ((), ?m1\<lparr>blocks := (blocks ?m1)[b := Some ((pb @ [Some d]) @ replicate (length old) (Some d) @ sb)],
                           journal := journal ?m1 @
                             map (\<lambda>t. Ctor ValueInit (Ptr b (length (pb @ [Some d]) + t))) [0..<length old]\<rparr>)"
      using Cons.IH [OF b1, of "Suc cnt"] Cons.prems(2) Yields by simp
    show ?thesis
      using IH cs Yields
      by (simp add: value_construct_def map_upt_Suc_shift del: upt_Suc)
  qed
qed


subsection \<open>The assigning algorithms\<close>

lemma copy_assign_at:
  assumes "block_at m a = Some (pa @ Some x # sa)" "block_at m b = Some (pb @ Some old # sb)"
    and "ca = length pa" "cb = length pb"
  shows "copy_assign E (Ptr a ca) (Ptr b cb) m =
           (if copy_assign_throws E x then Inl (Throw ElemThrow m)
            else Inr ((), m\<lparr>blocks := (blocks m)[b := Some (pb @ Some x # sb)],
                            journal := journal m @ [Assign Copy (Ptr b cb)]\<rparr>))"
proof -
  have ld: "load (Ptr a ca) m = Inr (x, m)"
    using assms(1,3) by (rule load_at)
  have "assign_at Copy (Ptr b cb) x m =
          Inr ((), m\<lparr>blocks := (blocks m)[b := Some (pb @ Some x # sb)],
                     journal := journal m @ [Assign Copy (Ptr b cb)]\<rparr>)"
    using assms(2,4) by (rule assign_at_at)
  then show ?thesis
    using ld by (simp add: copy_assign_def)
qed

lemma copy_n_loop:
  assumes "block_at m a = Some (pa @ map Some xs @ sa)" "block_at m b = Some (pb @ map Some olds @ sb)"
    and "a \<noteq> b" "length olds = length xs"
  shows "if list_all (\<lambda>x. \<not> copy_assign_throws E x) xs
         then for_each (\<lambda>i. copy_assign E (Ptr a (length pa + i)) (Ptr b (length pb + i)))
                [0..<length xs] m =
                Inr ((), m\<lparr>blocks := (blocks m)[b := Some (pb @ map Some xs @ sb)],
                           journal := journal m @
                             map (\<lambda>t. Assign Copy (Ptr b (length pb + t))) [0..<length xs]\<rparr>)
         else isl (for_each (\<lambda>i. copy_assign E (Ptr a (length pa + i)) (Ptr b (length pb + i)))
                [0..<length xs] m)"
  using assms
proof (induction xs arbitrary: pa pb olds m)
  case Nil
  then show ?case by (simp add: set_block_same)
next
  case (Cons x xs)
  obtain o' olds' where olds: "olds = o' # olds'"
    using Cons.prems(4) by (cases olds) auto
  have a0: "block_at m a = Some (pa @ Some x # map Some xs @ sa)"
    using Cons.prems(1) by simp
  have b0: "block_at m b = Some (pb @ Some o' # map Some olds' @ sb)"
    using Cons.prems(2) olds by simp
  let ?m1 = "m\<lparr>blocks := (blocks m)[b := Some ((pb @ [Some x]) @ map Some olds' @ sb)],
                journal := journal m @ [Assign Copy (Ptr b (length pb))]\<rparr>"
  have step: "copy_assign E (Ptr a (length pa)) (Ptr b (length pb)) m =
           (if copy_assign_throws E x then Inl (Throw ElemThrow m) else Inr ((), ?m1))"
    using copy_assign_at [OF a0 b0 refl refl, of E] by simp
  show ?case
  proof (cases "copy_assign_throws E x")
    case True
    then show ?thesis
      using step by (simp add: for_each_upt_Suc del: upt_Suc)
  next
    case False
    have a1: "block_at ?m1 a = Some ((pa @ [Some x]) @ map Some xs @ sa)"
      using a0 Cons.prems(3) by simp
    have b1: "block_at ?m1 b = Some ((pb @ [Some x]) @ map Some olds' @ sb)"
      using b0 by (simp add: block_at_Some_less)
    have len: "length olds' = length xs"
      using Cons.prems(4) olds by simp
    note IH = Cons.IH [OF a1 b1 Cons.prems(3) len]
    show ?thesis
      using IH step False
      by (simp add: for_each_upt_Suc map_upt_Suc_shift del: upt_Suc split: if_splits)
  qed
qed

lemma move_assign_at:
  assumes "block_at m a = Some ss" "i < length ss" "j < length ss" "i \<noteq> j"
    and "ss ! i = Some x" "ss ! j = Some old"
  shows "move_assign E (Ptr a i) (Ptr a j) m =
           (if move_assign_throws E x then Inl (Throw ElemThrow m)
            else Inr ((), m\<lparr>blocks := (blocks m)[a := Some (ss[j := Some x, i := Some (moved_from E x)])],
                            journal := journal m @ [Assign Move (Ptr a j)]\<rparr>))"
proof -
  let ?m1 = "m\<lparr>blocks := (blocks m)[a := Some (ss[j := Some x])],
                journal := journal m @ [Assign Move (Ptr a j)]\<rparr>"
  have ld: "load (Ptr a i) m = Inr (x, m)"
    using assms(1,2,5) by (rule load_block)
  have asg: "assign_at Move (Ptr a j) x m = Inr ((), ?m1)"
    using assms(1,3,6) by (rule assign_at_block)
  have a1: "block_at ?m1 a = Some (ss[j := Some x])"
    using assms(1) by (simp add: block_at_Some_less)
  have "set_slot (Ptr a i) (Some (moved_from E x)) ?m1 =
          ?m1\<lparr>blocks := (blocks ?m1)[a := Some (ss[j := Some x, i := Some (moved_from E x)])]\<rparr>"
    using a1 by (rule set_slot_block)
  then show ?thesis
    using ld asg by (simp add: move_assign_def)
qed

text \<open>Shifting a run of elements one slot down, as \<^verbatim>\<open>Erase\<close> does.\<close>

lemma move_range_loop:
  assumes "block_at m a = Some (p @ Some d # map Some xs @ s)"
  shows "if list_all (\<lambda>x. \<not> move_assign_throws E x) xs
         then for_each (\<lambda>i. move_assign E (Ptr a (Suc (length p) + i)) (Ptr a (length p + i)))
                [0..<length xs] m =
                Inr ((), m\<lparr>blocks := (blocks m)[a := Some (p @ map Some xs @
                                 Some (if xs = [] then d else moved_from E (last xs)) # s)],
                           journal := journal m @
                             map (\<lambda>t. Assign Move (Ptr a (length p + t))) [0..<length xs]\<rparr>)
         else isl (for_each (\<lambda>i. move_assign E (Ptr a (Suc (length p) + i)) (Ptr a (length p + i)))
                [0..<length xs] m)"
  using assms
proof (induction xs arbitrary: p d m)
  case Nil
  then show ?case by (simp add: set_block_same)
next
  case (Cons x xs)
  let ?ss = "p @ Some d # Some x # map Some xs @ s"
  let ?m1 = "m\<lparr>blocks := (blocks m)[a := Some ((p @ [Some x]) @ Some (moved_from E x) # map Some xs @ s)],
                journal := journal m @ [Assign Move (Ptr a (length p))]\<rparr>"
  have a0: "block_at m a = Some ?ss"
    using Cons.prems by simp
  have upd: "?ss[length p := Some x, Suc (length p) := Some (moved_from E x)] =
               (p @ [Some x]) @ Some (moved_from E x) # map Some xs @ s"
    by (simp add: list_update_append)
  have step: "move_assign E (Ptr a (Suc (length p))) (Ptr a (length p)) m =
           (if move_assign_throws E x then Inl (Throw ElemThrow m) else Inr ((), ?m1))"
    using move_assign_at [OF a0, of "Suc (length p)" "length p" x d E] upd
    by (simp add: nth_append)
  show ?case
  proof (cases "move_assign_throws E x")
    case True
    then show ?thesis
      using step by (simp add: for_each_upt_Suc del: upt_Suc)
  next
    case False
    have a1: "block_at ?m1 a = Some ((p @ [Some x]) @ Some (moved_from E x) # map Some xs @ s)"
      using a0 by (simp add: block_at_Some_less)
    note IH = Cons.IH [OF a1]
    show ?thesis
      using IH step False
      by (simp add: for_each_upt_Suc map_upt_Suc_shift del: upt_Suc split: if_splits)
  qed
qed

text \<open>Shifting a run of elements one slot up, the last one first, as \<^verbatim>\<open>Emplace\<close> does.\<close>

lemma move_backward_loop:
  assumes "block_at m a = Some (p @ map Some xs @ Some d # s)"
  shows "if list_all (\<lambda>x. \<not> move_assign_throws E x) xs
         then for_each (\<lambda>i. move_assign E (Ptr a (length p + i)) (Ptr a (Suc (length p) + i)))
                (rev [0..<length xs]) m =
                Inr ((), m\<lparr>blocks := (blocks m)[a := Some (p @
                                 Some (if xs = [] then d else moved_from E (hd xs)) # map Some xs @ s)],
                           journal := journal m @
                             map (\<lambda>t. Assign Move (Ptr a (Suc (length p) + t))) (rev [0..<length xs])\<rparr>)
         else isl (for_each (\<lambda>i. move_assign E (Ptr a (length p + i)) (Ptr a (Suc (length p) + i)))
                (rev [0..<length xs]) m)"
  using assms
proof (induction xs arbitrary: d s m rule: rev_induct)
  case Nil
  then show ?case by (simp add: set_block_same)
next
  case (snoc y ys)
  let ?ss = "p @ map Some ys @ Some y # Some d # s"
  let ?n = "length p + length ys"
  let ?m1 = "m\<lparr>blocks := (blocks m)[a := Some (p @ map Some ys @ Some (moved_from E y) # Some y # s)],
                journal := journal m @ [Assign Move (Ptr a (Suc ?n))]\<rparr>"
  have a0: "block_at m a = Some ?ss"
    using snoc.prems by simp
  have upd: "?ss[Suc ?n := Some y, ?n := Some (moved_from E y)] =
               p @ map Some ys @ Some (moved_from E y) # Some y # s"
    by (simp add: list_update_append)
  have step: "move_assign E (Ptr a ?n) (Ptr a (Suc ?n)) m =
           (if move_assign_throws E y then Inl (Throw ElemThrow m) else Inr ((), ?m1))"
    using move_assign_at [OF a0, of ?n "Suc ?n" y d E] upd
    by (simp add: nth_append)
  show ?case
  proof (cases "move_assign_throws E y")
    case True
    then show ?thesis
      using step by simp
  next
    case False
    have a1: "block_at ?m1 a = Some (p @ map Some ys @ Some (moved_from E y) # (Some y # s))"
      using a0 by (simp add: block_at_Some_less)
    note IH = snoc.IH [OF a1]
    show ?thesis
      using IH step False
      by (simp add: hd_append split: if_splits)
  qed
qed

section \<open>Well-formed vectors\<close>

lemma raw_memory_update_all [simp]:
  "(d :: raw_memory)\<lparr>m_buffer := m_buffer e, m_capacity := m_capacity e\<rparr> = e"
  by (cases d, cases e) simp

lemma vector_update_all [simp]:
  "(v :: vector)\<lparr>m_data := d, m_size := n\<rparr> = \<lparr>m_data = d, m_size = n\<rparr>"
  by (cases v) simp

lemma all_live_map_the: "list_all (\<lambda>s. s \<noteq> None) l \<Longrightarrow> map Some (map the l) = l"
  by (induction l) auto

lemma all_raw_replicate: "list_all (\<lambda>s. s = None) l \<Longrightarrow> l = replicate (length l) None"
  by (induction l) auto

lemma wf_cases [consumes 1, case_names Null Block]:
  assumes "wf E m v"
  obtains (Null) "m_data v = \<lparr>m_buffer = Null, m_capacity = 0\<rparr>" "m_size v = 0"
      "alloc_limit E \<le> PTRDIFF_MAX" "0 < sizeof E" "sizeof E < SIZE_MOD"
  | (Block) a xs r where
      "m_data v = \<lparr>m_buffer = Ptr a 0, m_capacity = length xs + r\<rparr>"
      "block_at m a = Some (map Some xs @ replicate r None)"
      "m_size v = length xs" "0 < length xs + r" "length xs + r \<le> alloc_limit E"
      "alloc_limit E \<le> PTRDIFF_MAX"
      "(length xs + r) * sizeof E \<le> alloc_limit E" "0 < sizeof E" "sizeof E < SIZE_MOD"
proof (cases "m_buffer (m_data v)")
  case Null
  have c: "m_capacity (m_data v) = 0" and s: "m_size v = 0"
    and l: "alloc_limit E \<le> PTRDIFF_MAX" "0 < sizeof E" "sizeof E < SIZE_MOD"
    using assms Null by (simp_all add: wf_def raw_ok_def)
  have "m_data v = \<lparr>m_buffer = Null, m_capacity = 0\<rparr>"
    using c Null by (cases "m_data v") simp
  then show ?thesis using s l by (rule that(1))
next
  case (Ptr a i)
  from assms Ptr obtain ss where i: "i = 0" and ss: "block_at m a = Some ss"
    and len: "length ss = m_capacity (m_data v)" and pos: "m_capacity (m_data v) \<noteq> 0"
    by (auto simp: wf_def raw_ok_def split: option.splits)
  have sz: "m_size v \<le> length ss" and lim: "length ss * sizeof E \<le> alloc_limit E"
      "alloc_limit E \<le> PTRDIFF_MAX" "0 < sizeof E" "sizeof E < SIZE_MOD"
    and live: "list_all (\<lambda>s. s \<noteq> None) (take (m_size v) ss)"
    and raw: "list_all (\<lambda>s. s = None) (drop (m_size v) ss)"
    using assms Ptr i ss len by (simp_all add: wf_def slots_of_def)
  define xs where "xs = map the (take (m_size v) ss)"
  define r where "r = length ss - m_size v"
  have 1: "map Some xs = take (m_size v) ss"
    unfolding xs_def using live by (rule all_live_map_the)
  have 2: "drop (m_size v) ss = replicate r None"
    using all_raw_replicate [OF raw] by (simp add: r_def)
  have 3: "ss = map Some xs @ replicate r None"
    using 1 2 append_take_drop_id [of "m_size v" ss] by simp
  have 4: "m_size v = length xs"
    using sz by (simp add: xs_def)
  have 5: "length xs + r = m_capacity (m_data v)"
    using 4 sz len by (simp add: r_def)
  have 6: "m_data v = \<lparr>m_buffer = Ptr a 0, m_capacity = length xs + r\<rparr>"
    using Ptr i 5 by (cases "m_data v") simp
  have "length ss \<le> length ss * sizeof E"
    using lim(3) by simp
  then have 7: "length ss \<le> alloc_limit E"
    using lim(1) by (rule order_trans)
  show ?thesis
    using 6 ss 3 4 5 pos lim len 7 by (intro that(2) [of a xs r]) simp_all
qed

lemma wf_block:
  assumes "m_data v = \<lparr>m_buffer = Ptr a 0, m_capacity = length xs + r\<rparr>"
    and "block_at m a = Some (map Some xs @ replicate r None)"
    and "m_size v = length xs" "0 < length xs + r"
      "(length xs + r) * sizeof E \<le> alloc_limit E"
      "alloc_limit E \<le> PTRDIFF_MAX" "0 < sizeof E"
  shows "wf E m v \<and> elems m v = map Some xs"
proof -
  have "sizeof E \<le> (length xs + r) * sizeof E"
    using assms(4) by (cases "length xs + r") simp_all
  then have "sizeof E \<le> PTRDIFF_MAX"
    using assms(5,6) by (meson order_trans)
  then have "sizeof E < SIZE_MOD"
    by (simp add: PTRDIFF_MAX_def SIZE_MOD_def)
  then show ?thesis
    using assms by (simp add: wf_def raw_ok_def slots_of_def elems_def list_all_iff)
qed

lemma wf_null:
  assumes "m_data v = \<lparr>m_buffer = Null, m_capacity = 0\<rparr>" "m_size v = 0"
     "alloc_limit E \<le> PTRDIFF_MAX" "0 < sizeof E" "sizeof E < SIZE_MOD"
  shows "wf E m v" and "elems m v = []"
  using assms by (simp_all add: wf_def raw_ok_def slots_of_def elems_def)

section \<open>Allocation and adoption\<close>

lemma block_at_alloc [simp]:
  "block_at (m\<lparr>blocks := blocks m @ [x]\<rparr>) c =
     (if c = length (blocks m) then x else block_at m c)"
  by (auto simp: block_at_def nth_append)

text \<open>The number of elements the block of \<^verbatim>\<open>Allocate(k)\<close> has room for.\<close>

lemma RawMemory_ctor_any:
  assumes "RawMemory_ctor E k m = Inr (d, m1)" "k \<noteq> 0"
  shows "d = \<lparr>m_buffer = Ptr (length (blocks m)) 0, m_capacity = k\<rparr>"
    and "m1 = m\<lparr>blocks := blocks m @
               [Some (replicate ((k * sizeof E) mod SIZE_MOD div sizeof E) None)]\<rparr>"
    and "(k * sizeof E) mod SIZE_MOD \<le> alloc_limit E"
  using assms
  by (auto simp: RawMemory_ctor_def Allocate_def operator_new_def split: if_splits)

lemma RawMemory_ctor_Inr:
  assumes "RawMemory_ctor E k m = Inr (d, m1)" "k \<noteq> 0"
    and "0 < sizeof E" "k * sizeof E < SIZE_MOD"
  shows "d = \<lparr>m_buffer = Ptr (length (blocks m)) 0, m_capacity = k\<rparr>"
    and "m1 = m\<lparr>blocks := blocks m @ [Some (replicate k None)]\<rparr>"
    and "k * sizeof E \<le> alloc_limit E"
  using RawMemory_ctor_any [OF assms(1,2)] assms(3,4) by simp_all


lemma RawMemory_ctor_Inl:
  assumes "RawMemory_ctor E k m = Inl e"
  shows "e = Throw BadAlloc m"
  using assms
  by (auto simp: RawMemory_ctor_def Allocate_def operator_new_def split: if_splits)

lemma adopt_block:
  assumes "m_buffer (m_data v) = Ptr a 0" "block_at m a = Some ss"
  shows "adopt v nd m = Inr ((), (v\<lparr>m_data := nd\<rparr>, m\<lparr>blocks := (blocks m)[a := None]\<rparr>))"
  using assms
  by (simp add: adopt_def RawMemory_Swap_def RawMemory_dtor_def Deallocate_def)

lemma adopt_null:
  assumes "m_buffer (m_data v) = Null"
  shows "adopt v nd m = Inr ((), (v\<lparr>m_data := nd\<rparr>, m))"
  using assms
  by (simp add: adopt_def RawMemory_Swap_def RawMemory_dtor_def Deallocate_def)

lemma block_at_release [simp]:
  "block_at (m\<lparr>blocks := (blocks m)[a := None]\<rparr>) c = (if c = a then None else block_at m c)"
  by (auto simp: block_at_def)

section \<open>A constructor that throws in the middle of a transfer\<close>

lemma destroy_n_hits_raw:
  assumes "block_at m a = Some (map Some ys @ None # rest)" "length ys < n"
  shows "isl (destroy_n (Ptr a 0) n m)"
proof -
  let ?k = "length ys"
  let ?f = "\<lambda>i. destroy_at (Ptr a i) :: 'a mem \<Rightarrow> ('a mem, unit) result"
  let ?m1 = "m\<lparr>blocks := (blocks m)[a := Some ([] @ replicate ?k None @ None # rest)],
                journal := journal m @ map (\<lambda>i. Dtor (Ptr a (length ([] :: 'a option list) + i))) [0..<?k]\<rparr>"
  have a0: "block_at m a = Some ([] @ map Some ys @ None # rest)"
    using assms(1) by simp
  have pre: "for_each ?f [0..<?k] m = Inr ((), ?m1)"
    using destroy_loop_ok [OF a0] by simp
  have a1: "block_at ?m1 a = Some (replicate ?k None @ None # rest)"
    using block_at_Some_less [OF assms(1)] by simp
  have hit: "destroy_at (Ptr a ?k) ?m1 = Inl (UB (NotAlive (Ptr a ?k)) ?m1)"
    using destroy_at_at_raw [OF a1, of ?k] by simp
  have "[0..<n] = [0..<?k] @ [?k..<n]"
    using upt_add_eq_append [of 0 ?k "n - ?k"] assms(2) by simp
  also have "[?k..<n] = ?k # [Suc ?k..<n]"
    using assms(2) by (simp add: upt_conv_Cons)
  finally have "for_each ?f [0..<n] m = Inl (UB (NotAlive (Ptr a ?k)) ?m1)"
    using pre hit by (simp add: for_each_append del: upt_Suc)
  then show ?thesis
    by (simp add: destroy_n_def)
qed

lemma copy_loop_throw:
  assumes "block_at m a = Some (pa @ map Some xs @ sa)"
    and "block_at m b = Some (q @ map Some dn @ old @ sb)"
    and "a \<noteq> b" "length old = length xs" "length pa = i + length dn" "length q = j"
    and "\<not> list_all (\<lambda>x. \<not> copy_ctor_throws E x) xs"
  shows "\<exists>m' old'. uninitialized_loop (copy_construct E) (Ptr a i) (Ptr b j) (length dn) (length xs) m =
             Inl (Throw ElemThrow m') \<and>
           block_at m' a = Some (pa @ map Some xs @ sa) \<and>
           block_at m' b = Some (q @ old' @ sb) \<and> length old' = length dn + length xs"
  using assms
proof (induction xs arbitrary: pa dn old m)
  case Nil
  then show ?case by simp
next
  case (Cons x xs)
  obtain o' old' where old: "old = o' # old'"
    using Cons.prems(4) by (cases old) auto
  have ld: "load (Ptr a (i + length dn)) m = Inr (x, m)"
    using Cons.prems(1) Cons.prems(5)
    by (intro load_at [where p = pa and s = "map Some xs @ sa"]) simp_all
  show ?case
  proof (cases "copy_ctor_throws E x")
    case True
    let ?m1 = "m\<lparr>blocks := (blocks m)[b := Some (q @ replicate (length dn) None @ old @ sb)],
                  journal := journal m @ map (\<lambda>i. Dtor (Ptr b (length q + i))) [0..<length dn]\<rparr>"
    have cc: "copy_construct E (Ptr a (i + length dn)) (Ptr b (j + length dn)) m =
                Inl (Throw ElemThrow m)"
      using ld True by (simp add: copy_construct_def)
    have dn: "destroy_n (Ptr b j) (length dn) m = Inr ((), ?m1)"
      using Cons.prems(2) Cons.prems(6) [symmetric] by (intro destroy_n_ok) simp_all
    have res: "uninitialized_loop (copy_construct E) (Ptr a i) (Ptr b j) (length dn)
                 (length (x # xs)) m = Inl (Throw ElemThrow ?m1)"
      using cc dn by simp
    have a1: "block_at ?m1 a = Some (pa @ map Some (x # xs) @ sa)"
      using Cons.prems(1,3) by simp
    have b1: "block_at ?m1 b = Some (q @ (replicate (length dn) None @ old) @ sb)"
      using Cons.prems(2) by (simp add: block_at_Some_less)
    show ?thesis
      using res a1 b1 Cons.prems(4)
      by (intro exI [of _ ?m1] exI [of _ "replicate (length dn) None @ old"]) simp
  next
    case False
    let ?m1 = "m\<lparr>blocks := (blocks m)[b := Some (q @ map Some (dn @ [x]) @ old' @ sb)],
                  journal := journal m @ [Ctor Copy (Ptr b (j + length dn))]\<rparr>"
    have b0: "block_at m b = Some ((q @ map Some dn) @ o' # old' @ sb)"
      using Cons.prems(2) old by simp
    have cs: "construct_at Copy (Ptr b (j + length dn)) x m = Inr ((), ?m1)"
      using construct_at_at [OF b0, of "j + length dn" Copy x] Cons.prems(6) by simp
    have step: "copy_construct E (Ptr a (i + length dn)) (Ptr b (j + length dn)) m = Inr ((), ?m1)"
      using ld cs False by (simp add: copy_construct_def)
    have a1: "block_at ?m1 a = Some ((pa @ [Some x]) @ map Some xs @ sa)"
      using Cons.prems(1) Cons.prems(3) by simp
    have b1: "block_at ?m1 b = Some (q @ map Some (dn @ [x]) @ old' @ sb)"
      using Cons.prems(2) by (simp add: block_at_Some_less)
    have rest: "\<not> list_all (\<lambda>x. \<not> copy_ctor_throws E x) xs"
      using Cons.prems(7) False by simp
    have "\<exists>m' old''. uninitialized_loop (copy_construct E) (Ptr a i) (Ptr b j) (length (dn @ [x]))
               (length xs) ?m1 = Inl (Throw ElemThrow m') \<and>
           block_at m' a = Some ((pa @ [Some x]) @ map Some xs @ sa) \<and>
           block_at m' b = Some (q @ old'' @ sb) \<and> length old'' = length (dn @ [x]) + length xs"
      using Cons.prems(3,4,5,6) old rest
      by (intro Cons.IH [OF a1 b1]) simp_all
    then show ?thesis
      using step by simp
  qed
qed


lemma move_loop_throw:
  assumes "block_at m a = Some (pa @ map Some xs @ sa)"
    and "block_at m b = Some (q @ map Some dn @ old @ sb)"
    and "a \<noteq> b" "length old = length xs" "length pa = i + length dn" "length q = j"
    and "\<not> list_all (\<lambda>x. \<not> move_throws E x) xs"
  shows "\<exists>m' zs old'. uninitialized_loop (move_construct E) (Ptr a i) (Ptr b j) (length dn) (length xs) m =
             Inl (Throw ElemThrow m') \<and>
           block_at m' a = Some (pa @ map Some zs @ sa) \<and> length zs = length xs \<and>
           block_at m' b = Some (q @ old' @ sb) \<and> length old' = length dn + length xs"
  using assms
proof (induction xs arbitrary: pa dn old m)
  case Nil
  then show ?case by simp
next
  case (Cons x xs)
  obtain o' old' where old: "old = o' # old'"
    using Cons.prems(4) by (cases old) auto
  have a0: "block_at m a = Some (pa @ Some x # map Some xs @ sa)"
    using Cons.prems(1) by simp
  have b0: "block_at m b = Some ((q @ map Some dn) @ o' # old' @ sb)"
    using Cons.prems(2) old by simp
  show ?case
  proof (cases "move_throws E x")
    case True
    let ?m1 = "m\<lparr>blocks := (blocks m)[b := Some (q @ replicate (length dn) None @ old @ sb)],
                  journal := journal m @ map (\<lambda>i. Dtor (Ptr b (length q + i))) [0..<length dn]\<rparr>"
    have cc: "move_construct E (Ptr a (i + length dn)) (Ptr b (j + length dn)) m =
                Inl (Throw ElemThrow m)"
      using a0 Cons.prems(5) [symmetric] True by (rule move_construct_throws)
    have dn: "destroy_n (Ptr b j) (length dn) m = Inr ((), ?m1)"
      using Cons.prems(2) Cons.prems(6) [symmetric] by (intro destroy_n_ok) simp_all
    have res: "uninitialized_loop (move_construct E) (Ptr a i) (Ptr b j) (length dn)
                 (length (x # xs)) m = Inl (Throw ElemThrow ?m1)"
      using cc dn by simp
    have a1: "block_at ?m1 a = Some (pa @ map Some (x # xs) @ sa)"
      using Cons.prems(1,3) by simp
    have b1: "block_at ?m1 b = Some (q @ (replicate (length dn) None @ old) @ sb)"
      using block_at_Some_less [OF Cons.prems(2)] by simp
    show ?thesis
      using res a1 b1 Cons.prems(4)
      by (intro exI [of _ ?m1] exI [of _ "x # xs"] exI [of _ "replicate (length dn) None @ old"])
        simp
  next
    case False
    let ?m1 = "m\<lparr>blocks := (blocks m)[b := Some ((q @ map Some dn) @ Some x # old' @ sb),
                                       a := Some (pa @ Some (moved_from E x) # map Some xs @ sa)],
                  journal := journal m @ [Ctor Move (Ptr b (j + length dn))]\<rparr>"
    have step: "move_construct E (Ptr a (i + length dn)) (Ptr b (j + length dn)) m = Inr ((), ?m1)"
      using move_construct_at [OF a0 b0 Cons.prems(3) _ _ False, of "i + length dn" "j + length dn"]
        Cons.prems(5,6) by simp
    have la: "a < length (blocks m)" and lb: "b < length (blocks m)"
      using a0 b0 by (simp_all add: block_at_Some_less)
    have a1: "block_at ?m1 a = Some ((pa @ [Some (moved_from E x)]) @ map Some xs @ sa)"
      using la by (simp add: block_at_def)
    have b1: "block_at ?m1 b = Some (q @ map Some (dn @ [x]) @ old' @ sb)"
      using lb Cons.prems(3) by (simp add: block_at_def)
    have rest: "\<not> list_all (\<lambda>x. \<not> move_throws E x) xs"
      using Cons.prems(7) False by simp
    have "\<exists>m' zs old''. uninitialized_loop (move_construct E) (Ptr a i) (Ptr b j) (length (dn @ [x]))
               (length xs) ?m1 = Inl (Throw ElemThrow m') \<and>
           block_at m' a = Some ((pa @ [Some (moved_from E x)]) @ map Some zs @ sa) \<and>
           length zs = length xs \<and>
           block_at m' b = Some (q @ old'' @ sb) \<and> length old'' = length (dn @ [x]) + length xs"
      using Cons.prems(3,4,5,6) old rest
      by (intro Cons.IH [OF a1 b1]) simp_all
    then obtain m' zs old'' where
      r: "uninitialized_loop (move_construct E) (Ptr a i) (Ptr b j) (Suc (length dn))
               (length xs) ?m1 = Inl (Throw ElemThrow m')"
      and a': "block_at m' a = Some (pa @ map Some (moved_from E x # zs) @ sa)"
      and z: "length (moved_from E x # zs) = length (x # xs)"
      and b': "block_at m' b = Some (q @ old'' @ sb)"
      and o: "length old'' = length dn + length (x # xs)"
      by auto
    have "uninitialized_loop (move_construct E) (Ptr a i) (Ptr b j) (length dn)
               (length (x # xs)) m = Inl (Throw ElemThrow m')"
      using step r by simp
    then show ?thesis
      using a' z b' o by blast
  qed
qed


lemma uninitialized_copy_n_outcome:
  assumes a: "block_at m a = Some (P @ map Some xs @ sa)"
    and b: "block_at m b = Some (q @ old @ sb)"
    and ab: "a \<noteq> b" and len: "length old = length xs"
  shows "(\<exists>m' zs. uninitialized_copy_n E (Ptr a (length P)) (length xs) (Ptr b (length q)) m =
              Inr ((), m') \<and>
            block_at m' a = Some (P @ map Some zs @ sa) \<and> length zs = length xs \<and>
            block_at m' b = Some (q @ map Some xs @ sb)) \<or>
         (\<exists>m' zs old'. uninitialized_copy_n E (Ptr a (length P)) (length xs) (Ptr b (length q)) m =
              Inl (Throw ElemThrow m') \<and> xs \<noteq> [] \<and>
            block_at m' a = Some (P @ map Some zs @ sa) \<and> length zs = length xs \<and>
            block_at m' b = Some (q @ old' @ sb) \<and> length old' = length xs)"
proof (cases "list_all (\<lambda>x. \<not> copy_ctor_throws E x) xs")
  case True
  let ?m' = "m\<lparr>blocks := (blocks m)[b := Some (q @ map Some xs @ sb)],
                journal := journal m @ map (\<lambda>t. Ctor Copy (Ptr b (length q + t))) [0..<length xs]\<rparr>"
  have "uninitialized_copy_n E (Ptr a (length P)) (length xs) (Ptr b (length q)) m = Inr ((), ?m')"
    using copy_loop [OF a b ab len, of "length P" 0 "length q" E] True
    by (simp add: uninitialized_copy_n_def)
  moreover have "block_at ?m' a = Some (P @ map Some xs @ sa)"
    using a ab by simp
  moreover have "block_at ?m' b = Some (q @ map Some xs @ sb)"
    using block_at_Some_less [OF b] by simp
  ultimately show ?thesis
    by blast
next
  case False
  have b0: "block_at m b = Some (q @ map Some [] @ old @ sb)"
    using b by simp
  have "\<exists>m' old'. uninitialized_loop (copy_construct E) (Ptr a (length P)) (Ptr b (length q))
             (length ([] :: 'a list)) (length xs) m = Inl (Throw ElemThrow m') \<and>
           block_at m' a = Some (P @ map Some xs @ sa) \<and>
           block_at m' b = Some (q @ old' @ sb) \<and>
           length old' = length ([] :: 'a list) + length xs"
    using copy_loop_throw [OF a b0 ab len _ _ False, of "length P" "length q"] by simp
  moreover have "xs \<noteq> []"
    using False by auto
  ultimately show ?thesis
    by (auto simp: uninitialized_copy_n_def)
qed

lemma uninitialized_move_n_outcome:
  assumes a: "block_at m a = Some (P @ map Some xs @ sa)"
    and b: "block_at m b = Some (q @ old @ sb)"
    and ab: "a \<noteq> b" and len: "length old = length xs"
  shows "(\<exists>m' zs. uninitialized_move_n E (Ptr a (length P)) (length xs) (Ptr b (length q)) m =
              Inr ((), m') \<and>
            block_at m' a = Some (P @ map Some zs @ sa) \<and> length zs = length xs \<and>
            block_at m' b = Some (q @ map Some xs @ sb)) \<or>
         (\<exists>m' zs old'. uninitialized_move_n E (Ptr a (length P)) (length xs) (Ptr b (length q)) m =
              Inl (Throw ElemThrow m') \<and> xs \<noteq> [] \<and>
            block_at m' a = Some (P @ map Some zs @ sa) \<and> length zs = length xs \<and>
            block_at m' b = Some (q @ old' @ sb) \<and> length old' = length xs)"
proof (cases "list_all (\<lambda>x. \<not> move_throws E x) xs")
  case True
  let ?m' = "m\<lparr>blocks := (blocks m)[b := Some (q @ map Some xs @ sb),
                  a := Some (P @ map (\<lambda>x. Some (moved_from E x)) xs @ sa)],
                journal := journal m @ map (\<lambda>t. Ctor Move (Ptr b (length q + t))) [0..<length xs]\<rparr>"
  have "uninitialized_move_n E (Ptr a (length P)) (length xs) (Ptr b (length q)) m = Inr ((), ?m')"
    using move_loop [OF a b ab len, of "length P" 0 "length q" E] True
    by (simp add: uninitialized_move_n_def)
  moreover have "block_at ?m' a = Some (P @ map Some (map (moved_from E) xs) @ sa)"
    using block_at_Some_less [OF a] by (simp add: block_at_def)
  moreover have "block_at ?m' b = Some (q @ map Some xs @ sb)"
    using block_at_Some_less [OF b] ab by (simp add: block_at_def)
  moreover have "length (map (moved_from E) xs) = length xs"
    by simp
  ultimately show ?thesis
    by blast
next
  case False
  have b0: "block_at m b = Some (q @ map Some [] @ old @ sb)"
    using b by simp
  have "\<exists>m' zs old'. uninitialized_loop (move_construct E) (Ptr a (length P)) (Ptr b (length q))
             (length ([] :: 'a list)) (length xs) m = Inl (Throw ElemThrow m') \<and>
           block_at m' a = Some (P @ map Some zs @ sa) \<and> length zs = length xs \<and>
           block_at m' b = Some (q @ old' @ sb) \<and>
           length old' = length ([] :: 'a list) + length xs"
    using move_loop_throw [OF a b0 ab len _ _ False, of "length P" "length q"] by simp
  moreover have "xs \<noteq> []"
    using False by auto
  ultimately show ?thesis
    by (auto simp: uninitialized_move_n_def)
qed


section \<open>Relocation\<close>

lemma relocate_ok:
  assumes a: "block_at m a = Some (map Some xs @ sa)" and b: "block_at m b = Some (old @ sb)"
    and ab: "a \<noteq> b" and len: "length old = length xs"
    and r: "and_then
              (if nothrow_move_or_no_copy E
               then uninitialized_move_n E (Ptr a 0) (length xs) (Ptr b 0) m
               else uninitialized_copy_n E (Ptr a 0) (length xs) (Ptr b 0) m)
              (\<lambda>u. destroy_n (Ptr a 0) (length xs)) = Inr (u, m')"
  shows "m' = m\<lparr>blocks := (blocks m)[b := Some (map Some xs @ sb),
                                      a := Some (replicate (length xs) None @ sa)],
                 journal := journal m @
                   map (\<lambda>t. Ctor (if nothrow_move_or_no_copy E then Move else Copy) (Ptr b t))
                     [0..<length xs] @
                   map (\<lambda>t. Dtor (Ptr a t)) [0..<length xs]\<rparr>"
proof (cases "nothrow_move_or_no_copy E")
  case True
  let ?m2 = "m\<lparr>blocks := (blocks m)[b := Some (map Some xs @ sb),
                             a := Some (map (\<lambda>x. Some (moved_from E x)) xs @ sa)],
                journal := journal m @ map (\<lambda>t. Ctor Move (Ptr b t)) [0..<length xs]\<rparr>"
  have ml: "if list_all (\<lambda>x. \<not> move_throws E x) xs
        then uninitialized_move_n E (Ptr a 0) (length xs) (Ptr b 0) m = Inr ((), ?m2)
        else isl (uninitialized_move_n E (Ptr a 0) (length xs) (Ptr b 0) m)"
    using move_loop [of m a "[]" xs sa b "[]" old sb 0 0 0 E] a b ab len
    by (simp add: uninitialized_move_n_def)
  have mv: "uninitialized_move_n E (Ptr a 0) (length xs) (Ptr b 0) m = Inr ((), ?m2)"
    using ml r True by (auto simp: isl_def split: if_splits)
  have a2: "block_at ?m2 a = Some ([] @ map Some (map (moved_from E) xs) @ sa)"
    using a by (simp add: block_at_def split: if_splits)
  have "destroy_n (Ptr a 0) (length xs) ?m2 =
     Inr ((), ?m2\<lparr>blocks := (blocks ?m2)[a := Some ([] @ replicate (length (map (moved_from E) xs)) None @ sa)],
                journal := journal ?m2 @ map (\<lambda>i. Dtor (Ptr a (length ([] :: 'a option list) + i))) [0..<length (map (moved_from E) xs)]\<rparr>)"
    by (rule destroy_n_ok [OF a2]) simp_all
  then show ?thesis
    using r mv True by simp
next
  case False
  let ?m2 = "m\<lparr>blocks := (blocks m)[b := Some (map Some xs @ sb)],
                journal := journal m @ map (\<lambda>t. Ctor Copy (Ptr b t)) [0..<length xs]\<rparr>"
  have ml: "if list_all (\<lambda>x. \<not> copy_ctor_throws E x) xs
        then uninitialized_copy_n E (Ptr a 0) (length xs) (Ptr b 0) m = Inr ((), ?m2)
        else isl (uninitialized_copy_n E (Ptr a 0) (length xs) (Ptr b 0) m)"
    using copy_loop [of m a "[]" xs sa b "[]" old sb 0 0 0 E] a b ab len
    by (simp add: uninitialized_copy_n_def)
  have mv: "uninitialized_copy_n E (Ptr a 0) (length xs) (Ptr b 0) m = Inr ((), ?m2)"
    using ml r False by (auto simp: isl_def split: if_splits)
  have a2: "block_at ?m2 a = Some ([] @ map Some xs @ sa)"
    using a ab by simp
  have "destroy_n (Ptr a 0) (length xs) ?m2 =
     Inr ((), ?m2\<lparr>blocks := (blocks ?m2)[a := Some ([] @ replicate (length xs) None @ sa)],
                journal := journal ?m2 @ map (\<lambda>i. Dtor (Ptr a (length ([] :: 'a option list) + i))) [0..<length xs]\<rparr>)"
    by (rule destroy_n_ok [OF a2]) simp_all
  then show ?thesis
    using r mv False by simp
qed


section \<open>A block with too little room\<close>






section \<open>Reserve\<close>





lemma map_error_Throw [simp]:
  "map_error (Pair v) e = Throw x (v', m') \<longleftrightarrow> e = Throw x m' \<and> v' = v"
  by (cases e) auto

lemma Deallocate_no_Throw [simp]: "Deallocate p m \<noteq> Inl (Throw x s)"
  by (simp add: Deallocate_def split: ptr.splits)

lemma adopt_no_Throw [simp]: "adopt v nd m \<noteq> Inl (Throw x (v', m'))"
  by (auto simp: adopt_def RawMemory_dtor_def in_obj_def split: prod.splits sum.splits)

lemma unwind_dtor_Throw [simp]:
  "unwind (RawMemory_dtor d) e = Throw x s \<longleftrightarrow>
     (\<exists>s0. e = Throw x s0 \<and> RawMemory_dtor d s0 = Inr ((), s))"
  by (cases e) (auto simp: RawMemory_dtor_def split: sum.splits)




section \<open>Appending\<close>


lemma grown_gt: "n \<le> PTRDIFF_MAX \<Longrightarrow> n < grown n"
  by (auto simp: grown_def PTRDIFF_MAX_def SIZE_MOD_def)

lemma wf_sizeof: "wf E m v \<Longrightarrow> 0 < sizeof E"
  by (simp add: wf_def)

lemma wf_capacity_max:
  assumes "wf E m v"
  shows "m_capacity (m_data v) \<le> PTRDIFF_MAX"
proof -
  have "m_capacity (m_data v) \<le> m_capacity (m_data v) * sizeof E"
    using assms by (simp add: wf_def)
  also have "\<dots> \<le> alloc_limit E"
    using assms by (simp add: wf_def)
  also have "\<dots> \<le> PTRDIFF_MAX"
    using assms by (simp add: wf_def)
  finally show ?thesis .
qed

lemma grown_fits:
  assumes wf: "wf E m v" and full: "m_size v = m_capacity (m_data v)"
  shows "grown (m_size v) * sizeof E < SIZE_MOD"
proof (cases "m_size v = 0")
  case True
  then show ?thesis
    using wf by (simp add: grown_def wf_def)
next
  case False
  have "m_size v * sizeof E \<le> PTRDIFF_MAX"
    using wf full by (simp add: wf_def)
  moreover have "grown (m_size v) = 2 * m_size v"
    using False wf_capacity_max [OF wf] full
    by (simp add: grown_def PTRDIFF_MAX_def SIZE_MOD_def)
  ultimately have "grown (m_size v) * sizeof E \<le> 2 * PTRDIFF_MAX"
    by simp
  then show ?thesis
    by (simp add: PTRDIFF_MAX_def SIZE_MOD_def)
qed

lemma Suc_mod_SIZE: "n \<le> PTRDIFF_MAX \<Longrightarrow> Suc n mod SIZE_MOD = Suc n"
  by (simp add: PTRDIFF_MAX_def SIZE_MOD_def)

lemma replicate_split:
  assumes "i < n"
  shows "replicate n x = replicate i x @ x # replicate (n - Suc i) x"
proof -
  have "replicate n x = replicate (i + Suc (n - Suc i)) x"
    using assms by simp
  also have "\<dots> = replicate i x @ replicate (Suc (n - Suc i)) x"
    by (simp only: replicate_add)
  finally show ?thesis by simp
qed

lemma construct_from_Inr:
  assumes "construct_from args p m = Inr (u, m1)"
  obtains x where "args = Yields x" "construct_at FromArgs p x m = Inr ((), m1)"
  using assms by (cases args) (simp_all add: construct_from_def)

lemma EmplaceBack_grow:
  assumes wf: "wf E m v" and full: "m_size v = m_capacity (m_data v)"
    and r: "EmplaceBack E args v m = Inr (p, (v', m'))"
  shows "\<exists>x. args = Yields x \<and>
     v' = \<lparr>m_data = \<lparr>m_buffer = Ptr (length (blocks m)) 0, m_capacity = grown (m_size v)\<rparr>,
           m_size = m_size v + 1\<rparr> \<and>
     p = Ptr (length (blocks m)) (m_size v) \<and>
     elems m' v' = elems m v @ [Some x] \<and> wf E m' v' \<and>
     journal m' = journal m @ Ctor FromArgs (Ptr (length (blocks m)) (m_size v)) #
       map (\<lambda>t. Ctor (if nothrow_move_or_no_copy E then Move else Copy)
                  (Ptr (length (blocks m)) t)) [0..<m_size v] @
       map (\<lambda>t. Dtor (ptr_add (Vector_begin v) t)) [0..<m_size v]"
proof -
  let ?L = "length (blocks m)"
  let ?n = "m_size v"
  let ?g = "grown ?n"
  let ?body = "\<lambda>nd m1. and_then (construct_from args (ptr_add (GetAddress nd) ?n) m1)
     (\<lambda>u m2. and_then
        (if nothrow_move_or_no_copy E
         then uninitialized_move_n E (Vector_begin v) ?n (GetAddress nd) m2
         else uninitialized_copy_n E (Vector_begin v) ?n (GetAddress nd) m2)
        (\<lambda>u. destroy_n (Vector_begin v) ?n))"
  let ?fin = "\<lambda>(u :: unit) s. case s of (w, m4) \<Rightarrow>
     (case ptr_sub (ptr_add (Vector_begin w) ((m_size w + 1) mod SIZE_MOD)) 1 of
        None \<Rightarrow> Inl (UB InvalidRange (w\<lparr>m_size := (m_size w + 1) mod SIZE_MOD\<rparr>, m4))
      | Some q \<Rightarrow> Inr (q, (w\<lparr>m_size := (m_size w + 1) mod SIZE_MOD\<rparr>, m4)))"
  from r full have "and_then (case RawMemory_ctor E ?g m of
           Inl e \<Rightarrow> Inl (map_error (Pair v) e)
         | Inr (new_data, m1) \<Rightarrow>
             (case ?body new_data m1 of
                Inl e \<Rightarrow> Inl (map_error (Pair v) (unwind (RawMemory_dtor new_data) e))
              | Inr (u, m3) \<Rightarrow> adopt v new_data m3)) ?fin = Inr (p, (v', m'))"
    by (simp add: EmplaceBack_def RawMemory_Capacity_def)
  then obtain nd m1 m3 w m4 where c: "RawMemory_ctor E ?g m = Inr (nd, m1)"
    and bd: "?body nd m1 = Inr ((), m3)" and ad: "adopt v nd m3 = Inr ((), (w, m4))"
    and fin: "?fin () (w, m4) = Inr (p, (v', m'))"
    by (auto simp: and_then_def split: sum.splits)
  from bd obtain m2 where cf: "construct_from args (ptr_add (GetAddress nd) ?n) m1 = Inr ((), m2)"
    and rl: "and_then
        (if nothrow_move_or_no_copy E
         then uninitialized_move_n E (Vector_begin v) ?n (GetAddress nd) m2
         else uninitialized_copy_n E (Vector_begin v) ?n (GetAddress nd) m2)
        (\<lambda>u. destroy_n (Vector_begin v) ?n) = Inr ((), m3)"
    by (auto simp: and_then_def split: sum.splits)
  have nmax: "?n \<le> PTRDIFF_MAX"
    using wf_capacity_max [OF wf] full by simp
  have g0: "?g \<noteq> 0" and ng: "?n < ?g"
    using grown_gt [OF nmax] by simp_all
  note nd = RawMemory_ctor_Inr [OF c g0 wf_sizeof [OF wf] grown_fits [OF wf full]]
  obtain x where args: "args = Yields x"
    and ca: "construct_at FromArgs (Ptr ?L ?n) x m1 = Inr ((), m2)"
    using cf nd by (auto elim: construct_from_Inr simp: GetAddress_def)
  have bL1: "block_at m1 ?L = Some (replicate ?n None @ None # replicate (?g - Suc ?n) None)"
    using nd replicate_split [OF ng, of "None :: 'a option"] by simp
  have m2: "m2 = m1\<lparr>blocks := (blocks m1)[?L := Some (replicate ?n None @ Some x # replicate (?g - Suc ?n) None)],
               journal := journal m1 @ [Ctor FromArgs (Ptr ?L ?n)]\<rparr>"
    using ca construct_at_at [OF bL1, of ?n FromArgs x] by simp
  have bL2: "block_at m2 ?L = Some (replicate ?n None @ Some x # replicate (?g - Suc ?n) None)"
    using m2 nd by (simp add: block_at_def)
  show ?thesis
    using wf
  proof (cases rule: wf_cases)
    case Null
    have "m3 = m2"
      using rl Null
      by (simp add: Vector_begin_def GetAddress_def uninitialized_move_n_def
          uninitialized_copy_n_def split: if_splits)
    then have w: "w = v\<lparr>m_data := nd\<rparr>" and m4: "m4 = m2"
      using ad adopt_null [of v nd m3] Null by simp_all
    have v': "v' = \<lparr>m_data = nd, m_size = 1\<rparr>" and m': "m' = m2" and p: "p = Ptr ?L 0"
      using fin w m4 nd Null by (auto simp: Vector_begin_def GetAddress_def)
    have b: "block_at m' ?L = Some (map Some [x] @ replicate (?g - 1) None)"
      using m' bL2 Null by simp
    have "wf E m' v' \<and> elems m' v' = map Some [x]"
      using v' nd Null b g0 by (intro wf_block [where a = ?L and r = "?g - 1"]) simp_all
    moreover have "elems m v = []"
      using Null by (simp add: elems_def)
    ultimately show ?thesis
      using args v' nd Null p m' m2 by simp
  next
    case (Block a xs r)
    have r0: "r = 0" using full Block by simp
    have aL: "a < ?L" using Block(2) by (rule block_at_Some_less)
    have ne: "a \<noteq> ?L" using aL by simp
    have a2: "block_at m2 a = Some (map Some xs @ [])"
      using m2 nd Block(2) aL r0 by (simp add: block_at_def nth_append)
    have bL2': "block_at m2 ?L = Some (replicate (length xs) None @ Some x # replicate (?g - Suc ?n) None)"
      using bL2 Block(3) by simp
    have rl': "and_then
              (if nothrow_move_or_no_copy E
               then uninitialized_move_n E (Ptr a 0) (length xs) (Ptr ?L 0) m2
               else uninitialized_copy_n E (Ptr a 0) (length xs) (Ptr ?L 0) m2)
              (\<lambda>u. destroy_n (Ptr a 0) (length xs)) = Inr ((), m3)"
      using rl Block(1,3) nd by (simp add: GetAddress_def Vector_begin_def cong: if_cong)
    note m3 = relocate_ok [OF a2 bL2' ne _ rl', simplified]
    have a3: "block_at m3 a = Some (replicate (length xs) None)"
      using m3 a2 by (simp add: block_at_def split: if_splits)
    have L3: "block_at m3 ?L = Some (map Some xs @ Some x # replicate (?g - Suc ?n) None)"
      using m3 m2 nd ne by (simp add: block_at_def nth_list_update)
    have ad': "adopt v nd m3 = Inr ((), (v\<lparr>m_data := nd\<rparr>, m3\<lparr>blocks := (blocks m3)[a := None]\<rparr>))"
      using Block(1) a3 by (intro adopt_block) simp_all
    have w: "w = v\<lparr>m_data := nd\<rparr>" and m4: "m4 = m3\<lparr>blocks := (blocks m3)[a := None]\<rparr>"
      using ad ad' by simp_all
    have sz: "(?n + 1) mod SIZE_MOD = ?n + 1"
      using Suc_mod_SIZE [OF nmax] by simp
    have v': "v' = \<lparr>m_data = nd, m_size = ?n + 1\<rparr>" and m': "m' = m4" and p: "p = Ptr ?L ?n"
      using fin w m4 nd sz by (auto simp: Vector_begin_def GetAddress_def)
    have b: "block_at m' ?L = Some (map Some (xs @ [x]) @ replicate (?g - Suc ?n) None)"
      using m' m4 L3 ne by simp
    have "wf E m' v' \<and> elems m' v' = map Some (xs @ [x])"
      using v' nd Block b g0 ng
      by (intro wf_block [where a = ?L and r = "?g - Suc ?n"]) simp_all
    moreover have "elems m v = map Some xs"
      using Block by (simp add: elems_def slots_of_def)
    ultimately show ?thesis
      using args v' nd Block(1,3) p m' m4 m3 m2 by (simp add: Vector_begin_def GetAddress_def)
  qed
qed



lemma EmplaceBack_Throw_keeps_vector:
  "EmplaceBack E args v m = Inl (Throw x (v', m')) \<Longrightarrow> v' = v"
  by (auto simp: EmplaceBack_def and_then_def in_obj_def split: if_splits sum.splits prod.splits option.splits)

lemma block_at_tombstone [simp]: "block_at (m\<lparr>blocks := blocks m @ [None]\<rparr>) = block_at m"
  by (rule ext) (simp add: block_at_def nth_append)

lemma EmplaceBack_Throwing:
  "\<exists>x m'. EmplaceBack E Throwing v m = Inl (Throw x (v, m')) \<and>
          block_at m' = block_at m \<and> journal m' = journal m"
proof (cases "m_size v = RawMemory_Capacity (m_data v)")
  case False
  then have "EmplaceBack E Throwing v m = Inl (Throw ElemThrow (v, m))"
    by (simp add: EmplaceBack_def construct_from_def)
  then show ?thesis by simp
next
  case True
  show ?thesis
  proof (cases "RawMemory_ctor E (grown (m_size v)) m")
    case (Inl e)
    then have "EmplaceBack E Throwing v m = Inl (Throw BadAlloc (v, m))"
      using True RawMemory_ctor_Inl [OF Inl] by (simp add: EmplaceBack_def)
    then show ?thesis by simp
  next
    case (Inr r)
    obtain nd m1 where r: "r = (nd, m1)" by (cases r)
    show ?thesis
    proof (cases "grown (m_size v) = 0")
      case True
      then have "nd = \<lparr>m_buffer = Null, m_capacity = 0\<rparr>" "m1 = m"
        using Inr r by (auto simp: RawMemory_ctor_def Allocate_def)
      then have "EmplaceBack E Throwing v m = Inl (Throw ElemThrow (v, m))"
        using \<open>m_size v = RawMemory_Capacity (m_data v)\<close> Inr r
        by (simp add: EmplaceBack_def construct_from_def RawMemory_dtor_def Deallocate_def)
      then show ?thesis by simp
    next
      case False
      note nd = RawMemory_ctor_any [OF Inr [unfolded r] False]
      have "EmplaceBack E Throwing v m =
              Inl (Throw ElemThrow (v, m\<lparr>blocks := blocks m @ [None]\<rparr>))"
        using \<open>m_size v = RawMemory_Capacity (m_data v)\<close> Inr r nd
        by (simp add: EmplaceBack_def construct_from_def RawMemory_dtor_def Deallocate_def
            block_at_def)
      then show ?thesis by simp
    qed
  qed
qed


lemma elems_block_at_cong: "block_at m' = block_at m \<Longrightarrow> elems m' v = elems m v"
  by (simp only: elems_def slots_of_def)

section \<open>Copy assignment\<close>

lemma copy_n_ok:
  assumes "block_at m a = Some (map Some xs @ sa)" "block_at m b = Some (map Some olds @ sb)"
    and "a \<noteq> b" "length olds = length xs"
    and r: "copy_n E (Ptr a 0) (length xs) (Ptr b 0) m = Inr (u, m')"
  shows "m' = m\<lparr>blocks := (blocks m)[b := Some (map Some xs @ sb)],
                 journal := journal m @ map (\<lambda>t. Assign Copy (Ptr b t)) [0..<length xs]\<rparr>"
proof -
  have "if list_all (\<lambda>x. \<not> copy_assign_throws E x) xs
        then copy_n E (Ptr a 0) (length xs) (Ptr b 0) m =
               Inr ((), m\<lparr>blocks := (blocks m)[b := Some (map Some xs @ sb)],
                          journal := journal m @ map (\<lambda>t. Assign Copy (Ptr b t)) [0..<length xs]\<rparr>)
        else isl (copy_n E (Ptr a 0) (length xs) (Ptr b 0) m)"
    using copy_n_loop [of m a "[]" xs sa b "[]" olds sb E] assms(1-4)
    by (simp add: copy_n_def split: if_splits)
  then show ?thesis
    using r by (auto simp: isl_def split: if_splits)
qed

lemma overwrite_and_trim:
  assumes a: "block_at m a = Some (map Some xs @ replicate r None)"
    and b: "block_at m b = Some (map Some ys @ sb)"
    and ab: "b \<noteq> a" and lt: "length ys < length xs"
    and r: "and_then (copy_n E (Ptr b 0) (length ys) (Ptr a 0) m)
              (\<lambda>u. destroy_n (Ptr a (length ys)) (length xs - length ys)) = Inr (u, m')"
  shows "m' = m\<lparr>blocks := (blocks m)[a := Some (map Some ys @
                                  replicate (length xs - length ys + r) None)],
                 journal := journal m @
                   map (\<lambda>t. Assign Copy (Ptr a t)) [0..<length ys] @
                   map (\<lambda>t. Dtor (Ptr a (length ys + t))) [0..<length xs - length ys]\<rparr>"
proof -
  let ?n = "length ys"
  obtain m1 where cn: "copy_n E (Ptr b 0) ?n (Ptr a 0) m = Inr ((), m1)"
    and dn: "destroy_n (Ptr a ?n) (length xs - ?n) m1 = Inr ((), m')"
    using r by (auto simp: and_then_def split: sum.splits)
  have a': "block_at m a = Some (map Some (take ?n xs) @
              (map Some (drop ?n xs) @ replicate r None))"
    using a by (simp add: map_append [symmetric] del: map_append)
  have m1: "m1 = m\<lparr>blocks := (blocks m)[a := Some (map Some ys @ map Some (drop ?n xs) @ replicate r None)],
                  journal := journal m @ map (\<lambda>t. Assign Copy (Ptr a t)) [0..<?n]\<rparr>"
    using copy_n_ok [OF b a' ab _ cn] lt by simp
  have a1: "block_at m1 a = Some (map Some ys @ map Some (drop ?n xs) @ replicate r None)"
    using m1 a by (simp add: block_at_Some_less)
  have "destroy_n (Ptr a ?n) (length (drop ?n xs)) m1 = Inr ((), m')"
    using dn by simp
  from destroy_n_ok [OF a1, of ?n "length (drop ?n xs)"] this
  have "m' = m1\<lparr>blocks := (blocks m1)[a := Some (map Some ys @ replicate (length xs - ?n) None @ replicate r None)],
                journal := journal m1 @ map (\<lambda>i. Dtor (Ptr a (?n + i))) [0..<length xs - ?n]\<rparr>"
    by simp
  then show ?thesis
    using m1 by (simp add: replicate_add)
qed

lemma trim_all:
  assumes a: "block_at m a = Some (map Some xs @ replicate r None)"
    and r: "and_then (copy_n E Null 0 (Ptr a 0) m) (\<lambda>u. destroy_n (Ptr a 0) (length xs)) = Inr (u, m')"
  shows "m' = m\<lparr>blocks := (blocks m)[a := Some (replicate (length xs + r) None)],
                 journal := journal m @ map (\<lambda>t. Dtor (Ptr a t)) [0..<length xs]\<rparr>"
proof -
  have a0: "block_at m a = Some ([] @ map Some xs @ replicate r None)"
    using a by simp
  have "destroy_n (Ptr a 0) (length xs) m = Inr ((), m')"
    using r by (simp add: copy_n_def)
  from destroy_n_ok [OF a0, of 0 "length xs"] this
  show ?thesis by (simp add: replicate_add)
qed

lemma Vector_copy_assign_shrink:
  assumes wd: "wf E m d" and ws: "wf E m s"
    and ne: "m_buffer (m_data s) \<noteq> m_buffer (m_data d)"
    and lt: "m_size s < m_size d"
    and r: "Vector_copy_assign E d (Other s) m = Inr (u, (d', m'))"
  shows "d' = d\<lparr>m_size := m_size s\<rparr> \<and> elems m' d' = elems m s \<and> elems m' s = elems m s \<and>
     wf E m' d' \<and> wf E m' s \<and>
     journal m' = journal m @
       map (\<lambda>t. Assign Copy (ptr_add (Vector_begin d) t)) [0..<m_size s] @
       map (\<lambda>t. Dtor (ptr_add (Vector_begin d) (m_size s + t))) [0..<m_size d - m_size s]"
  using wd
proof (cases rule: wf_cases)
  case Null
  then show ?thesis using lt by simp
next
  case (Block a xs r)
  let ?n = "m_size s"
  have cap: "\<not> RawMemory_Capacity (m_data d) < ?n"
    using lt Block by (simp add: RawMemory_Capacity_def)
  from r cap lt have
    run: "and_then (copy_n E (GetAddress (m_data s)) ?n (GetAddress (m_data d)) m)
            (\<lambda>u. destroy_n (ptr_add (GetAddress (m_data d)) ?n) (m_size d - ?n)) = Inr ((), m')"
    and d': "d' = d\<lparr>m_size := ?n\<rparr>"
    by (auto simp: Vector_copy_assign_def in_obj_def and_then_def split: sum.splits)
  show ?thesis
    using ws
  proof (cases rule: wf_cases)
    case Null
    have "and_then (copy_n E Null 0 (Ptr a 0) m) (\<lambda>u. destroy_n (Ptr a 0) (length xs)) = Inr ((), m')"
      using run Null \<open>m_data d = _\<close> \<open>m_size d = _\<close> by (simp add: GetAddress_def)
    note m' = trim_all [OF \<open>block_at m a = _\<close> this]
    have a': "block_at m' a = Some (map Some [] @ replicate (length xs + r) None)"
      using m' \<open>block_at m a = _\<close> by (simp add: block_at_Some_less)
    have "wf E m' d' \<and> elems m' d' = map Some []"
      using d' Block a' Null
      by (intro wf_block [where a = a and r = "length xs + r"]) simp_all
    moreover have "wf E m' s \<and> elems m' s = []"
      using wf_null [of s E m'] Null by simp
    moreover have "elems m s = []"
      using Null by (simp add: elems_def)
    ultimately show ?thesis
      using d' m' Null Block(1,3) by (simp add: Vector_begin_def GetAddress_def)
  next
    case (Block b ys r')
    have ab: "b \<noteq> a" using ne Block(1) \<open>m_data d = _\<close> by simp
    have lt': "length ys < length xs" using lt Block(3) \<open>m_size d = _\<close> by simp
    have "and_then (copy_n E (Ptr b 0) (length ys) (Ptr a 0) m)
              (\<lambda>u. destroy_n (Ptr a (length ys)) (length xs - length ys)) = Inr ((), m')"
      using run Block(1,3) \<open>m_data d = _\<close> \<open>m_size d = _\<close> by (simp add: GetAddress_def)
    note m' = overwrite_and_trim [OF \<open>block_at m a = _\<close> Block(2) ab lt' this]
    have a': "block_at m' a = Some (map Some ys @ replicate (length xs - length ys + r) None)"
      using m' \<open>block_at m a = _\<close> by (simp add: block_at_Some_less)
    have b': "block_at m' b = Some (map Some ys @ replicate r' None)"
      using m' Block(2) ab by simp
    have "wf E m' d' \<and> elems m' d' = map Some ys"
      using d' \<open>m_data d = _\<close> \<open>(length xs + r) * sizeof E \<le> alloc_limit E\<close>
        \<open>alloc_limit E \<le> PTRDIFF_MAX\<close> \<open>0 < sizeof E\<close> a' lt' Block(3)
      by (intro wf_block [where a = a and r = "length xs - length ys + r"]) auto
    moreover have "wf E m' s \<and> elems m' s = map Some ys"
      using Block b' by (intro wf_block [where a = b and r = r']) simp_all
    moreover have "elems m s = map Some ys"
      using Block by (simp add: elems_def slots_of_def)
    ultimately show ?thesis
      using d' m' Block(3) \<open>m_data d = _\<close> \<open>m_size d = _\<close>
      by (simp add: Vector_begin_def GetAddress_def)
  qed
qed


section \<open>Erase\<close>

lemma pred_mod_SIZE:
  assumes "0 < n" "n \<le> PTRDIFF_MAX"
  shows "(n + SIZE_MOD - 1) mod SIZE_MOD = n - 1"
proof -
  have eq: "n + SIZE_MOD - 1 = (n - 1) + SIZE_MOD"
    using assms(1) by arith
  have lt: "n - 1 < SIZE_MOD"
    using assms(2) by (simp add: PTRDIFF_MAX_def SIZE_MOD_def)
  have "(n + SIZE_MOD - 1) mod SIZE_MOD = ((n - 1) + SIZE_MOD) mod SIZE_MOD"
    by (simp only: eq)
  also have "\<dots> = (n - 1) mod SIZE_MOD"
    by (rule mod_add_self2)
  also have "\<dots> = n - 1"
    using lt by (rule mod_less)
  finally show ?thesis .
qed

lemma move_range_ok:
  assumes a: "block_at m a = Some (map Some P @ Some d # map Some rest @ s)"
    and r: "move_range E (Ptr a (Suc (length P))) (length rest) (Ptr a (length P)) m = Inr (u, m')"
  shows "\<exists>d'. m' = m\<lparr>blocks := (blocks m)[a := Some (map Some P @ map Some rest @ Some d' # s)],
                 journal := journal m @
                   map (\<lambda>t. Assign Move (Ptr a (length P + t))) [0..<length rest]\<rparr>"
proof -
  have "if list_all (\<lambda>x. \<not> move_assign_throws E x) rest
        then move_range E (Ptr a (Suc (length P))) (length rest) (Ptr a (length P)) m =
                Inr ((), m\<lparr>blocks := (blocks m)[a := Some (map Some P @ map Some rest @
                                 Some (if rest = [] then d else moved_from E (last rest)) # s)],
                           journal := journal m @
                             map (\<lambda>t. Assign Move (Ptr a (length P + t))) [0..<length rest]\<rparr>)
        else isl (move_range E (Ptr a (Suc (length P))) (length rest) (Ptr a (length P)) m)"
    using move_range_loop [of m a "map Some P" d rest s E] a
    by (auto simp: move_range_def split: if_splits)
  then show ?thesis
    using r by (auto simp: isl_def split: if_splits)
qed

lemma Erase_ok:
  assumes wf: "wf E m v" and i: "i < m_size v"
    and r: "Erase E i v m = Inr (p, (v', m'))"
  shows "v' = v\<lparr>m_size := m_size v - 1\<rparr> \<and>
     elems m' v' = take i (elems m v) @ drop (Suc i) (elems m v) \<and> wf E m' v'"
  using wf
proof (cases rule: wf_cases)
  case Null
  then show ?thesis using i by simp
next
  case (Block a xs r')
  let ?n = "length xs"
  let ?P = "take i xs" and ?rest = "drop (Suc i) xs"
  have ix: "i < ?n" using i Block(3) by simp
  have xs: "xs = ?P @ xs ! i # ?rest"
    using ix by (rule id_take_nth_drop)
  have lP: "length ?P = i" using ix by simp
  have lr: "length ?rest = ?n - Suc i" by simp
  have nmax: "?n \<le> PTRDIFF_MAX" using Block(5,6) by simp
  have sz: "(?n + SIZE_MOD - 1) mod SIZE_MOD = ?n - 1"
    using ix nmax by (intro pred_mod_SIZE) auto
  have ps: "ptr_sub (Ptr a ?n) 1 = Some (Ptr a (?n - 1))"
    using ix by simp
  have "\<exists>m1. move_range E (Ptr a (Suc i)) (?n - Suc i) (Ptr a i) m = Inr ((), m1) \<and>
          destroy_n (Ptr a (?n - 1)) 1 m1 = Inr ((), m') \<and> v' = v\<lparr>m_size := ?n - 1\<rparr>"
    using r ix Block(1,3) sz ps
    by (simp add: Erase_def Vector_begin_def Vector_end_def GetAddress_def and_then_def in_obj_def
        split: sum.splits prod.splits)
  then obtain m1 where
    mr: "move_range E (Ptr a (Suc i)) (?n - Suc i) (Ptr a i) m = Inr ((), m1)"
    and dn: "destroy_n (Ptr a (?n - 1)) 1 m1 = Inr ((), m')"
    and v': "v' = v\<lparr>m_size := ?n - 1\<rparr>"
    by blast
  have "map Some xs = map Some (?P @ xs ! i # ?rest)"
    by (rule arg_cong [OF xs])
  then have a0: "block_at m a = Some (map Some ?P @ Some (xs ! i) # map Some ?rest @ replicate r' None)"
    using Block(2) by (simp only: map_append list.map append_assoc append_Cons)
  have mr': "move_range E (Ptr a (Suc (length ?P))) (length ?rest) (Ptr a (length ?P)) m = Inr ((), m1)"
    using mr lP lr by simp
  from move_range_ok [OF a0 mr'] obtain d' where
    m1: "m1 = m\<lparr>blocks := (blocks m)[a := Some (map Some ?P @ map Some ?rest @ Some d' # replicate r' None)],
                 journal := journal m @
                   map (\<lambda>t. Assign Move (Ptr a (length ?P + t))) [0..<length ?rest]\<rparr>"
    by blast
  have a1: "block_at m1 a = Some (map Some (?P @ ?rest) @ map Some [d'] @ replicate r' None)"
    using m1 Block(2) by (simp add: block_at_Some_less)
  have lpr: "length (map Some (?P @ ?rest)) = ?n - 1"
    using ix by simp
  from destroy_n_ok [OF a1, of "?n - 1" 1] lpr dn
  have m': "m' = m1\<lparr>blocks := (blocks m1)[a := Some (map Some (?P @ ?rest) @ replicate 1 None @ replicate r' None)],
                journal := journal m1 @ map (\<lambda>i. Dtor (Ptr a (length (map Some (?P @ ?rest)) + i))) [0..<1]\<rparr>"
    by simp
  have a': "block_at m' a = Some (map Some (?P @ ?rest) @ replicate (Suc r') None)"
    using m' a1 by (simp add: block_at_Some_less)
  have "wf E m' v' \<and> elems m' v' = map Some (?P @ ?rest)"
    using v' Block a' ix
    by (intro wf_block [where a = a and r = "Suc r'"]) auto
  moreover have "elems m v = map Some xs"
    using Block by (simp add: elems_def slots_of_def)
  ultimately show ?thesis
    using v' Block(3) by (simp add: take_map drop_map)
qed


section \<open>Emplace with spare capacity\<close>

lemma move_construct_within:
  assumes "block_at m a = Some (p @ Some x # old # s)" "c = length p"
  shows "move_construct E (Ptr a c) (Ptr a (Suc c)) m =
           (if move_throws E x then Inl (Throw ElemThrow m)
            else Inr ((), m\<lparr>blocks := (blocks m)[a := Some (p @ Some (moved_from E x) # Some x # s)],
                            journal := journal m @ [Ctor Move (Ptr a (Suc c))]\<rparr>))"
proof -
  let ?m1 = "m\<lparr>blocks := (blocks m)[a := Some ((p @ [Some x]) @ Some x # s)],
                journal := journal m @ [Ctor Move (Ptr a (Suc c))]\<rparr>"
  have ld: "load (Ptr a c) m = Inr (x, m)"
    using assms by (rule load_at)
  have a0: "block_at m a = Some ((p @ [Some x]) @ old # s)"
    using assms(1) by simp
  have cs: "construct_at Move (Ptr a (Suc c)) x m = Inr ((), ?m1)"
    using a0 assms(2) by (intro construct_at_at) simp_all
  have a1: "block_at ?m1 a = Some (p @ Some x # Some x # s)"
    using assms(1) by (simp add: block_at_Some_less)
  have "set_slot (Ptr a c) (Some (moved_from E x)) ?m1 =
          ?m1\<lparr>blocks := (blocks ?m1)[a := Some (p @ Some (moved_from E x) # Some x # s)]\<rparr>"
    using a1 assms(2) by (rule set_slot_at)
  then show ?thesis
    using ld cs by (simp add: move_construct_def)
qed

lemma move_backward_ok:
  assumes a: "block_at m a = Some (map Some P @ map Some mid @ Some d # s)"
    and r: "move_backward E (Ptr a (length P)) (length mid) (Ptr a (Suc (length P + length mid))) m
              = Inr (u, m')"
  shows "\<exists>d' evs. m' = m\<lparr>blocks := (blocks m)[a := Some (map Some P @ Some d' # map Some mid @ s)],
                 journal := journal m @ evs\<rparr>"
proof -
  have ps: "ptr_sub (Ptr a (Suc (length P + length mid))) (length mid) = Some (Ptr a (Suc (length P)))"
    by simp
  have "if list_all (\<lambda>x. \<not> move_assign_throws E x) mid
        then move_backward E (Ptr a (length P)) (length mid) (Ptr a (Suc (length P + length mid))) m =
                Inr ((), m\<lparr>blocks := (blocks m)[a := Some (map Some P @
                                 Some (if mid = [] then d else moved_from E (hd mid)) # map Some mid @ s)],
                           journal := journal m @
                             map (\<lambda>t. Assign Move (Ptr a (Suc (length (map Some P)) + t))) (rev [0..<length mid])\<rparr>)
        else isl (move_backward E (Ptr a (length P)) (length mid) (Ptr a (Suc (length P + length mid))) m)"
    using move_backward_loop [of m a "map Some P" mid d s E] a
    by (auto simp: move_backward_def ps split: if_splits)
  then have "m' = m\<lparr>blocks := (blocks m)[a := Some (map Some P @
                                 Some (if mid = [] then d else moved_from E (hd mid)) # map Some mid @ s)],
                           journal := journal m @
                             map (\<lambda>t. Assign Move (Ptr a (Suc (length (map Some P)) + t))) (rev [0..<length mid])\<rparr>"
    using r by (auto simp: isl_def split: if_splits)
  then show ?thesis by blast
qed

lemma assign_from_Inr:
  assumes "assign_from E args p m = Inr (u, m1)"
  obtains x where "args = Yields x" "assign_at Move p x m = Inr ((), m1)"
  using assms by (cases args) (simp_all add: assign_from_def split: if_splits)

lemma drop_butlast_last:
  assumes "i < length xs"
  shows "xs = take i xs @ butlast (drop i xs) @ [last xs]"
proof -
  have "butlast (drop i xs) @ [last (drop i xs)] = drop i xs"
    using assms by (intro append_butlast_last_id) simp
  moreover have "last (drop i xs) = last xs"
    using assms by simp
  ultimately have "take i xs @ butlast (drop i xs) @ [last xs] = take i xs @ drop i xs"
    by simp
  then show ?thesis by simp
qed


lemma Emplace_in_place:
  assumes wf: "wf E m v" and i: "i \<le> m_size v" and spare: "m_size v < m_capacity (m_data v)"
    and r: "Emplace E i (Args args) v m = Inr (p, (v', m'))"
  shows "\<exists>x. args = Yields x \<and> v' = v\<lparr>m_size := m_size v + 1\<rparr> \<and>
     elems m' v' = take i (elems m v) @ Some x # drop i (elems m v) \<and> wf E m' v'"
  using wf
proof (cases rule: wf_cases)
  case Null
  then show ?thesis using spare by simp
next
  case (Block a xs r')
  let ?n = "length xs"
  obtain r'' where r': "r' = Suc r''"
    using spare Block(1,3) by (cases r') simp_all
  have nmax: "?n \<le> PTRDIFF_MAX" using Block(5,6) by simp
  have sz: "(?n + 1) mod SIZE_MOD = ?n + 1"
    using Suc_mod_SIZE [OF nmax] by simp
  have ne: "m_size v \<noteq> RawMemory_Capacity (m_data v)"
    using spare by (simp add: RawMemory_Capacity_def)
  have el: "elems m v = map Some xs"
    using Block by (simp add: elems_def slots_of_def)
  show ?thesis
  proof (cases "i = ?n")
    case True
    have "\<exists>m1. construct_from args (Ptr a ?n) m = Inr ((), m1) \<and> m' = m1 \<and>
            v' = v\<lparr>m_size := ?n + 1\<rparr>"
      using r ne True Block(1,3) sz
      by (simp add: Emplace_def Vector_begin_def GetAddress_def and_then_def in_obj_def
          split: sum.splits prod.splits)
    then have cf: "construct_from args (Ptr a ?n) m = Inr ((), m')"
      and v': "v' = v\<lparr>m_size := ?n + 1\<rparr>"
      by blast+
    from cf obtain x where args: "args = Yields x"
      and ca: "construct_at FromArgs (Ptr a ?n) x m = Inr ((), m')"
      by (rule construct_from_Inr)
    have a0: "block_at m a = Some (map Some xs @ None # replicate r'' None)"
      using Block(2) r' by simp
    have m': "m' = m\<lparr>blocks := (blocks m)[a := Some (map Some xs @ Some x # replicate r'' None)],
                 journal := journal m @ [Ctor FromArgs (Ptr a ?n)]\<rparr>"
      using ca construct_at_at [OF a0, of ?n FromArgs x] by simp
    have a': "block_at m' a = Some (map Some (xs @ [x]) @ replicate r'' None)"
      using m' Block(2) by (simp add: block_at_Some_less)
    have "wf E m' v' \<and> elems m' v' = map Some (xs @ [x])"
      using v' Block a' r'
      by (intro wf_block [where a = a and r = r'']) auto
    then show ?thesis
      using args v' el True Block(3) by simp
  next
    case False
    then have ix: "i < ?n" using i Block(3) by simp
    let ?P = "take i xs" and ?mid = "butlast (drop i xs)" and ?l = "last xs"
    have xs: "xs = ?P @ ?mid @ [?l]"
      using ix by (rule drop_butlast_last)
    have lP: "length ?P = i" using ix by simp
    have lm: "length ?mid = ?n - 1 - i" by simp
    have lPm: "length (map Some ?P @ map Some ?mid) = ?n - 1" using ix by simp
    have ps: "ptr_sub (Ptr a ?n) 1 = Some (Ptr a (?n - 1))" using ix by simp
    have idx: "RawMemory_index (m_data v) i mm = Inr (Ptr a i, mm)" for mm :: "'a mem"
      using ix Block(1) by (simp add: RawMemory_index_def)
    have "\<exists>m1 m2. move_construct E (Ptr a (?n - 1)) (Ptr a ?n) m = Inr ((), m1) \<and>
            move_backward E (Ptr a i) (?n - 1 - i) (Ptr a ?n) m1 = Inr ((), m2) \<and>
            assign_from E args (Ptr a i) m2 = Inr ((), m') \<and> v' = v\<lparr>m_size := ?n + 1\<rparr>"
      using r ne False i Block(1,3) sz ps idx
      by (simp add: Emplace_def Vector_begin_def Vector_end_def GetAddress_def and_then_def
          in_obj_def split: sum.splits prod.splits)
    then obtain m1 m2 where
      mc: "move_construct E (Ptr a (?n - 1)) (Ptr a ?n) m = Inr ((), m1)"
      and mb: "move_backward E (Ptr a i) (?n - 1 - i) (Ptr a ?n) m1 = Inr ((), m2)"
      and af: "assign_from E args (Ptr a i) m2 = Inr ((), m')"
      and v': "v' = v\<lparr>m_size := ?n + 1\<rparr>"
      by blast
    have "map Some xs = map Some (?P @ ?mid @ [?l])"
      by (rule arg_cong [OF xs])
    then have a0: "block_at m a =
        Some ((map Some ?P @ map Some ?mid) @ Some ?l # None # replicate r'' None)"
      using Block(2) r' by (simp only: map_append list.map append_assoc append_Cons append_Nil
          replicate_Suc)
    have Sn: "Suc (?n - 1) = ?n" using ix by simp
    have "move_construct E (Ptr a (?n - 1)) (Ptr a (Suc (?n - 1))) m =
           (if move_throws E ?l then Inl (Throw ElemThrow m)
            else Inr ((), m\<lparr>blocks := (blocks m)[a := Some ((map Some ?P @ map Some ?mid) @
                               Some (moved_from E ?l) # Some ?l # replicate r'' None)],
                            journal := journal m @ [Ctor Move (Ptr a (Suc (?n - 1)))]\<rparr>))"
      using a0 lPm [symmetric] by (rule move_construct_within)
    then have m1: "m1 = m\<lparr>blocks := (blocks m)[a := Some ((map Some ?P @ map Some ?mid) @
                       Some (moved_from E ?l) # Some ?l # replicate r'' None)],
                  journal := journal m @ [Ctor Move (Ptr a ?n)]\<rparr>"
      using mc unfolding Sn by (simp split: if_splits)
    have a1: "block_at m1 a = Some (map Some ?P @ map Some ?mid @
                       Some (moved_from E ?l) # (Some ?l # replicate r'' None))"
      using m1 Block(2) by (simp add: block_at_Some_less)
    have mb': "move_backward E (Ptr a (length ?P)) (length ?mid)
                 (Ptr a (Suc (length ?P + length ?mid))) m1 = Inr ((), m2)"
      using mb lP ix Sn by simp
    from move_backward_ok [OF a1 mb'] obtain d' evs where
      m2: "m2 = m1\<lparr>blocks := (blocks m1)[a := Some (map Some ?P @ Some d' # map Some ?mid @
                        (Some ?l # replicate r'' None))],
                 journal := journal m1 @ evs\<rparr>"
      by blast
    have a2: "block_at m2 a = Some (map Some ?P @ Some d' # map Some ?mid @
                        (Some ?l # replicate r'' None))"
      using m2 a1 by (simp add: block_at_Some_less)
    from af obtain x where args: "args = Yields x"
      and aa: "assign_at Move (Ptr a i) x m2 = Inr ((), m')"
      by (rule assign_from_Inr)
    have m': "m' = m2\<lparr>blocks := (blocks m2)[a := Some (map Some ?P @ Some x # map Some ?mid @
                        (Some ?l # replicate r'' None))],
                 journal := journal m2 @ [Assign Move (Ptr a i)]\<rparr>"
      using aa assign_at_at [OF a2, of i Move x] lP by simp
    have a': "block_at m' a = Some (map Some (?P @ x # ?mid @ [?l]) @ replicate r'' None)"
      using m' a2 by (simp add: block_at_Some_less)
    have len: "length (?P @ x # ?mid @ [?l]) = Suc ?n"
      using ix by simp
    have cap: "length (?P @ x # ?mid @ [?l]) + r'' = ?n + r'"
      using len r' by simp
    have lim: "(length (?P @ x # ?mid @ [?l]) + r'') * sizeof E \<le> alloc_limit E"
      using Block(7) by (simp only: cap)
    have "wf E m' v' \<and> elems m' v' = map Some (?P @ x # ?mid @ [?l])"
      using v' Block(1) r' len
      by (intro wf_block [where a = a and r = r'', OF _ a' _ _ lim Block(6,8)]) simp_all
    moreover have "drop i xs = ?mid @ [?l]"
      using xs lP by (metis append_eq_conv_conj)
    ultimately show ?thesis
      using args v' el Block(3) by (simp add: take_map drop_map)
  qed
qed

section \<open>The two guarded transfers of Emplace\<close>

lemma catch_all_transfer:
  fixes U :: "ptr \<Rightarrow> nat \<Rightarrow> ptr \<Rightarrow> 'a mem \<Rightarrow> ('a mem, unit) result"
  assumes U: "(\<exists>m' zs. U (Ptr a (length P)) (length xs) (Ptr b (length q)) m = Inr ((), m') \<and>
            block_at m' a = Some (P @ map Some zs @ sa) \<and> length zs = length xs \<and>
            block_at m' b = Some (q @ map Some xs @ sb)) \<or>
         (\<exists>m' zs old'. U (Ptr a (length P)) (length xs) (Ptr b (length q)) m =
              Inl (Throw ElemThrow m') \<and> xs \<noteq> [] \<and>
            block_at m' a = Some (P @ map Some zs @ sa) \<and> length zs = length xs \<and>
            block_at m' b = Some (q @ old' @ sb) \<and> length old' = length xs)"
    and ab: "a \<noteq> b"
  obtains (Moved) m' zs where
      "catch_all (U (Ptr a (length P)) (length xs) (Ptr b (length q)) m)
         (destroy_n (Ptr a (length P)) (length xs)) = Inr ((), m')"
      "block_at m' a = Some (P @ map Some zs @ sa)" "length zs = length xs"
      "block_at m' b = Some (q @ map Some xs @ sb)"
  | (Caught) m' old' where
      "catch_all (U (Ptr a (length P)) (length xs) (Ptr b (length q)) m)
         (destroy_n (Ptr a (length P)) (length xs)) = Inr ((), m')"
      "xs \<noteq> []"
      "block_at m' a = Some (P @ replicate (length xs) None @ sa)"
      "block_at m' b = Some (q @ old' @ sb)" "length old' = length xs"
  using U
proof (elim disjE exE conjE)
  fix m' zs
  assume "U (Ptr a (length P)) (length xs) (Ptr b (length q)) m = Inr ((), m')"
    "block_at m' a = Some (P @ map Some zs @ sa)" "length zs = length xs"
    "block_at m' b = Some (q @ map Some xs @ sb)"
  then show thesis
    by (intro Moved [of m' zs]) (simp_all add: catch_all_def)
next
  fix m' zs old'
  assume u: "U (Ptr a (length P)) (length xs) (Ptr b (length q)) m = Inl (Throw ElemThrow m')"
    and ne: "xs \<noteq> []"
    and a': "block_at m' a = Some (P @ map Some zs @ sa)" and z: "length zs = length xs"
    and b': "block_at m' b = Some (q @ old' @ sb)" and o: "length old' = length xs"
  let ?m2 = "m'\<lparr>blocks := (blocks m')[a := Some (P @ replicate (length zs) None @ sa)],
                journal := journal m' @ map (\<lambda>i. Dtor (Ptr a (length P + i))) [0..<length zs]\<rparr>"
  have d: "destroy_n (Ptr a (length P)) (length xs) m' = Inr ((), ?m2)"
    using a' z by (intro destroy_n_ok) simp_all
  have c: "catch_all (U (Ptr a (length P)) (length xs) (Ptr b (length q)) m)
         (destroy_n (Ptr a (length P)) (length xs)) = Inr ((), ?m2)"
    using u d by (simp add: catch_all_def)
  have a2: "block_at ?m2 a = Some (P @ replicate (length xs) None @ sa)"
    using block_at_Some_less [OF a'] z by simp
  have b2: "block_at ?m2 b = Some (q @ old' @ sb)"
    using b' ab by simp
  show thesis
    using c ne a2 b2 o by (rule Caught)
qed


lemma guarded_transfer:
  fixes U :: "ptr \<Rightarrow> nat \<Rightarrow> ptr \<Rightarrow> 'a mem \<Rightarrow> ('a mem, unit) result"
  assumes U: "(\<exists>m' zs. U (Ptr a (length P)) (length xs) (Ptr b (length q)) m = Inr ((), m') \<and>
            block_at m' a = Some (P @ map Some zs @ sa) \<and> length zs = length xs \<and>
            block_at m' b = Some (q @ map Some xs @ sb)) \<or>
         (\<exists>m' zs old'. U (Ptr a (length P)) (length xs) (Ptr b (length q)) m =
              Inl (Throw ElemThrow m') \<and> xs \<noteq> [] \<and>
            block_at m' a = Some (P @ map Some zs @ sa) \<and> length zs = length xs \<and>
            block_at m' b = Some (q @ old' @ sb) \<and> length old' = length xs)"
    and ab: "a \<noteq> b"
  shows "\<exists>m' S T. catch_all (U (Ptr a (length P)) (length xs) (Ptr b (length q)) m)
            (destroy_n (Ptr a (length P)) (length xs)) = Inr ((), m') \<and>
          block_at m' a = Some (P @ S @ sa) \<and> block_at m' b = Some (q @ T @ sb) \<and>
          length S = length xs \<and> length T = length xs \<and>
          ((\<exists>zs. S = map Some zs) \<and> T = map Some xs \<or> (\<exists>k. S = None # replicate k None))"
  using U ab
proof (cases rule: catch_all_transfer)
  case (Moved m' zs)
  show ?thesis
    using Moved
    by (intro exI [of _ m'] exI [of _ "map Some zs"] exI [of _ "map Some xs"]) auto
next
  case (Caught m' old')
  obtain k where k: "length xs = Suc k"
    using Caught(2) by (cases xs) auto
  show ?thesis
    using Caught k
    by (intro exI [of _ m'] exI [of _ "replicate (length xs) None"] exI [of _ old']) auto
qed

lemma transfer_around:
  fixes U :: "ptr \<Rightarrow> nat \<Rightarrow> ptr \<Rightarrow> 'a mem \<Rightarrow> ('a mem, unit) result"
  assumes U: "\<And>(m :: 'a mem) P xs sa q old sb.
       block_at m a = Some (P @ map Some xs @ sa) \<Longrightarrow>
       block_at m b = Some (q @ old @ sb) \<Longrightarrow> length old = length xs \<Longrightarrow>
         (\<exists>m' zs. U (Ptr a (length P)) (length xs) (Ptr b (length q)) m = Inr ((), m') \<and>
            block_at m' a = Some (P @ map Some zs @ sa) \<and> length zs = length xs \<and>
            block_at m' b = Some (q @ map Some xs @ sb)) \<or>
         (\<exists>m' zs old'. U (Ptr a (length P)) (length xs) (Ptr b (length q)) m =
              Inl (Throw ElemThrow m') \<and> xs \<noteq> [] \<and>
            block_at m' a = Some (P @ map Some zs @ sa) \<and> length zs = length xs \<and>
            block_at m' b = Some (q @ old' @ sb) \<and> length old' = length xs)"
    and a: "block_at m a = Some (map Some xs1 @ map Some xs2)"
    and b: "block_at m b =
              Some (replicate (length xs1) None @ Some x # replicate (length xs2) None @ sb)"
    and ab: "a \<noteq> b"
    and r: "and_then
              (and_then
                 (catch_all (U (Ptr a 0) (length xs1) (Ptr b 0) m)
                    (destroy_n (Ptr a 0) (length xs1)))
                 (\<lambda>u m3. catch_all
                    (U (Ptr a (length xs1)) (length xs2) (Ptr b (Suc (length xs1))) m3)
                    (destroy_n (Ptr a (length xs1)) (length xs2))))
              (\<lambda>u. destroy_n (Ptr a 0) (length xs1 + length xs2)) = Inr (u, m')"
  shows "block_at m' b = Some (map Some xs1 @ Some x # map Some xs2 @ sb) \<and>
         (\<exists>ss. block_at m' a = Some ss)"
proof -
  let ?n1 = "length xs1" and ?n2 = "length xs2"
  have a0: "block_at m a = Some ([] @ map Some xs1 @ map Some xs2)"
    using a by simp
  have b0: "block_at m b =
      Some ([] @ replicate ?n1 None @ (Some x # replicate ?n2 None @ sb))"
    using b by simp
  have l0: "length (replicate ?n1 (None :: 'a option)) = length xs1"
    "length (replicate ?n2 (None :: 'a option)) = length xs2"
    by simp_all
  have "\<exists>m3 S T. catch_all (U (Ptr a (length ([] :: 'a option list))) ?n1
             (Ptr b (length ([] :: 'a option list))) m)
            (destroy_n (Ptr a (length ([] :: 'a option list))) ?n1) = Inr ((), m3) \<and>
          block_at m3 a = Some ([] @ S @ map Some xs2) \<and>
          block_at m3 b = Some ([] @ T @ (Some x # replicate ?n2 None @ sb)) \<and>
          length S = ?n1 \<and> length T = ?n1 \<and>
          ((\<exists>zs. S = map Some zs) \<and> T = map Some xs1 \<or> (\<exists>k. S = None # replicate k None))"
    by (rule guarded_transfer [where U = U and a = a and b = b and m = m and P = "[]"
          and q = "[]" and xs = xs1, OF U [OF a0 b0 l0(1)] ab])
  then obtain m3 S1 T1 where
    c1: "catch_all (U (Ptr a 0) ?n1 (Ptr b 0) m) (destroy_n (Ptr a 0) ?n1) = Inr ((), m3)"
    and a3: "block_at m3 a = Some (S1 @ map Some xs2 @ [])"
    and b3: "block_at m3 b = Some ((T1 @ [Some x]) @ replicate ?n2 None @ sb)"
    and l1: "length S1 = ?n1" "length T1 = ?n1"
    and g1: "(\<exists>zs. S1 = map Some zs) \<and> T1 = map Some xs1 \<or> (\<exists>k. S1 = None # replicate k None)"
    by auto
  have "\<exists>m4 S T. catch_all (U (Ptr a (length S1)) ?n2 (Ptr b (length (T1 @ [Some x]))) m3)
            (destroy_n (Ptr a (length S1)) ?n2) = Inr ((), m4) \<and>
          block_at m4 a = Some (S1 @ S @ []) \<and>
          block_at m4 b = Some ((T1 @ [Some x]) @ T @ sb) \<and>
          length S = ?n2 \<and> length T = ?n2 \<and>
          ((\<exists>zs. S = map Some zs) \<and> T = map Some xs2 \<or> (\<exists>k. S = None # replicate k None))"
    by (rule guarded_transfer [where U = U and a = a and b = b and m = m3 and P = S1
          and q = "T1 @ [Some x]" and xs = xs2, OF U [OF a3 b3 l0(2)] ab])
  then obtain m4 S2 T2 where
    c2: "catch_all (U (Ptr a ?n1) ?n2 (Ptr b (Suc ?n1)) m3) (destroy_n (Ptr a ?n1) ?n2) =
           Inr ((), m4)"
    and a4: "block_at m4 a = Some (S1 @ S2)"
    and b4: "block_at m4 b = Some (T1 @ Some x # T2 @ sb)"
    and l2: "length S2 = ?n2" "length T2 = ?n2"
    and g2: "(\<exists>zs. S2 = map Some zs) \<and> T2 = map Some xs2 \<or> (\<exists>k. S2 = None # replicate k None)"
    using l1 by auto
  have d: "destroy_n (Ptr a 0) (?n1 + ?n2) m4 = Inr (u, m')"
    using r c1 c2 by simp
  show ?thesis
  proof (cases "(\<exists>zs. S1 = map Some zs) \<and> (\<exists>zs. S2 = map Some zs)")
    case True
    then obtain zs1 zs2 where S: "S1 = map Some zs1" "S2 = map Some zs2"
      by blast
    have T: "T1 = map Some xs1" "T2 = map Some xs2"
      using g1 g2 S by auto
    have a4': "block_at m4 a = Some ([] @ map Some (zs1 @ zs2) @ [])"
      using a4 S by simp
    have "destroy_n (Ptr a 0) (?n1 + ?n2) m4 =
        Inr ((), m4\<lparr>blocks := (blocks m4)[a := Some ([] @ replicate (length (zs1 @ zs2)) None @ [])],
                    journal := journal m4 @
                      map (\<lambda>i. Dtor (Ptr a (length ([] :: 'a option list) + i)))
                        [0..<length (zs1 @ zs2)]\<rparr>)"
      using l1 l2 S by (intro destroy_n_ok [OF a4']) simp_all
    then have m': "m' = m4\<lparr>blocks := (blocks m4)[a := Some ([] @ replicate (length (zs1 @ zs2)) None @ [])],
                    journal := journal m4 @
                      map (\<lambda>i. Dtor (Ptr a (length ([] :: 'a option list) + i)))
                        [0..<length (zs1 @ zs2)]\<rparr>"
      using d by simp
    have "block_at m' b = Some (map Some xs1 @ Some x # map Some xs2 @ sb)"
      using m' b4 T ab by simp
    moreover have "\<exists>ss. block_at m' a = Some ss"
      using m' block_at_Some_less [OF a4] by simp
    ultimately show ?thesis
      by simp
  next
    case False
    have "\<exists>ys rest. S1 @ S2 = map Some ys @ None # rest \<and> length ys < ?n1 + ?n2"
    proof (cases "\<exists>zs. S1 = map Some zs")
      case True
      then obtain zs1 where S1: "S1 = map Some zs1"
        by blast
      obtain k where S2: "S2 = None # replicate k None"
        using g2 False True by blast
      have "S1 @ S2 = map Some zs1 @ None # replicate k None" "length zs1 < ?n1 + ?n2"
        using S1 S2 l1 l2 by auto
      then show ?thesis
        by blast
    next
      case False
      then obtain k where S1: "S1 = None # replicate k None"
        using g1 by blast
      have "S1 @ S2 = map Some [] @ None # (replicate k None @ S2)"
        "length ([] :: 'a list) < ?n1 + ?n2"
        using S1 l1 by auto
      then show ?thesis
        by blast
    qed
    then obtain ys rest where "block_at m4 a = Some (map Some ys @ None # rest)"
      "length ys < ?n1 + ?n2"
      using a4 by auto
    then have "isl (destroy_n (Ptr a 0) (?n1 + ?n2) m4)"
      by (rule destroy_n_hits_raw)
    then show ?thesis
      using d by simp
  qed
qed

section \<open>Insertion with a new buffer\<close>

lemma relocate_around:
  assumes a: "block_at m a = Some (map Some xs1 @ map Some xs2)"
    and b: "block_at m b =
              Some (replicate (length xs1) None @ Some x # replicate (length xs2) None @ sb)"
    and ab: "a \<noteq> b"
    and r: "and_then
              (if nothrow_move_or_no_copy E then
                 and_then
                   (catch_all (uninitialized_move_n E (Ptr a 0) (length xs1) (Ptr b 0) m)
                      (destroy_n (Ptr a 0) (length xs1)))
                   (\<lambda>u m3. catch_all
                      (uninitialized_move_n E (Ptr a (length xs1)) (length xs2)
                         (Ptr b (Suc (length xs1))) m3)
                      (destroy_n (Ptr a (length xs1)) (length xs2)))
               else
                 and_then
                   (catch_all (uninitialized_copy_n E (Ptr a 0) (length xs1) (Ptr b 0) m)
                      (destroy_n (Ptr a 0) (length xs1)))
                   (\<lambda>u m3. catch_all
                      (uninitialized_copy_n E (Ptr a (length xs1)) (length xs2)
                         (Ptr b (Suc (length xs1))) m3)
                      (destroy_n (Ptr a (length xs1)) (length xs2))))
              (\<lambda>u. destroy_n (Ptr a 0) (length xs1 + length xs2)) = Inr (u, m')"
  shows "block_at m' b = Some (map Some xs1 @ Some x # map Some xs2 @ sb) \<and>
         (\<exists>ss. block_at m' a = Some ss)"
proof (cases "nothrow_move_or_no_copy E")
  case True
  have r': "and_then
              (and_then
                 (catch_all (uninitialized_move_n E (Ptr a 0) (length xs1) (Ptr b 0) m)
                    (destroy_n (Ptr a 0) (length xs1)))
                 (\<lambda>u m3. catch_all
                    (uninitialized_move_n E (Ptr a (length xs1)) (length xs2)
                       (Ptr b (Suc (length xs1))) m3)
                    (destroy_n (Ptr a (length xs1)) (length xs2))))
              (\<lambda>u. destroy_n (Ptr a 0) (length xs1 + length xs2)) = Inr (u, m')"
    using r True by simp
  show ?thesis
    by (rule transfer_around [where U = "uninitialized_move_n E", OF _ a b ab r'])
      (rule uninitialized_move_n_outcome [OF _ _ ab], assumption+)
next
  case False
  have r': "and_then
              (and_then
                 (catch_all (uninitialized_copy_n E (Ptr a 0) (length xs1) (Ptr b 0) m)
                    (destroy_n (Ptr a 0) (length xs1)))
                 (\<lambda>u m3. catch_all
                    (uninitialized_copy_n E (Ptr a (length xs1)) (length xs2)
                       (Ptr b (Suc (length xs1))) m3)
                    (destroy_n (Ptr a (length xs1)) (length xs2))))
              (\<lambda>u. destroy_n (Ptr a 0) (length xs1 + length xs2)) = Inr (u, m')"
    using r False by simp
  show ?thesis
    by (rule transfer_around [where U = "uninitialized_copy_n E", OF _ a b ab r'])
      (rule uninitialized_copy_n_outcome [OF _ _ ab], assumption+)
qed

lemma Emplace_grow:
  assumes wf: "wf E m v" and i: "i \<le> m_size v" and full: "m_size v = m_capacity (m_data v)"
    and r: "Emplace E i (Args args) v m = Inr (p, (v', m'))"
  shows "\<exists>x. args = Yields x \<and>
     v' = \<lparr>m_data = \<lparr>m_buffer = Ptr (length (blocks m)) 0, m_capacity = grown (m_size v)\<rparr>,
           m_size = m_size v + 1\<rparr> \<and>
     elems m' v' = take i (elems m v) @ Some x # drop i (elems m v) \<and> wf E m' v'"
proof -
  let ?L = "length (blocks m)"
  let ?n = "m_size v"
  let ?g = "grown ?n"
  let ?xfer = "\<lambda>nd m2.
     if nothrow_move_or_no_copy E then
       and_then
         (catch_all (uninitialized_move_n E (Vector_begin v) i (GetAddress nd) m2)
            (destroy_n (Vector_begin v) i))
         (\<lambda>u m3. catch_all
            (uninitialized_move_n E (ptr_add (Vector_begin v) i) (?n - i)
               (ptr_add (ptr_add (GetAddress nd) i) 1) m3)
            (destroy_n (ptr_add (Vector_begin v) i) (?n - i)))
     else
       and_then
         (catch_all (uninitialized_copy_n E (Vector_begin v) i (GetAddress nd) m2)
            (destroy_n (Vector_begin v) i))
         (\<lambda>u m3. catch_all
            (uninitialized_copy_n E (ptr_add (Vector_begin v) i) (?n - i)
               (ptr_add (ptr_add (GetAddress nd) i) 1) m3)
            (destroy_n (ptr_add (Vector_begin v) i) (?n - i)))"
  let ?body = "\<lambda>nd m1. and_then (construct_from args (ptr_add (GetAddress nd) i) m1)
     (\<lambda>u m2. and_then (?xfer nd m2) (\<lambda>u. destroy_n (Vector_begin v) ?n))"
  let ?fin = "\<lambda>(u :: unit) s. case s of (w, m5) \<Rightarrow>
     Inr (ptr_add (Vector_begin w) i, (w\<lparr>m_size := (m_size w + 1) mod SIZE_MOD\<rparr>, m5))"
  from r [unfolded Emplace_def forwarded_Args] full i
  have "and_then (case RawMemory_ctor E ?g m of
           Inl e \<Rightarrow> Inl (map_error (Pair v) e)
         | Inr (new_data, m1) \<Rightarrow>
             (case ?body new_data m1 of
                Inl e \<Rightarrow> Inl (map_error (Pair v) (unwind (RawMemory_dtor new_data) e))
              | Inr (u, m4) \<Rightarrow> adopt v new_data m4)) ?fin = Inr (p, (v', m'))"
    by (simp add: RawMemory_Capacity_def)
  then obtain nd m1 m4 w m5 where c: "RawMemory_ctor E ?g m = Inr (nd, m1)"
    and bd: "?body nd m1 = Inr ((), m4)" and ad: "adopt v nd m4 = Inr ((), (w, m5))"
    and fin: "?fin () (w, m5) = Inr (p, (v', m'))"
    by (auto simp: and_then_def split: sum.splits)
  from bd obtain m2 where cf: "construct_from args (ptr_add (GetAddress nd) i) m1 = Inr ((), m2)"
    and rl: "and_then (?xfer nd m2) (\<lambda>u. destroy_n (Vector_begin v) ?n) = Inr ((), m4)"
    by (auto simp: and_then_def split: sum.splits)
  have nmax: "?n \<le> PTRDIFF_MAX"
    using wf_capacity_max [OF wf] full by simp
  have g0: "?g \<noteq> 0" and ng: "?n < ?g"
    using grown_gt [OF nmax] by simp_all
  have ig: "i < ?g"
    using i ng by simp
  note nd = RawMemory_ctor_Inr [OF c g0 wf_sizeof [OF wf] grown_fits [OF wf full]]
  obtain x where args: "args = Yields x"
    and ca: "construct_at FromArgs (Ptr ?L i) x m1 = Inr ((), m2)"
    using cf nd by (auto elim: construct_from_Inr simp: GetAddress_def)
  have bL1: "block_at m1 ?L = Some (replicate i None @ None # replicate (?g - Suc i) None)"
    using nd replicate_split [OF ig, of "None :: 'a option"] by simp
  have m2: "m2 = m1\<lparr>blocks := (blocks m1)[?L := Some (replicate i None @ Some x # replicate (?g - Suc i) None)],
               journal := journal m1 @ [Ctor FromArgs (Ptr ?L i)]\<rparr>"
    using ca construct_at_at [OF bL1, of i FromArgs x] by simp
  have bL2: "block_at m2 ?L = Some (replicate i None @ Some x # replicate (?g - Suc i) None)"
    using m2 nd by (simp add: block_at_def)
  have sz: "(?n + 1) mod SIZE_MOD = ?n + 1"
    using Suc_mod_SIZE [OF nmax] by simp
  show ?thesis
    using wf
  proof (cases rule: wf_cases)
    case Null
    have i0: "i = 0"
      using i Null by simp
    have "m4 = m2"
      using rl Null i0
      by (simp add: Vector_begin_def GetAddress_def uninitialized_move_n_def
          uninitialized_copy_n_def split: if_splits)
    then have w: "w = v\<lparr>m_data := nd\<rparr>" and m5: "m5 = m2"
      using ad adopt_null [of v nd m4] Null by simp_all
    have v': "v' = \<lparr>m_data = nd, m_size = 1\<rparr>" and m': "m' = m2"
      using fin w m5 nd Null by (auto simp: Vector_begin_def GetAddress_def)
    have b: "block_at m' ?L = Some (map Some [x] @ replicate (?g - 1) None)"
      using m' bL2 Null i0 by simp
    have "wf E m' v' \<and> elems m' v' = map Some [x]"
      using v' nd Null b g0 by (intro wf_block [where a = ?L and r = "?g - 1"]) simp_all
    moreover have "elems m v = []"
      using Null by (simp add: elems_def)
    ultimately show ?thesis
      using args v' nd Null by simp
  next
    case (Block a xs r')
    let ?xs1 = "take i xs" and ?xs2 = "drop i xs"
    have r0: "r' = 0" using full Block by simp
    have ix: "i \<le> length xs" using i Block(3) by simp
    have l1: "length ?xs1 = i" and l2: "length ?xs2 = ?n - i"
      using ix Block(3) by simp_all
    have aL: "a < ?L" using Block(2) by (rule block_at_Some_less)
    have ne: "a \<noteq> ?L" using aL by simp
    have a2: "block_at m2 a = Some (map Some ?xs1 @ map Some ?xs2)"
      using m2 nd Block(2) aL r0 by (simp add: block_at_def nth_append flip: map_append)
    have split: "replicate (?g - Suc i) (None :: 'a option) =
                   replicate (?n - i) None @ replicate (?g - Suc ?n) None"
      using i ng by (simp flip: replicate_add)
    have bL2': "block_at m2 ?L = Some (replicate (length ?xs1) None @ Some x #
                  replicate (length ?xs2) None @ replicate (?g - Suc ?n) None)"
      using bL2 split l1 l2 by simp
    have rl': "and_then
              (if nothrow_move_or_no_copy E then
                 and_then
                   (catch_all (uninitialized_move_n E (Ptr a 0) (length ?xs1) (Ptr ?L 0) m2)
                      (destroy_n (Ptr a 0) (length ?xs1)))
                   (\<lambda>u m3. catch_all
                      (uninitialized_move_n E (Ptr a (length ?xs1)) (length ?xs2)
                         (Ptr ?L (Suc (length ?xs1))) m3)
                      (destroy_n (Ptr a (length ?xs1)) (length ?xs2)))
               else
                 and_then
                   (catch_all (uninitialized_copy_n E (Ptr a 0) (length ?xs1) (Ptr ?L 0) m2)
                      (destroy_n (Ptr a 0) (length ?xs1)))
                   (\<lambda>u m3. catch_all
                      (uninitialized_copy_n E (Ptr a (length ?xs1)) (length ?xs2)
                         (Ptr ?L (Suc (length ?xs1))) m3)
                      (destroy_n (Ptr a (length ?xs1)) (length ?xs2))))
              (\<lambda>u. destroy_n (Ptr a 0) (length ?xs1 + length ?xs2)) = Inr ((), m4)"
      using rl Block(1,3) nd ix
      by (simp add: GetAddress_def Vector_begin_def min_absorb2 cong: if_cong)
    note m4 = relocate_around [OF a2 bL2' ne rl']
    obtain ss where a4: "block_at m4 a = Some ss"
      using m4 by blast
    have L4: "block_at m4 ?L = Some (map Some (?xs1 @ x # ?xs2) @ replicate (?g - Suc ?n) None)"
      using m4 by simp
    have ad': "adopt v nd m4 = Inr ((), (v\<lparr>m_data := nd\<rparr>, m4\<lparr>blocks := (blocks m4)[a := None]\<rparr>))"
      using Block(1) a4 by (intro adopt_block) simp_all
    have w: "w = v\<lparr>m_data := nd\<rparr>" and m5: "m5 = m4\<lparr>blocks := (blocks m4)[a := None]\<rparr>"
      using ad ad' by simp_all
    have v': "v' = \<lparr>m_data = nd, m_size = ?n + 1\<rparr>" and m': "m' = m5"
      using fin w m5 nd sz by (auto simp: Vector_begin_def GetAddress_def)
    have b: "block_at m' ?L = Some (map Some (?xs1 @ x # ?xs2) @ replicate (?g - Suc ?n) None)"
      using m' m5 L4 ne by simp
    have "wf E m' v' \<and> elems m' v' = map Some (?xs1 @ x # ?xs2)"
      using v' nd Block b g0 ng ix
      by (intro wf_block [where a = ?L and r = "?g - Suc ?n"]) simp_all
    moreover have "elems m v = map Some xs"
      using Block by (simp add: elems_def slots_of_def)
    ultimately show ?thesis
      using args v' nd by (simp add: take_map drop_map)
  qed
qed

lemma Emplace_ok:
  assumes wf: "wf E m v" and i: "i \<le> m_size v"
    and r: "Emplace E i (Args args) v m = Inr (p, (v', m'))"
  shows "\<exists>x. args = Yields x \<and> m_size v' = m_size v + 1 \<and>
     elems m' v' = take i (elems m v) @ Some x # drop i (elems m v) \<and> wf E m' v'"
proof (cases "m_size v = m_capacity (m_data v)")
  case True
  from Emplace_grow [OF wf i True r] show ?thesis
    by auto
next
  case False
  then have "m_size v < m_capacity (m_data v)"
    using wf by (simp add: wf_def)
  from Emplace_in_place [OF wf i this r] show ?thesis
    by auto
qed

lemma length_elems: "wf E m v \<Longrightarrow> length (elems m v) = m_size v"
  by (erule wf_cases) (simp_all add: elems_def slots_of_def)

lemma Erase_returns:
  assumes wf: "wf E m v" and i: "i < m_size v" and nt: "\<And>y. \<not> move_assign_throws E y"
  shows "\<exists>q v' m'. Erase E i v m = Inr (q, (v', m'))"
  using wf
proof (cases rule: wf_cases)
  case Null
  then show ?thesis using i by simp
next
  case (Block a xs r')
  let ?n = "length xs"
  let ?P = "take i xs" and ?rest = "drop (Suc i) xs"
  have ix: "i < ?n" using i Block(3) by simp
  have xs: "xs = ?P @ xs ! i # ?rest"
    using ix by (rule id_take_nth_drop)
  have lP: "length ?P = i" using ix by simp
  have lr: "length ?rest = ?n - Suc i" by simp
  have ps: "ptr_sub (Ptr a ?n) 1 = Some (Ptr a (?n - 1))"
    using ix by simp
  have "map Some xs = map Some (?P @ xs ! i # ?rest)"
    by (rule arg_cong [OF xs])
  then have a0: "block_at m a = Some (map Some ?P @ Some (xs ! i) # map Some ?rest @ replicate r' None)"
    using Block(2) by (simp only: map_append list.map append_assoc append_Cons)
  let ?d = "if ?rest = [] then xs ! i else moved_from E (last ?rest)"
  let ?m1 = "m\<lparr>blocks := (blocks m)[a := Some (map Some ?P @ map Some ?rest @
                                 Some ?d # replicate r' None)],
                journal := journal m @
                  map (\<lambda>t. Assign Move (Ptr a (length (map Some ?P) + t))) [0..<length ?rest]\<rparr>"
  have all: "list_all (\<lambda>x. \<not> move_assign_throws E x) ?rest"
    using nt by (simp add: list_all_iff)
  have "for_each (\<lambda>k. move_assign E (Ptr a (Suc (length (map Some ?P)) + k))
                          (Ptr a (length (map Some ?P) + k))) [0..<length ?rest] m = Inr ((), ?m1)"
    using move_range_loop [OF a0, of E] all by (simp only: if_True)
  then have mr: "move_range E (Ptr a (Suc i)) (?n - Suc i) (Ptr a i) m = Inr ((), ?m1)"
    using lP lr by (simp add: move_range_def)
  have a1: "block_at ?m1 a = Some ((map Some ?P @ map Some ?rest) @ map Some [?d] @ replicate r' None)"
    using block_at_Some_less [OF Block(2)] by simp
  have "\<exists>m2. destroy_n (Ptr a (?n - 1)) 1 ?m1 = Inr ((), m2)"
    using destroy_n_ok [OF a1, of "?n - 1" 1] ix by simp
  then obtain m2 where dn: "destroy_n (Ptr a (?n - 1)) 1 ?m1 = Inr ((), m2)"
    by blast
  show ?thesis
    using mr dn ps ix Block(1,3)
    by (simp add: Erase_def Vector_begin_def Vector_end_def GetAddress_def in_obj_def)
qed


section \<open>RawMemory: ownership transfer\<close>

text \<open>
  C10. Move-constructing a vector from \<open>v\<close> hands the buffer and the size of \<open>v\<close> to the
  new vector and leaves \<open>v\<close> as a default-constructed vector: size 0, capacity 0 and a null
  buffer address.
\<close>

theorem Vector_move_ctor_leaves_default:
  "snd (Vector_move_ctor v) = Vector_default \<and>
   Size (snd (Vector_move_ctor v)) = 0 \<and>
   Capacity (snd (Vector_move_ctor v)) = 0 \<and>
   GetAddress (m_data (snd (Vector_move_ctor v))) = Null \<and>
   fst (Vector_move_ctor v) = v"
  by (simp add: Vector_move_ctor_def RawMemory_move_ctor_def Vector_default_def
      RawMemory_default_def Size_def Capacity_def RawMemory_Capacity_def GetAddress_def)

text \<open>
  C2. The move assignment of \<^verbatim>\<open>RawMemory\<close> does not keep \<open>capacity = 0\<close> iff
  \<open>address = null\<close>. Two buffers of one slot each are allocated in the empty store, \<open>a\<close> at
  block 0 and \<open>b\<close> at block 1. After \<open>a = std::move(b)\<close> the source \<open>b\<close> has capacity 0 and
  the address of the block \<open>a\<close> had, which the assignment has released; the destructor of
  \<open>b\<close> releases it a second time.
\<close>

theorem RawMemory_move_assign_leaves_dangling:
  "RawMemory_ctor int_type 1 empty_mem =
     Inr (\<lparr>m_buffer = Ptr 0 0, m_capacity = 1\<rparr>, \<lparr>blocks = [Some [None]], journal = []\<rparr>) \<and>
   RawMemory_ctor int_type 1 \<lparr>blocks = [Some [None]], journal = []\<rparr> =
     Inr (\<lparr>m_buffer = Ptr 1 0, m_capacity = 1\<rparr>,
          \<lparr>blocks = [Some [None], Some [None]], journal = []\<rparr>) \<and>
   RawMemory_move_assign \<lparr>m_buffer = Ptr 0 0, m_capacity = 1\<rparr>
       (Other \<lparr>m_buffer = Ptr 1 0, m_capacity = 1\<rparr>)
       \<lparr>blocks = [Some [None :: int option], Some [None]], journal = []\<rparr> =
     Inr ((), (\<lparr>m_buffer = Ptr 1 0, m_capacity = 1\<rparr>,
               Other \<lparr>m_buffer = Ptr 0 0, m_capacity = 0\<rparr>),
              \<lparr>blocks = [None, Some [None]], journal = []\<rparr>) \<and>
   RawMemory_dtor \<lparr>m_buffer = Ptr 0 0, m_capacity = 0\<rparr>
       \<lparr>blocks = [None, Some [None :: int option]], journal = []\<rparr> =
     Inl (UB (InvalidFree (Ptr 0 0)) \<lparr>blocks = [None, Some [None]], journal = []\<rparr>)"
  by (simp add: raw_defs prim_defs int_type_def empty_mem_def eval_simps)

section \<open>Vector: element lifetimes\<close>

text \<open>
  C3. The move assignment of \<^verbatim>\<open>Vector\<close> does not keep the number of live elements of a
  buffer equal to the length. \<open>a\<close> is \<^verbatim>\<open>Vector<int>(1)\<close> at block 0 and \<open>b\<close> is
  \<^verbatim>\<open>Vector<int>(2)\<close> at block 1. After \<open>a = std::move(b)\<close> the vector \<open>b\<close> has size 0 and
  the buffer of \<open>a\<close>, in which the element of \<open>a\<close> is still alive. The destructors of \<open>b\<close>
  and \<open>a\<close> then release both blocks with two destructor calls for three constructed
  elements: the element at slot 0 of block 0 is never destroyed.
\<close>

theorem Vector_move_assign_leaks:
  "Vector_ctor int_type 1 empty_mem =
     Inr (\<lparr>m_data = \<lparr>m_buffer = Ptr 0 0, m_capacity = 1\<rparr>, m_size = 1\<rparr>,
          \<lparr>blocks = [Some [Some 0]], journal = [Ctor ValueInit (Ptr 0 0)]\<rparr>) \<and>
   Vector_ctor int_type 2 \<lparr>blocks = [Some [Some 0]], journal = [Ctor ValueInit (Ptr 0 0)]\<rparr> =
     Inr (\<lparr>m_data = \<lparr>m_buffer = Ptr 1 0, m_capacity = 2\<rparr>, m_size = 2\<rparr>,
          \<lparr>blocks = [Some [Some 0], Some [Some 0, Some 0]],
           journal = [Ctor ValueInit (Ptr 0 0), Ctor ValueInit (Ptr 1 0),
                      Ctor ValueInit (Ptr 1 1)]\<rparr>) \<and>
   Vector_move_assign \<lparr>m_data = \<lparr>m_buffer = Ptr 0 0, m_capacity = 1\<rparr>, m_size = 1\<rparr>
       (Other \<lparr>m_data = \<lparr>m_buffer = Ptr 1 0, m_capacity = 2\<rparr>, m_size = 2\<rparr>) =
     (\<lparr>m_data = \<lparr>m_buffer = Ptr 1 0, m_capacity = 2\<rparr>, m_size = 2\<rparr>,
      Other \<lparr>m_data = \<lparr>m_buffer = Ptr 0 0, m_capacity = 1\<rparr>, m_size = 0\<rparr>) \<and>
   live_count \<lparr>blocks = [Some [Some (0 :: int)], Some [Some 0, Some 0]], journal = []\<rparr>
       \<lparr>m_data = \<lparr>m_buffer = Ptr 0 0, m_capacity = 1\<rparr>, m_size = 0\<rparr> = 1 \<and>
   and_then
       (Vector_dtor \<lparr>m_data = \<lparr>m_buffer = Ptr 0 0, m_capacity = 1\<rparr>, m_size = 0\<rparr>
          \<lparr>blocks = [Some [Some (0 :: int)], Some [Some 0, Some 0]],
           journal = [Ctor ValueInit (Ptr 0 0), Ctor ValueInit (Ptr 1 0),
                      Ctor ValueInit (Ptr 1 1)]\<rparr>)
       (\<lambda>u. Vector_dtor \<lparr>m_data = \<lparr>m_buffer = Ptr 1 0, m_capacity = 2\<rparr>, m_size = 2\<rparr>) =
     Inr ((), \<lparr>blocks = [None, None],
               journal = [Ctor ValueInit (Ptr 0 0), Ctor ValueInit (Ptr 1 0),
                          Ctor ValueInit (Ptr 1 1), Dtor (Ptr 1 0), Dtor (Ptr 1 1)]\<rparr>)"
  by (simp add: vec_defs raw_defs prim_defs algo_defs obs_defs int_type_def empty_mem_def
      eval_simps)

text \<open>
  C1. A copy that throws during the bulk transfer of the growing \<^verbatim>\<open>Emplace\<close> is not
  propagated. The vector holds 7 and 13 in a full buffer of two slots (block 0); its
  element type is \<open>unlucky_type\<close>, whose copy constructor throws on 13. \<^verbatim>\<open>Emplace\<close> at
  \<^verbatim>\<open>end()\<close> constructs the new element 9 in slot 2 of the new block 1, copies 7 into
  slot 0, and the copy of 13 throws: \<^verbatim>\<open>uninitialized_copy_n\<close> destroys the copy in slot 0
  of the new block. The handler \<^verbatim>\<open>catch (...)\<close> then destroys the two elements of the old
  block and does not rethrow; the function goes on to \<^verbatim>\<open>destroy_n(begin(), size_)\<close>,
  which calls the destructor of the element in slot 0 of the old block a second time.
  The outcome is this undefined behaviour, not the exception.
\<close>

theorem Emplace_swallows_exception:
  "Emplace unlucky_type 2 (Args (Yields 9))
       \<lparr>m_data = \<lparr>m_buffer = Ptr 0 0, m_capacity = 2\<rparr>, m_size = 2\<rparr>
       \<lparr>blocks = [Some [Some 7, Some 13]],
        journal = [Ctor FromArgs (Ptr 0 0), Ctor FromArgs (Ptr 0 1)]\<rparr> =
     Inl (UB (NotAlive (Ptr 0 0))
            (\<lparr>m_data = \<lparr>m_buffer = Ptr 0 0, m_capacity = 2\<rparr>, m_size = 2\<rparr>,
             \<lparr>blocks = [Some [None, None], Some [None, None, Some 9, None]],
              journal = [Ctor FromArgs (Ptr 0 0), Ctor FromArgs (Ptr 0 1),
                         Ctor FromArgs (Ptr 1 2), Ctor Copy (Ptr 1 0), Dtor (Ptr 1 0),
                         Dtor (Ptr 0 0), Dtor (Ptr 0 1)]\<rparr>))"
  by (simp add: vec_defs raw_defs prim_defs algo_defs unlucky_type_def eval_simps)

section \<open>Capacity\<close>



text \<open>Requests whose byte count does not fit. For \<^verbatim>\<open>Vector<int>\<close>, \<^verbatim>\<open>Reserve(2^62)\<close> asks
  \<^verbatim>\<open>operator new\<close> for \<open>2^62 * 4 mod 2^64 = 0\<close> bytes: on the empty vector it returns with
  the capacity \<open>2^62\<close> over a block without room for an element, and on a vector with an
  element the transfer writes outside that block. \<^verbatim>\<open>Reserve(2^61)\<close> asks for \<open>2^63\<close> bytes
  and throws \<^verbatim>\<open>std::bad_alloc\<close>.\<close>

lemma Reserve_wrapped_request:
  "Reserve int_type (2 ^ 62) Vector_default empty_mem =
     Inr ((), (\<lparr>m_data = \<lparr>m_buffer = Ptr 0 0, m_capacity = 2 ^ 62\<rparr>, m_size = 0\<rparr>,
               \<lparr>blocks = [Some []], journal = []\<rparr>)) \<and>
   Reserve int_type (2 ^ 61) Vector_default empty_mem =
     Inl (Throw BadAlloc (Vector_default, empty_mem)) \<and>
   Reserve int_type (2 ^ 62) \<lparr>m_data = \<lparr>m_buffer = Ptr 0 0, m_capacity = 1\<rparr>, m_size = 1\<rparr>
       \<lparr>blocks = [Some [Some 5]], journal = []\<rparr> =
     Inl (UB (InvalidPointer (Ptr 1 0))
            (\<lparr>m_data = \<lparr>m_buffer = Ptr 0 0, m_capacity = 1\<rparr>, m_size = 1\<rparr>,
             \<lparr>blocks = [Some [Some 5], Some []], journal = []\<rparr>))"
  by (simp add: vec_defs raw_defs prim_defs algo_defs int_type_def empty_mem_def SIZE_MOD_def
      uninitialized_loop_numeral)




text \<open>
  C9. \<^verbatim>\<open>EmplaceBack\<close> whose constructor call throws ends with an exception and leaves
  the vector object, every block of the store (so every element) and the journal as they
  were. Whatever the arguments, an exception out of \<^verbatim>\<open>EmplaceBack\<close> leaves the vector
  object, and so its length, unchanged. In the growth path, on return, the first element
  operation recorded is the construction of the new element in slot \<open>Size\<close> of the new
  buffer; the constructions of the migrated elements in the new buffer and the destructor
  calls in the old one follow it.
\<close>

theorem EmplaceBack_constructs_first:
  "(\<exists>x m'. EmplaceBack E Throwing v m = Inl (Throw x (v, m')) \<and>
            block_at m' = block_at m \<and> elems m' v = elems m v \<and> journal m' = journal m) \<and>
   (\<forall>x v' m'. EmplaceBack E args v m = Inl (Throw x (v', m')) \<longrightarrow> v' = v) \<and>
   (wf E m v \<and> Size v = Capacity v \<longrightarrow>
      (\<forall>p v' m'. EmplaceBack E args v m = Inr (p, (v', m')) \<longrightarrow>
         p = ptr_add (Vector_begin v') (Size v) \<and> Size v' = Size v + 1 \<and>
         journal m' = journal m @ Ctor FromArgs p #
           map (\<lambda>t. Ctor (if nothrow_move_or_no_copy E then Move else Copy)
                      (ptr_add (Vector_begin v') t)) [0..<Size v] @
           map (\<lambda>t. Dtor (ptr_add (Vector_begin v) t)) [0..<Size v]))"
proof (intro conjI allI impI)
  from EmplaceBack_Throwing [of E v m]
  obtain x m' where "EmplaceBack E Throwing v m = Inl (Throw x (v, m'))"
    "block_at m' = block_at m" "journal m' = journal m"
    by blast
  then show "\<exists>x m'. EmplaceBack E Throwing v m = Inl (Throw x (v, m')) \<and>
            block_at m' = block_at m \<and> elems m' v = elems m v \<and> journal m' = journal m"
    using elems_block_at_cong [of m' m v] by blast
next
  fix x v' m'
  assume "EmplaceBack E args v m = Inl (Throw x (v', m'))"
  then show "v' = v" by (rule EmplaceBack_Throw_keeps_vector)
next
  fix p v' m'
  assume a: "wf E m v \<and> Size v = Capacity v"
    and r: "EmplaceBack E args v m = Inr (p, (v', m'))"
  have full: "m_size v = m_capacity (m_data v)"
    using a by (simp add: Size_def Capacity_def RawMemory_Capacity_def)
  from EmplaceBack_grow [OF _ full r] a
  have v': "v' = \<lparr>m_data = \<lparr>m_buffer = Ptr (length (blocks m)) 0, m_capacity = grown (m_size v)\<rparr>,
           m_size = m_size v + 1\<rparr>"
    and p: "p = Ptr (length (blocks m)) (m_size v)"
    and j: "journal m' = journal m @ Ctor FromArgs (Ptr (length (blocks m)) (m_size v)) #
       map (\<lambda>t. Ctor (if nothrow_move_or_no_copy E then Move else Copy)
                  (Ptr (length (blocks m)) t)) [0..<m_size v] @
       map (\<lambda>t. Dtor (ptr_add (Vector_begin v) t)) [0..<m_size v]"
    by blast+
  show "p = ptr_add (Vector_begin v') (Size v)"
    using v' p by (simp add: Vector_begin_def GetAddress_def Size_def)
  show "Size v' = Size v + 1"
    using v' by (simp add: Size_def)
  show "journal m' = journal m @ Ctor FromArgs p #
           map (\<lambda>t. Ctor (if nothrow_move_or_no_copy E then Move else Copy)
                      (ptr_add (Vector_begin v') t)) [0..<Size v] @
           map (\<lambda>t. Dtor (ptr_add (Vector_begin v) t)) [0..<Size v]"
    using v' p j by (simp add: Vector_begin_def GetAddress_def Size_def)
qed

theorem EmplaceBack_constructs_first_witness:
  "EmplaceBack int_type Throwing \<lparr>m_data = \<lparr>m_buffer = Ptr 0 0, m_capacity = 1\<rparr>, m_size = 1\<rparr>
      \<lparr>blocks = [Some [Some 5]], journal = []\<rparr> =
     Inl (Throw ElemThrow (\<lparr>m_data = \<lparr>m_buffer = Ptr 0 0, m_capacity = 1\<rparr>, m_size = 1\<rparr>,
                           \<lparr>blocks = [Some [Some 5], None], journal = []\<rparr>)) \<and>
   wf int_type \<lparr>blocks = [Some [Some 5]], journal = []\<rparr>
      \<lparr>m_data = \<lparr>m_buffer = Ptr 0 0, m_capacity = 1\<rparr>, m_size = 1\<rparr> \<and>
   Size \<lparr>m_data = \<lparr>m_buffer = Ptr 0 0, m_capacity = 1\<rparr>, m_size = 1\<rparr> =
     Capacity \<lparr>m_data = \<lparr>m_buffer = Ptr 0 0, m_capacity = 1\<rparr>, m_size = 1\<rparr> \<and>
   EmplaceBack int_type (Yields 6) \<lparr>m_data = \<lparr>m_buffer = Ptr 0 0, m_capacity = 1\<rparr>, m_size = 1\<rparr>
      \<lparr>blocks = [Some [Some 5]], journal = []\<rparr> =
     Inr (Ptr 1 1, (\<lparr>m_data = \<lparr>m_buffer = Ptr 1 0, m_capacity = 2\<rparr>, m_size = 2\<rparr>,
               \<lparr>blocks = [None, Some [Some 5, Some 6]],
                journal = [Ctor FromArgs (Ptr 1 1), Ctor Move (Ptr 1 0), Dtor (Ptr 0 0)]\<rparr>)) \<and>
   journal \<lparr>blocks = [None, Some [Some (5 :: int), Some 6]],
            journal = [Ctor FromArgs (Ptr 1 1), Ctor Move (Ptr 1 0), Dtor (Ptr 0 0)]\<rparr> =
     journal \<lparr>blocks = [Some [Some (5 :: int)]], journal = []\<rparr> @
       Ctor FromArgs (Ptr 1 1) #
       map (\<lambda>t. Ctor (if nothrow_move_or_no_copy int_type then Move else Copy)
             (ptr_add (Vector_begin \<lparr>m_data = \<lparr>m_buffer = Ptr 1 0, m_capacity = 2\<rparr>, m_size = 2\<rparr>) t))
         [0..<Size \<lparr>m_data = \<lparr>m_buffer = Ptr 0 0, m_capacity = 1\<rparr>, m_size = 1\<rparr>] @
       map (\<lambda>t. Dtor (ptr_add (Vector_begin \<lparr>m_data = \<lparr>m_buffer = Ptr 0 0, m_capacity = 1\<rparr>, m_size = 1\<rparr>) t))
         [0..<Size \<lparr>m_data = \<lparr>m_buffer = Ptr 0 0, m_capacity = 1\<rparr>, m_size = 1\<rparr>]"
proof -
  let ?v = "\<lparr>m_data = \<lparr>m_buffer = Ptr 0 0, m_capacity = 1\<rparr>, m_size = 1\<rparr>"
  let ?m = "\<lparr>blocks = [Some [Some (5 :: int)]], journal = []\<rparr>"
  let ?v1 = "\<lparr>m_data = \<lparr>m_buffer = Ptr 1 0, m_capacity = 2\<rparr>, m_size = 2\<rparr>"
  let ?m1 = "\<lparr>blocks = [None, Some [Some (5 :: int), Some 6]],
                journal = [Ctor FromArgs (Ptr 1 1), Ctor Move (Ptr 1 0), Dtor (Ptr 0 0)]\<rparr>"
  have w: "wf int_type ?m ?v"
    by (simp add: obs_defs prim_defs int_type_def)
  have f: "Size ?v = Capacity ?v"
    by (simp add: vec_defs raw_defs)
  have t: "EmplaceBack int_type Throwing ?v ?m =
     Inl (Throw ElemThrow (?v, \<lparr>blocks = [Some [Some 5], None], journal = []\<rparr>))"
    by (simp add: vec_defs raw_defs prim_defs algo_defs int_type_def eval_simps)
  have e: "EmplaceBack int_type (Yields 6) ?v ?m = Inr (Ptr 1 1, (?v1, ?m1))"
    by (simp add: vec_defs raw_defs prim_defs algo_defs int_type_def eval_simps)
  have "wf int_type ?m ?v \<and> Size ?v = Capacity ?v \<longrightarrow>
      (\<forall>p v' m'. EmplaceBack int_type (Yields 6) ?v ?m = Inr (p, (v', m')) \<longrightarrow>
         p = ptr_add (Vector_begin v') (Size ?v) \<and> Size v' = Size ?v + 1 \<and>
         journal m' = journal ?m @ Ctor FromArgs p #
           map (\<lambda>t. Ctor (if nothrow_move_or_no_copy int_type then Move else Copy)
                      (ptr_add (Vector_begin v') t)) [0..<Size ?v] @
           map (\<lambda>t. Dtor (ptr_add (Vector_begin ?v) t)) [0..<Size ?v])"
    using EmplaceBack_constructs_first [of int_type ?v ?m "Yields 6"] by (rule conjunct2 [THEN conjunct2])
  then have "journal ?m1 = journal ?m @ Ctor FromArgs (Ptr 1 1) #
           map (\<lambda>t. Ctor (if nothrow_move_or_no_copy int_type then Move else Copy)
                      (ptr_add (Vector_begin ?v1) t)) [0..<Size ?v] @
           map (\<lambda>t. Dtor (ptr_add (Vector_begin ?v) t)) [0..<Size ?v]"
    using w f e by blast
  then show ?thesis
    using w f e t by simp
qed

section \<open>A concrete run\<close>

text \<open>The scenario on \<^verbatim>\<open>Vector<int>\<close>, from the empty vector in the empty store; the
  appends are made once with \<^verbatim>\<open>EmplaceBack\<close> and once with \<^verbatim>\<open>PushBack\<close>.\<close>

lemmas run_defs = vec_defs raw_defs prim_defs algo_defs int_type_def empty_mem_def then_do_def
  eval_simps

lemma scenario_appended_eq:
  "scenario_appended =
     Inr (Ptr 2 2, \<lparr>m_data = \<lparr>m_buffer = Ptr 2 0, m_capacity = 4\<rparr>, m_size = 3\<rparr>,
          \<lparr>blocks = [None, None, Some [Some 1, Some 2, Some 3, None]],
           journal = [Ctor FromArgs (Ptr 0 0), Ctor FromArgs (Ptr 1 1),
            Ctor Move (Ptr 1 0), Dtor (Ptr 0 0), Ctor FromArgs (Ptr 2 2),
            Ctor Move (Ptr 2 0), Ctor Move (Ptr 2 1), Dtor (Ptr 1 0),
            Dtor (Ptr 1 1)]\<rparr>)"
  by (simp add: scenario_appended_def run_defs)

lemma scenario_pushed_eq:
  "scenario_pushed =
     Inr ((), \<lparr>m_data = \<lparr>m_buffer = Ptr 2 0, m_capacity = 4\<rparr>, m_size = 3\<rparr>,
          \<lparr>blocks = [None, None, Some [Some 1, Some 2, Some 3, None]],
           journal = [Ctor FromArgs (Ptr 0 0), Ctor FromArgs (Ptr 1 1),
            Ctor Move (Ptr 1 0), Dtor (Ptr 0 0), Ctor FromArgs (Ptr 2 2),
            Ctor Move (Ptr 2 0), Ctor Move (Ptr 2 1), Dtor (Ptr 1 0),
            Dtor (Ptr 1 1)]\<rparr>)"
  by (simp add: scenario_pushed_def run_defs)

lemma scenario_inserted_eq:
  "scenario_inserted =
     Inr (Ptr 2 1, \<lparr>m_data = \<lparr>m_buffer = Ptr 2 0, m_capacity = 4\<rparr>, m_size = 4\<rparr>,
      \<lparr>blocks = [None, None, Some [Some 1, Some 9, Some 2, Some 3]],
         journal =
           [Ctor FromArgs (Ptr 0 0), Ctor FromArgs (Ptr 1 1),
            Ctor Move (Ptr 1 0), Dtor (Ptr 0 0), Ctor FromArgs (Ptr 2 2),
            Ctor Move (Ptr 2 0), Ctor Move (Ptr 2 1), Dtor (Ptr 1 0),
            Dtor (Ptr 1 1), Ctor Move (Ptr 2 3), Assign Move (Ptr 2 2),
            Assign Move (Ptr 2 1)]\<rparr>)"
  by (simp add: scenario_inserted_def scenario_appended_eq run_defs)

lemma scenario_erased_eq:
  "scenario_erased =
     Inr (Ptr 2 0, \<lparr>m_data = \<lparr>m_buffer = Ptr 2 0, m_capacity = 4\<rparr>, m_size = 3\<rparr>,
      \<lparr>blocks = [None, None, Some [Some 9, Some 2, Some 3, None]],
         journal =
           [Ctor FromArgs (Ptr 0 0), Ctor FromArgs (Ptr 1 1),
            Ctor Move (Ptr 1 0), Dtor (Ptr 0 0), Ctor FromArgs (Ptr 2 2),
            Ctor Move (Ptr 2 0), Ctor Move (Ptr 2 1), Dtor (Ptr 1 0),
            Dtor (Ptr 1 1), Ctor Move (Ptr 2 3), Assign Move (Ptr 2 2),
            Assign Move (Ptr 2 1), Assign Move (Ptr 2 0),
            Assign Move (Ptr 2 1), Assign Move (Ptr 2 2), Dtor (Ptr 2 3)]\<rparr>)"
  by (simp add: scenario_erased_def scenario_inserted_eq run_defs)

lemma scenario_resized_eq:
  "scenario_resized =
     Inr ((), \<lparr>m_data = \<lparr>m_buffer = Ptr 3 0, m_capacity = 5\<rparr>, m_size = 5\<rparr>,
      \<lparr>blocks =
         [None, None, None, Some [Some 9, Some 2, Some 3, Some 0, Some 0]],
         journal =
           [Ctor FromArgs (Ptr 0 0), Ctor FromArgs (Ptr 1 1),
            Ctor Move (Ptr 1 0), Dtor (Ptr 0 0), Ctor FromArgs (Ptr 2 2),
            Ctor Move (Ptr 2 0), Ctor Move (Ptr 2 1), Dtor (Ptr 1 0),
            Dtor (Ptr 1 1), Ctor Move (Ptr 2 3), Assign Move (Ptr 2 2),
            Assign Move (Ptr 2 1), Assign Move (Ptr 2 0),
            Assign Move (Ptr 2 1), Assign Move (Ptr 2 2), Dtor (Ptr 2 3),
            Ctor Move (Ptr 3 0), Ctor Move (Ptr 3 1), Ctor Move (Ptr 3 2),
            Dtor (Ptr 2 0), Dtor (Ptr 2 1), Dtor (Ptr 2 2),
            Ctor ValueInit (Ptr 3 3), Ctor ValueInit (Ptr 3 4)]\<rparr>)"
  by (simp add: scenario_resized_def scenario_erased_eq run_defs)

lemma scenario_popped_eq:
  "scenario_popped =
     Inr ((), \<lparr>m_data = \<lparr>m_buffer = Ptr 3 0, m_capacity = 5\<rparr>, m_size = 3\<rparr>,
      \<lparr>blocks =
         [None, None, None, Some [Some 9, Some 2, Some 3, None, None]],
         journal =
           [Ctor FromArgs (Ptr 0 0), Ctor FromArgs (Ptr 1 1),
            Ctor Move (Ptr 1 0), Dtor (Ptr 0 0), Ctor FromArgs (Ptr 2 2),
            Ctor Move (Ptr 2 0), Ctor Move (Ptr 2 1), Dtor (Ptr 1 0),
            Dtor (Ptr 1 1), Ctor Move (Ptr 2 3), Assign Move (Ptr 2 2),
            Assign Move (Ptr 2 1), Assign Move (Ptr 2 0),
            Assign Move (Ptr 2 1), Assign Move (Ptr 2 2), Dtor (Ptr 2 3),
            Ctor Move (Ptr 3 0), Ctor Move (Ptr 3 1), Ctor Move (Ptr 3 2),
            Dtor (Ptr 2 0), Dtor (Ptr 2 1), Dtor (Ptr 2 2),
            Ctor ValueInit (Ptr 3 3), Ctor ValueInit (Ptr 3 4),
            Dtor (Ptr 3 4), Dtor (Ptr 3 3)]\<rparr>)"
  by (simp add: scenario_popped_def scenario_resized_eq run_defs)

text \<open>
  C5. From the empty vector of integers: appending 1, 2, 3 gives the sequence 1, 2, 3 and size
  3; \<^verbatim>\<open>Insert\<close> of 9 at position 1 gives 1, 9, 2, 3; \<^verbatim>\<open>Erase\<close> at position 0 gives 9, 2, 3;
  \<^verbatim>\<open>Resize(5)\<close> gives 9, 2, 3, 0, 0; two \<^verbatim>\<open>PopBack\<close> calls give 9, 2, 3.
\<close>

theorem scenario:
  "seq_after scenario_appended = Some [Some 1, Some 2, Some 3] \<and>
   size_after scenario_appended = Some 3 \<and>
   seq_after scenario_pushed = Some [Some 1, Some 2, Some 3] \<and>
   size_after scenario_pushed = Some 3 \<and>
   seq_after scenario_inserted = Some [Some 1, Some 9, Some 2, Some 3] \<and>
   seq_after scenario_erased = Some [Some 9, Some 2, Some 3] \<and>
   seq_after scenario_resized = Some [Some 9, Some 2, Some 3, Some 0, Some 0] \<and>
   seq_after scenario_popped = Some [Some 9, Some 2, Some 3]"
  by (simp add: scenario_appended_eq scenario_pushed_eq scenario_inserted_eq scenario_erased_eq
      scenario_resized_eq scenario_popped_eq seq_after_def size_after_def elems_def slots_of_def
      block_at_def Size_def)

section \<open>Copy assignment from a shorter vector\<close>

text \<open>
  C6. \<open>d\<close> and \<open>s\<close> are well-formed vectors with buffers of their own, \<open>Size s < Size d\<close>
  and \<open>Size s \<le> Capacity d\<close>. When the copy assignment \<open>d = s\<close> returns, the element
  operations it has recorded are a copy assignment to each of the first \<open>Size s\<close> slots of
  the buffer of \<open>d\<close>, in order, and then a destructor call on each of the
  \<open>Size d - Size s\<close> slots after them: nothing is constructed. \<open>d\<close> is left with the size and
  the element values of \<open>s\<close>, in the same buffer; \<open>s\<close> keeps its elements.
\<close>

theorem copy_assign_smaller_source:
  assumes "wf E m d" and "wf E m s" and "GetAddress (m_data s) \<noteq> GetAddress (m_data d)"
    and "Size s < Size d" and "Size s \<le> Capacity d"
  shows "\<forall>d' m'. Vector_copy_assign E d (Other s) m = Inr ((), (d', m')) \<longrightarrow>
           Size d' = Size s \<and> elems m' d' = elems m s \<and> elems m' s = elems m s \<and>
           wf E m' d' \<and>
           journal m' = journal m @
             map (\<lambda>t. Assign Copy (ptr_add (Vector_begin d') t)) [0..<Size s] @
             map (\<lambda>t. Dtor (ptr_add (Vector_begin d') (Size s + t))) [0..<Size d - Size s]"
proof (intro allI impI)
  fix d' m'
  assume r: "Vector_copy_assign E d (Other s) m = Inr ((), (d', m'))"
  have ne: "m_buffer (m_data s) \<noteq> m_buffer (m_data d)"
    using assms(3) by (simp add: GetAddress_def)
  have lt: "m_size s < m_size d"
    using assms(4) by (simp add: Size_def)
  from Vector_copy_assign_shrink [OF assms(1,2) ne lt r]
  have d': "d' = d\<lparr>m_size := m_size s\<rparr>" and e1: "elems m' d' = elems m s"
    and e2: "elems m' s = elems m s" and w: "wf E m' d'"
    and j: "journal m' = journal m @
       map (\<lambda>t. Assign Copy (ptr_add (Vector_begin d) t)) [0..<m_size s] @
       map (\<lambda>t. Dtor (ptr_add (Vector_begin d) (m_size s + t))) [0..<m_size d - m_size s]"
    by blast+
  have b: "Vector_begin d' = Vector_begin d"
    using d' by (simp add: Vector_begin_def)
  show "Size d' = Size s \<and> elems m' d' = elems m s \<and> elems m' s = elems m s \<and>
           wf E m' d' \<and>
           journal m' = journal m @
             map (\<lambda>t. Assign Copy (ptr_add (Vector_begin d') t)) [0..<Size s] @
             map (\<lambda>t. Dtor (ptr_add (Vector_begin d') (Size s + t))) [0..<Size d - Size s]"
    using d' e1 e2 w j b by (simp add: Size_def)
qed

theorem copy_assign_smaller_source_witness:
  "wf int_type \<lparr>blocks = [Some [Some 1, Some 2, Some 3], Some [Some 7]], journal = []\<rparr>
      \<lparr>m_data = \<lparr>m_buffer = Ptr 0 0, m_capacity = 3\<rparr>, m_size = 3\<rparr> \<and>
   wf int_type \<lparr>blocks = [Some [Some 1, Some 2, Some 3], Some [Some 7]], journal = []\<rparr>
      \<lparr>m_data = \<lparr>m_buffer = Ptr 1 0, m_capacity = 1\<rparr>, m_size = 1\<rparr> \<and>
   Vector_copy_assign int_type \<lparr>m_data = \<lparr>m_buffer = Ptr 0 0, m_capacity = 3\<rparr>, m_size = 3\<rparr>
      (Other \<lparr>m_data = \<lparr>m_buffer = Ptr 1 0, m_capacity = 1\<rparr>, m_size = 1\<rparr>)
      \<lparr>blocks = [Some [Some 1, Some 2, Some 3], Some [Some 7]], journal = []\<rparr> =
     Inr ((), (\<lparr>m_data = \<lparr>m_buffer = Ptr 0 0, m_capacity = 3\<rparr>, m_size = 1\<rparr>,
               \<lparr>blocks = [Some [Some 7, None, None], Some [Some 7]],
                journal = [Assign Copy (Ptr 0 0), Dtor (Ptr 0 1), Dtor (Ptr 0 2)]\<rparr>)) \<and>
   elems \<lparr>blocks = [Some [Some 7, None, None], Some [Some (7 :: int)]],
          journal = [Assign Copy (Ptr 0 0), Dtor (Ptr 0 1), Dtor (Ptr 0 2)]\<rparr>
      \<lparr>m_data = \<lparr>m_buffer = Ptr 0 0, m_capacity = 3\<rparr>, m_size = 1\<rparr> =
     elems \<lparr>blocks = [Some [Some 1, Some 2, Some 3], Some [Some (7 :: int)]], journal = []\<rparr>
      \<lparr>m_data = \<lparr>m_buffer = Ptr 1 0, m_capacity = 1\<rparr>, m_size = 1\<rparr>"
proof -
  let ?d = "\<lparr>m_data = \<lparr>m_buffer = Ptr 0 0, m_capacity = 3\<rparr>, m_size = 3\<rparr>"
  let ?s = "\<lparr>m_data = \<lparr>m_buffer = Ptr 1 0, m_capacity = 1\<rparr>, m_size = 1\<rparr>"
  let ?m = "\<lparr>blocks = [Some [Some (1 :: int), Some 2, Some 3], Some [Some 7]], journal = []\<rparr>"
  let ?d1 = "\<lparr>m_data = \<lparr>m_buffer = Ptr 0 0, m_capacity = 3\<rparr>, m_size = 1\<rparr>"
  let ?m1 = "\<lparr>blocks = [Some [Some (7 :: int), None, None], Some [Some 7]],
                journal = [Assign Copy (Ptr 0 0), Dtor (Ptr 0 1), Dtor (Ptr 0 2)]\<rparr>"
  have wd: "wf int_type ?m ?d"
    by (simp add: obs_defs prim_defs int_type_def)
  have ws: "wf int_type ?m ?s"
    by (simp add: obs_defs prim_defs int_type_def)
  have ne: "GetAddress (m_data ?s) \<noteq> GetAddress (m_data ?d)"
    by (simp add: GetAddress_def)
  have lt: "Size ?s < Size ?d" and le: "Size ?s \<le> Capacity ?d"
    by (simp_all add: vec_defs raw_defs)
  have e: "Vector_copy_assign int_type ?d (Other ?s) ?m = Inr ((), (?d1, ?m1))"
    by (simp add: vec_defs raw_defs prim_defs algo_defs int_type_def eval_simps)
  have "elems ?m1 ?d1 = elems ?m ?s"
    using copy_assign_smaller_source [OF wd ws ne lt le] e by blast
  then show ?thesis
    using wd ws e by simp
qed

section \<open>Insertion and erasure\<close>

text \<open>The reference that \<^verbatim>\<open>Insert\<close> is given is read when the element is built. In place
  that is after the elements behind the position have moved up: with \<open>[1, 2, 3]\<close> in a
  buffer of four slots, \<^verbatim>\<open>v.Insert(v.begin(), v[2])\<close> inserts the 2 that the shift has
  put into slot 2, and the erasure gives \<open>[1, 2, 3]\<close> back.\<close>

lemma Insert_copy_of_own_element:
  "Insert_copy int_type 0 (Element (Ptr 0 2))
       \<lparr>m_data = \<lparr>m_buffer = Ptr 0 0, m_capacity = 4\<rparr>, m_size = 3\<rparr>
       \<lparr>blocks = [Some [Some 1, Some 2, Some 3, None]], journal = []\<rparr> =
     Inr (Ptr 0 0, (\<lparr>m_data = \<lparr>m_buffer = Ptr 0 0, m_capacity = 4\<rparr>, m_size = 4\<rparr>,
          \<lparr>blocks = [Some [Some 2, Some 1, Some 2, Some 3]],
           journal = [Ctor Move (Ptr 0 3), Assign Move (Ptr 0 2), Assign Move (Ptr 0 1),
                      Assign Move (Ptr 0 0)]\<rparr>)) \<and>
   seq_after
     (Erase int_type 0 \<lparr>m_data = \<lparr>m_buffer = Ptr 0 0, m_capacity = 4\<rparr>, m_size = 4\<rparr>
        \<lparr>blocks = [Some [Some 2, Some 1, Some 2, Some 3]],
         journal = [Ctor Move (Ptr 0 3), Assign Move (Ptr 0 2), Assign Move (Ptr 0 1),
                    Assign Move (Ptr 0 0)]\<rparr>) = Some [Some 1, Some 2, Some 3]"
  by (simp add: vec_defs raw_defs prim_defs algo_defs obs_defs int_type_def seq_after_def
      eval_simps)

text \<open>Where the value inserted is an object of the caller and the insertion returns, the
  vector holds it at index \<open>i\<close> between the elements it had, and an erasure at \<open>i\<close> that
  returns gives the sequence and the size back. The erasure returns when the move
  assignment of the element type never throws.\<close>

lemma Insert_then_Erase_restores:
  assumes "wf E m v" and "i \<le> Size v"
    and "Insert_copy E i (Object x) v m = Inr (p, (v1, m1)) \<or>
         Insert_move E i (Object x) v m = Inr (p, (v1, m1))"
  shows "elems m1 v1 = take i (elems m v) @ Some x # drop i (elems m v) \<and>
         Size v1 = Size v + 1 \<and> wf E m1 v1 \<and>
         (\<forall>q v2 m2. Erase E i v1 m1 = Inr (q, (v2, m2)) \<longrightarrow>
            elems m2 v2 = elems m v \<and> Size v2 = Size v \<and> wf E m2 v2) \<and>
         ((\<forall>y. \<not> move_assign_throws E y) \<longrightarrow> (\<exists>q v2 m2. Erase E i v1 m1 = Inr (q, (v2, m2))))"
proof -
  have i: "i \<le> m_size v"
    using assms(2) by (simp add: Size_def)
  obtain args where args: "args = copy_of E x \<or> args = move_of E x"
    and r: "Emplace E i (Args args) v m = Inr (p, (v1, m1))"
    using assms(3) by (auto simp: Insert_copy_def Insert_move_def)
  from Emplace_ok [OF assms(1) i r] obtain y where y: "args = Yields y"
    and s1: "m_size v1 = m_size v + 1"
    and e1: "elems m1 v1 = take i (elems m v) @ Some y # drop i (elems m v)"
    and w1: "wf E m1 v1"
    by blast
  have yx: "y = x"
    using args y by (auto simp: copy_of_def move_of_def split: if_splits)
  have len: "length (elems m v) = m_size v"
    using assms(1) by (rule length_elems)
  have i1: "i < m_size v1"
    using i s1 by simp
  have rt: "take i (elems m1 v1) @ drop (Suc i) (elems m1 v1) = elems m v"
    using e1 len i by simp
  have erase: "elems m2 v2 = elems m v \<and> Size v2 = Size v \<and> wf E m2 v2"
    if "Erase E i v1 m1 = Inr (q, (v2, m2))" for q v2 m2
  proof -
    from Erase_ok [OF w1 i1 that]
    have v2: "v2 = v1\<lparr>m_size := m_size v1 - 1\<rparr>"
      and e2: "elems m2 v2 = take i (elems m1 v1) @ drop (Suc i) (elems m1 v1)"
      and w2: "wf E m2 v2"
      by blast+
    have "Size v2 = Size v"
      using v2 s1 by (simp add: Size_def)
    then show ?thesis
      using e2 rt w2 by simp
  qed
  have ret: "\<exists>q v2 m2. Erase E i v1 m1 = Inr (q, (v2, m2))"
    if "\<forall>y. \<not> move_assign_throws E y"
    using w1 i1 that by (intro Erase_returns) simp_all
  show ?thesis
    using e1 yx s1 w1 erase ret by (simp add: Size_def)
qed

text \<open>
  C4. Inserting and then erasing at the same place does not always give the sequence
  back: the growing \<^verbatim>\<open>Emplace\<close> swallows the exception of a transfer and loses the
  elements. The vector is well-formed and holds 7 and 13 in a full buffer of two slots;
  its element type is \<open>unlucky_type\<close>, whose copy constructor throws on 13.
  \<^verbatim>\<open>Insert(end(), 9)\<close> builds the 9 in slot 2 of a new block, copies 7, and the copy of 13
  throws. The handler destroys the two elements of the vector and does not rethrow; at
  this point the vector holds no element any more. \<^verbatim>\<open>destroy_n(begin(), size_)\<close> then calls
  the destructors of the two destroyed elements again, which is where the execution
  stops as undefined. Where a run goes on past these calls, as it does when the
  destructor of a dead element does nothing, the vector takes the new block and the
  length 3, and \<^verbatim>\<open>Erase(begin() + 2)\<close> leaves it with length 2 over two slots that hold no
  element: \<open>[7, 13]\<close> is not restored either way, and no exception has told the caller.
\<close>

theorem Insert_then_Erase_loses_elements:
  "wf unlucky_type \<lparr>blocks = [Some [Some 7, Some 13]], journal = []\<rparr>
      \<lparr>m_data = \<lparr>m_buffer = Ptr 0 0, m_capacity = 2\<rparr>, m_size = 2\<rparr> \<and>
   elems \<lparr>blocks = [Some [Some (7 :: int), Some 13]], journal = []\<rparr>
      \<lparr>m_data = \<lparr>m_buffer = Ptr 0 0, m_capacity = 2\<rparr>, m_size = 2\<rparr> = [Some 7, Some 13] \<and>
   Insert_copy unlucky_type 2 (Object 9)
       \<lparr>m_data = \<lparr>m_buffer = Ptr 0 0, m_capacity = 2\<rparr>, m_size = 2\<rparr>
       \<lparr>blocks = [Some [Some 7, Some 13]], journal = []\<rparr> =
     Inl (UB (NotAlive (Ptr 0 0))
            (\<lparr>m_data = \<lparr>m_buffer = Ptr 0 0, m_capacity = 2\<rparr>, m_size = 2\<rparr>,
             \<lparr>blocks = [Some [None, None], Some [None, None, Some 9, None]],
              journal = [Ctor FromArgs (Ptr 1 2), Ctor Copy (Ptr 1 0), Dtor (Ptr 1 0),
                         Dtor (Ptr 0 0), Dtor (Ptr 0 1)]\<rparr>)) \<and>
   elems \<lparr>blocks = [Some [None, None], Some [None, None, Some (9 :: int), None]],
          journal = [Ctor FromArgs (Ptr 1 2), Ctor Copy (Ptr 1 0), Dtor (Ptr 1 0),
                     Dtor (Ptr 0 0), Dtor (Ptr 0 1)]\<rparr>
      \<lparr>m_data = \<lparr>m_buffer = Ptr 0 0, m_capacity = 2\<rparr>, m_size = 2\<rparr> = [None, None] \<and>
   adopt \<lparr>m_data = \<lparr>m_buffer = Ptr 0 0, m_capacity = 2\<rparr>, m_size = 2\<rparr>
       \<lparr>m_buffer = Ptr 1 0, m_capacity = 4\<rparr>
       \<lparr>blocks = [Some [None, None], Some [None, None, Some (9 :: int), None]],
        journal = [Ctor FromArgs (Ptr 1 2), Ctor Copy (Ptr 1 0), Dtor (Ptr 1 0),
                   Dtor (Ptr 0 0), Dtor (Ptr 0 1)]\<rparr> =
     Inr ((), (\<lparr>m_data = \<lparr>m_buffer = Ptr 1 0, m_capacity = 4\<rparr>, m_size = 2\<rparr>,
               \<lparr>blocks = [None, Some [None, None, Some 9, None]],
                journal = [Ctor FromArgs (Ptr 1 2), Ctor Copy (Ptr 1 0), Dtor (Ptr 1 0),
                           Dtor (Ptr 0 0), Dtor (Ptr 0 1)]\<rparr>)) \<and>
   Erase unlucky_type 2 \<lparr>m_data = \<lparr>m_buffer = Ptr 1 0, m_capacity = 4\<rparr>, m_size = 3\<rparr>
       \<lparr>blocks = [None, Some [None, None, Some 9, None]],
        journal = [Ctor FromArgs (Ptr 1 2), Ctor Copy (Ptr 1 0), Dtor (Ptr 1 0),
                   Dtor (Ptr 0 0), Dtor (Ptr 0 1)]\<rparr> =
     Inr (Ptr 1 2, (\<lparr>m_data = \<lparr>m_buffer = Ptr 1 0, m_capacity = 4\<rparr>, m_size = 2\<rparr>,
          \<lparr>blocks = [None, Some [None, None, None, None]],
           journal = [Ctor FromArgs (Ptr 1 2), Ctor Copy (Ptr 1 0), Dtor (Ptr 1 0),
                      Dtor (Ptr 0 0), Dtor (Ptr 0 1), Dtor (Ptr 1 2)]\<rparr>)) \<and>
   elems \<lparr>blocks = [None, Some [None, None, None, None :: int option]],
          journal = [Ctor FromArgs (Ptr 1 2), Ctor Copy (Ptr 1 0), Dtor (Ptr 1 0),
                     Dtor (Ptr 0 0), Dtor (Ptr 0 1), Dtor (Ptr 1 2)]\<rparr>
      \<lparr>m_data = \<lparr>m_buffer = Ptr 1 0, m_capacity = 4\<rparr>, m_size = 2\<rparr> = [None, None]"
  apply (intro conjI)
        apply (simp add: obs_defs prim_defs unlucky_type_def)
       apply (simp add: obs_defs prim_defs)
      apply (simp add: vec_defs raw_defs prim_defs algo_defs unlucky_type_def eval_simps)
     apply (simp add: obs_defs prim_defs)
    apply (simp add: vec_defs raw_defs prim_defs)
   apply (simp add: vec_defs raw_defs prim_defs algo_defs unlucky_type_def eval_simps)
  apply (simp add: obs_defs prim_defs)
  done

end
